theory Spec2Isabelle
  imports Complex_Main
begin

section \<open>JavaScript numbers\<close>

text \<open>
  The gaze coordinates are JavaScript numbers: binary64 floating-point values. A number
  is a finite value or one of \<open>Infinity\<close>, \<open>-Infinity\<close>, \<open>NaN\<close>. A finite value is
  a real number here, and the result of every operation is rounded to the nearest
  binary64 value, ties to even, with gradual underflow; a result that rounds to
  \<open>2 ^ 1024\<close> or more in magnitude becomes an infinity. The two zeros are one.
  \<open>Math.hypot\<close>, \<open>Math.exp\<close> and \<open>Math.pow\<close>, whose accuracy the language
  leaves to the implementation, are taken to be correctly rounded like \<open>Math.sqrt\<close>.
  A decimal literal of the source denotes the binary64 value nearest to it.
  Timestamps come from \<open>Date.now()\<close>: whole milliseconds, kept as \<open>int\<close> (they are
  far below \<open>2 ^ 53\<close>, so they and their differences are exact as numbers).
\<close>

datatype jsnum = Fin real | PInf | NInf | NaN

text \<open>Rounding a real to the nearest integer, ties to the even one.\<close>

definition roundHalfEven :: "real \<Rightarrow> int" where
  "roundHalfEven y =
     (let f = \<lfloor>y\<rfloor>; d = y - of_int f
      in if d < 1 / 2 then f else if 1 / 2 < d then f + 1
         else if even f then f else f + 1)"

text \<open>The exponent of the unit in the last place of a nonzero real: 52 binary places
  below its leading bit, and never below that of the subnormal numbers.\<close>

definition ulpExponent :: "real \<Rightarrow> int" where
  "ulpExponent x = max (- 1022) \<lfloor>log 2 \<bar>x\<bar>\<rfloor> - 52"

text \<open>Round to nearest, ties to even, with 53 significant bits and unbounded exponent
  upwards.\<close>

definition round64 :: "real \<Rightarrow> real" where
  "round64 x =
     (if x = 0 then 0
      else of_int (roundHalfEven (x / 2 powr of_int (ulpExponent x)))
             * 2 powr of_int (ulpExponent x))"

text \<open>The number an exact result becomes.\<close>

definition fl :: "real \<Rightarrow> jsnum" where
  "fl r = (let q = round64 r
           in if 2 ^ 1024 \<le> q then PInf
              else if q \<le> - (2 ^ 1024) then NInf
              else Fin q)"

text \<open>The reals with at most 53 significant bits and an exponent the format has at
  the bottom end: rounding leaves them as they are.\<close>

definition dyadic53 :: "real \<Rightarrow> bool" where
  "dyadic53 x = (\<exists>m k. x = of_int m * 2 powr of_int k \<and> \<bar>m\<bar> < 2 ^ 53 \<and> - 1074 \<le> k)"

text \<open>The multiples of \<open>2 ^ - 20\<close> below \<open>2 ^ 32\<close>, used as bounds.\<close>

definition grid :: "real \<Rightarrow> bool" where
  "grid x = (x * 1048576 \<in> \<int> \<and> \<bar>x\<bar> < 4294967296)"

fun isFinite :: "jsnum \<Rightarrow> bool" where
  "isFinite (Fin r) = True"
| "isFinite PInf = False"
| "isFinite NInf = False"
| "isFinite NaN = False"

definition inf_signed :: "real \<Rightarrow> jsnum" where
  "inf_signed r = (if 0 < r then PInf else if r < 0 then NInf else NaN)"

fun js_neg :: "jsnum \<Rightarrow> jsnum" where
  "js_neg (Fin a) = Fin (- a)"
| "js_neg PInf = NInf"
| "js_neg NInf = PInf"
| "js_neg NaN = NaN"

fun js_add :: "jsnum \<Rightarrow> jsnum \<Rightarrow> jsnum" where
  "js_add NaN b = NaN"
| "js_add a NaN = NaN"
| "js_add PInf NInf = NaN"
| "js_add NInf PInf = NaN"
| "js_add PInf b = PInf"
| "js_add a PInf = PInf"
| "js_add NInf b = NInf"
| "js_add a NInf = NInf"
| "js_add (Fin a) (Fin b) = fl (a + b)"

fun js_mul :: "jsnum \<Rightarrow> jsnum \<Rightarrow> jsnum" where
  "js_mul NaN b = NaN"
| "js_mul a NaN = NaN"
| "js_mul PInf PInf = PInf"
| "js_mul PInf NInf = NInf"
| "js_mul NInf PInf = NInf"
| "js_mul NInf NInf = PInf"
| "js_mul PInf (Fin b) = inf_signed b"
| "js_mul NInf (Fin b) = inf_signed (- b)"
| "js_mul (Fin a) PInf = inf_signed a"
| "js_mul (Fin a) NInf = inf_signed (- a)"
| "js_mul (Fin a) (Fin b) = fl (a * b)"

fun js_div :: "jsnum \<Rightarrow> jsnum \<Rightarrow> jsnum" where
  "js_div NaN b = NaN"
| "js_div a NaN = NaN"
| "js_div PInf (Fin b) = (if 0 \<le> b then PInf else NInf)"
| "js_div NInf (Fin b) = (if 0 \<le> b then NInf else PInf)"
| "js_div (Fin a) (Fin b) = (if b = 0 then inf_signed a else fl (a / b))"
| "js_div (Fin a) b = Fin 0"
| "js_div a b = NaN"

fun js_less :: "jsnum \<Rightarrow> jsnum \<Rightarrow> bool" where
  "js_less (Fin a) (Fin b) = (a < b)"
| "js_less (Fin a) PInf = True"
| "js_less NInf (Fin b) = True"
| "js_less NInf PInf = True"
| "js_less a b = False"

fun js_less_eq :: "jsnum \<Rightarrow> jsnum \<Rightarrow> bool" where
  "js_less_eq (Fin a) (Fin b) = (a \<le> b)"
| "js_less_eq (Fin a) PInf = True"
| "js_less_eq NInf (Fin b) = True"
| "js_less_eq NInf PInf = True"
| "js_less_eq PInf PInf = True"
| "js_less_eq NInf NInf = True"
| "js_less_eq a b = False"

instantiation jsnum :: "{plus, minus, uminus, times, inverse, ord}"
begin

definition plus_jsnum :: "jsnum \<Rightarrow> jsnum \<Rightarrow> jsnum" where
  "plus_jsnum a b = js_add a b"

definition uminus_jsnum :: "jsnum \<Rightarrow> jsnum" where
  "uminus_jsnum a = js_neg a"

definition minus_jsnum :: "jsnum \<Rightarrow> jsnum \<Rightarrow> jsnum" where
  "minus_jsnum a b = js_add a (js_neg b)"

definition times_jsnum :: "jsnum \<Rightarrow> jsnum \<Rightarrow> jsnum" where
  "times_jsnum a b = js_mul a b"

definition divide_jsnum :: "jsnum \<Rightarrow> jsnum \<Rightarrow> jsnum" where
  "divide_jsnum a b = js_div a b"

definition inverse_jsnum :: "jsnum \<Rightarrow> jsnum" where
  "inverse_jsnum a = js_div (Fin 1) a"

definition less_jsnum :: "jsnum \<Rightarrow> jsnum \<Rightarrow> bool" where
  "less_jsnum a b = js_less a b"

definition less_eq_jsnum :: "jsnum \<Rightarrow> jsnum \<Rightarrow> bool" where
  "less_eq_jsnum a b = js_less_eq a b"

instance ..

end

text \<open>\<open>Math.max\<close> and \<open>Math.min\<close> of two numbers: \<open>NaN\<close> when either is.\<close>

fun Math_max :: "jsnum \<Rightarrow> jsnum \<Rightarrow> jsnum" where
  "Math_max NaN b = NaN"
| "Math_max a NaN = NaN"
| "Math_max a b = (if a < b then b else a)"

fun Math_min :: "jsnum \<Rightarrow> jsnum \<Rightarrow> jsnum" where
  "Math_min NaN b = NaN"
| "Math_min a NaN = NaN"
| "Math_min a b = (if b < a then b else a)"

text \<open>\<open>Math.hypot\<close>: an infinite argument wins over \<open>NaN\<close>; no intermediate overflow.\<close>

fun Math_hypot :: "jsnum \<Rightarrow> jsnum \<Rightarrow> jsnum" where
  "Math_hypot (Fin a) (Fin b) = fl (sqrt (a * a + b * b))"
| "Math_hypot PInf b = PInf"
| "Math_hypot NInf b = PInf"
| "Math_hypot a PInf = PInf"
| "Math_hypot a NInf = PInf"
| "Math_hypot a b = NaN"

fun Math_sqrt :: "jsnum \<Rightarrow> jsnum" where
  "Math_sqrt (Fin a) = (if a < 0 then NaN else fl (sqrt a))"
| "Math_sqrt PInf = PInf"
| "Math_sqrt a = NaN"

fun Math_exp :: "jsnum \<Rightarrow> jsnum" where
  "Math_exp (Fin a) = fl (exp a)"
| "Math_exp PInf = PInf"
| "Math_exp NInf = Fin 0"
| "Math_exp NaN = NaN"

text \<open>\<open>Math.pow(base, e)\<close> for a finite, positive, non-integer exponent \<open>e\<close> (the
  filter only raises to 1.5).\<close>

fun Math_pow :: "jsnum \<Rightarrow> real \<Rightarrow> jsnum" where
  "Math_pow (Fin a) e = (if a < 0 then NaN else fl (a powr e))"
| "Math_pow PInf e = PInf"
| "Math_pow NInf e = PInf"
| "Math_pow NaN e = NaN"

definition clamp :: "jsnum \<Rightarrow> jsnum \<Rightarrow> jsnum \<Rightarrow> jsnum" where
  "clamp v lo hi = Math_min hi (Math_max lo v)"

definition of_ms :: "int \<Rightarrow> jsnum" where
  "of_ms n = Fin (real_of_int n)"

section \<open>Gaze filter\<close>

definition GAZE_HISTORY_MS :: int where "GAZE_HISTORY_MS = 2000"
definition MAX_HISTORY_POINTS :: nat where "MAX_HISTORY_POINTS = 200"
definition FIXATION_WINDOW_MS :: int where "FIXATION_WINDOW_MS = 800"
definition FIXATION_MIN_DURATION_MS :: int where "FIXATION_MIN_DURATION_MS = 250"
definition FIXATION_MAX_RADIUS_PX :: jsnum where "FIXATION_MAX_RADIUS_PX = Fin 45"
definition MIN_FIXATION_SAMPLES :: nat where "MIN_FIXATION_SAMPLES = 8"
definition SMOOTH_MIN_ALPHA :: jsnum where "SMOOTH_MIN_ALPHA = fl (8 / 100)"
definition SMOOTH_MAX_ALPHA :: jsnum where "SMOOTH_MAX_ALPHA = fl (6 / 10)"
definition MAX_VELOCITY_PX_PER_S :: jsnum where "MAX_VELOCITY_PX_PER_S = Fin 1500"
definition OUTLIER_THRESHOLD_PX :: jsnum where "OUTLIER_THRESHOLD_PX = Fin 120"

text \<open>A history entry and the smoothed-point record: \<open>{x, y, time}\<close>, with the fields
  named \<open>sx\<close>, \<open>sy\<close>, \<open>stime\<close>.\<close>

record sample =
  sx :: jsnum
  sy :: jsnum
  stime :: int

text \<open>The two refs of the hook the filter reads and writes.\<close>

record filter_state =
  gazeHistory :: "sample list"
  smoothedPoint :: "sample option"

definition resetSmoothingState :: "filter_state \<Rightarrow> filter_state" where
  "resetSmoothingState st = st\<lparr>gazeHistory := [], smoothedPoint := None\<rparr>"

definition xy :: "sample \<Rightarrow> jsnum \<times> jsnum" where
  "xy p = (sx p, sy p)"

text \<open>\<open>Math.hypot(rawX - p.x, rawY - p.y)\<close>: the distance of the raw point from a
  recorded point.\<close>

definition distanceFrom :: "jsnum \<Rightarrow> jsnum \<Rightarrow> sample \<Rightarrow> jsnum" where
  "distanceFrom rawX rawY p = Math_hypot (rawX - sx p) (rawY - sy p)"

text \<open>The outlier test against the last history entry.\<close>

definition isOutlier :: "jsnum \<Rightarrow> jsnum \<Rightarrow> sample list \<Rightarrow> bool" where
  "isOutlier rawX rawY history =
     (history \<noteq> [] \<and>
      (let lastPoint = last history;
           distance = distanceFrom rawX rawY lastPoint
       in OUTLIER_THRESHOLD_PX < distance))"

text \<open>\<open>while (history.length > MAX_HISTORY_POINTS) history.shift()\<close>\<close>

function evictOverflow :: "sample list \<Rightarrow> sample list" where
  "evictOverflow history =
     (if MAX_HISTORY_POINTS < length history then evictOverflow (tl history) else history)"
  by pat_completeness auto
termination
  by (relation "measure length") (auto simp: MAX_HISTORY_POINTS_def)

declare evictOverflow.simps [simp del]

text \<open>\<open>while (history.length && timestamp - history[0].time > GAZE_HISTORY_MS) history.shift()\<close>\<close>

fun evictOld :: "int \<Rightarrow> sample list \<Rightarrow> sample list" where
  "evictOld timestamp [] = []"
| "evictOld timestamp (s # history) =
     (if GAZE_HISTORY_MS < timestamp - stime s then evictOld timestamp history
      else s # history)"

text \<open>The backwards loop that collects the fixation window, run on the reversed history;
  the result is newest first, as \<open>windowPoints\<close> is before \<open>reverse()\<close>.\<close>

fun collectWindow :: "int \<Rightarrow> sample list \<Rightarrow> sample list" where
  "collectWindow timestamp [] = []"
| "collectWindow timestamp (s # older) =
     (if FIXATION_WINDOW_MS < timestamp - stime s then []
      else s # collectWindow timestamp older)"

definition windowPointsOf :: "int \<Rightarrow> sample list \<Rightarrow> sample list" where
  "windowPointsOf timestamp history = rev (collectWindow timestamp (rev history))"

text \<open>One round of the centroid loop: \<open>(weightSum, weightedX, weightedY)\<close>.\<close>

definition addWeighted :: "int \<Rightarrow> jsnum \<times> jsnum \<times> jsnum \<Rightarrow> sample \<Rightarrow> jsnum \<times> jsnum \<times> jsnum" where
  "addWeighted timestamp acc s =
     (case acc of (weightSum, weightedX, weightedY) \<Rightarrow>
        let age = max 0 (timestamp - stime s);
            weight = Math_exp (of_ms (- age) / Fin 80)
        in (weightSum + weight, weightedX + sx s * weight, weightedY + sy s * weight))"

definition addDispersion :: "jsnum \<Rightarrow> jsnum \<Rightarrow> jsnum \<Rightarrow> sample \<Rightarrow> jsnum" where
  "addDispersion centroidX centroidY acc s =
     (let dx = sx s - centroidX;
          dy = sy s - centroidY
      in acc + (dx * dx + dy * dy))"

text \<open>The age-weighted centroid of the window, when the weights sum to something positive.\<close>

definition centroidOf :: "int \<Rightarrow> sample list \<Rightarrow> (jsnum \<times> jsnum) option" where
  "centroidOf timestamp windowPoints =
     (case foldl (addWeighted timestamp) (Fin 0, Fin 0, Fin 0) windowPoints of
        (weightSum, weightedX, weightedY) \<Rightarrow>
          if Fin 0 < weightSum then Some (weightedX / weightSum, weightedY / weightSum)
          else None)"

definition rmsDispersionOf :: "jsnum \<times> jsnum \<Rightarrow> sample list \<Rightarrow> jsnum" where
  "rmsDispersionOf c windowPoints =
     Math_sqrt (foldl (addDispersion (fst c) (snd c)) (Fin 0) windowPoints
                / Fin (real (length windowPoints)))"

text \<open>The centroid of a declared fixation: enough samples, enough duration, a positive
  weight sum and a dispersion within the radius.\<close>

definition fixationCentroid :: "int \<Rightarrow> sample list \<Rightarrow> (jsnum \<times> jsnum) option" where
  "fixationCentroid timestamp windowPoints =
     (if MIN_FIXATION_SAMPLES \<le> length windowPoints then
        let fixationDuration = stime (last windowPoints) - stime (hd windowPoints)
        in if FIXATION_MIN_DURATION_MS \<le> fixationDuration then
             (case centroidOf timestamp windowPoints of
                Some c \<Rightarrow>
                  if rmsDispersionOf c windowPoints \<le> FIXATION_MAX_RADIUS_PX then Some c
                  else None
              | None \<Rightarrow> None)
           else None
      else None)"

definition stabilityFactor :: jsnum where
  "stabilityFactor = fl (15 / 100)"

text \<open>The point a fixation emits: the centroid, blended with the smoothed point when
  there is one.\<close>

definition filteredFixationPoint :: "jsnum \<times> jsnum \<Rightarrow> sample option \<Rightarrow> jsnum \<times> jsnum" where
  "filteredFixationPoint c smoothed =
     (case smoothed of
        None \<Rightarrow> c
      | Some p \<Rightarrow>
          (sx p + stabilityFactor * (fst c - sx p),
           sy p + stabilityFactor * (snd c - sy p)))"

text \<open>One round of the moving-average loop over \<open>recentPoints\<close>, at index \<open>i\<close>:
  \<open>(avgX, avgY, count)\<close>.\<close>

definition addRecent :: "sample list \<Rightarrow> jsnum \<times> jsnum \<times> jsnum \<Rightarrow> nat \<Rightarrow> jsnum \<times> jsnum \<times> jsnum" where
  "addRecent recentPoints acc i =
     (case acc of (avgX, avgY, count) \<Rightarrow>
        let pt = recentPoints ! i;
            weight = Fin (5 / 10) / Fin (real (length recentPoints - i))
        in (avgX + sx pt * weight, avgY + sy pt * weight, count + weight))"

text \<open>The moving-average pass for fast movements. The loop runs \<open>i\<close> from
  \<open>length - 2\<close> down to \<open>max 0 (length - 4)\<close>; it is entered with at least three
  recent points, so every index is in range.\<close>

definition movingAverage :: "sample list \<Rightarrow> jsnum \<times> jsnum \<Rightarrow> jsnum \<times> jsnum" where
  "movingAverage history safe =
     (let recentPoints = drop (length history - 5) history
      in if 3 \<le> length recentPoints then
           (case foldl (addRecent recentPoints) (fst safe, snd safe, Fin 1)
                   (rev [length recentPoints - 4 ..< length recentPoints - 1]) of
              (avgX, avgY, count) \<Rightarrow>
                if Fin 0 < count then (avgX / count, avgY / count) else safe)
         else safe)"

text \<open>The velocity in pixels per second since the last smoothed point, with the 16 ms
  floor on the elapsed time.\<close>

definition velocityFrom :: "jsnum \<Rightarrow> jsnum \<Rightarrow> int \<Rightarrow> sample \<Rightarrow> jsnum" where
  "velocityFrom rawX rawY timestamp lastFiltered =
     (let dt = max 16 (timestamp - stime lastFiltered);
          distance = distanceFrom rawX rawY lastFiltered
      in (distance / of_ms dt) * Fin 1000)"

text \<open>The extreme-saccade test.\<close>

definition isExtremeSaccade :: "jsnum \<Rightarrow> jsnum \<Rightarrow> int \<Rightarrow> sample \<Rightarrow> bool" where
  "isExtremeSaccade rawX rawY timestamp lastFiltered =
     (FIXATION_MAX_RADIUS_PX * Fin 6 < distanceFrom rawX rawY lastFiltered
      \<and> MAX_VELOCITY_PX_PER_S * fl (8 / 10) < velocityFrom rawX rawY timestamp lastFiltered)"

text \<open>The adaptive smoothing step, taken with a previous smoothed point and no fixation.\<close>

definition smoothStep :: "jsnum \<Rightarrow> jsnum \<Rightarrow> int \<Rightarrow> sample list \<Rightarrow> sample \<Rightarrow> jsnum \<times> jsnum" where
  "smoothStep rawX rawY timestamp history lastFiltered =
     (let deltaX = rawX - sx lastFiltered;
          deltaY = rawY - sy lastFiltered;
          distance = distanceFrom rawX rawY lastFiltered;
          velocity = velocityFrom rawX rawY timestamp lastFiltered
      in if isExtremeSaccade rawX rawY timestamp lastFiltered
         then (rawX, rawY)
         else
           let normalizedVelocity =
                 Math_pow (clamp velocity (Fin 0) MAX_VELOCITY_PX_PER_S / MAX_VELOCITY_PX_PER_S)
                   (15 / 10);
               distanceFactor = clamp (distance / Fin 100) (Fin 0) (Fin 1);
               alpha = clamp
                 (SMOOTH_MIN_ALPHA + (SMOOTH_MAX_ALPHA - SMOOTH_MIN_ALPHA)
                    * (fl (3 / 10) * normalizedVelocity + fl (7 / 10) * distanceFactor))
                 SMOOTH_MIN_ALPHA SMOOTH_MAX_ALPHA;
               filteredX = sx lastFiltered + alpha * deltaX;
               filteredY = sy lastFiltered + alpha * deltaY;
               safeX = (if isFinite filteredX then filteredX else rawX);
               safeY = (if isFinite filteredY then filteredY else rawY)
           in if MAX_VELOCITY_PX_PER_S * fl (3 / 10) < velocity
              then movingAverage history (safeX, safeY)
              else (safeX, safeY))"

text \<open>The history after an accepted sample: pushed, then evicted by count and by age.\<close>

definition acceptedHistory :: "jsnum \<Rightarrow> jsnum \<Rightarrow> int \<Rightarrow> sample list \<Rightarrow> sample list" where
  "acceptedHistory rawX rawY timestamp history =
     evictOld timestamp (evictOverflow
       (history @ [\<lparr>sx = rawX, sy = rawY, stime = timestamp\<rparr>]))"

text \<open>The staleness test on the smoothed point.\<close>

definition isStale :: "int \<Rightarrow> sample option \<Rightarrow> bool" where
  "isStale timestamp lastFiltered =
     (case lastFiltered of
        None \<Rightarrow> False
      | Some p \<Rightarrow> GAZE_HISTORY_MS < timestamp - stime p)"

text \<open>\<open>computeFilteredGazePoint\<close>: the returned \<open>{x, y}\<close> and the refs after the call.\<close>

definition computeFilteredGazePoint ::
  "jsnum \<Rightarrow> jsnum \<Rightarrow> int \<Rightarrow> filter_state \<Rightarrow> (jsnum \<times> jsnum) \<times> filter_state" where
  "computeFilteredGazePoint rawX rawY timestamp st =
     (if \<not> isFinite rawX \<or> \<not> isFinite rawY then ((rawX, rawY), st)
      else if isOutlier rawX rawY (gazeHistory st) then
        (case smoothedPoint st of
           Some p \<Rightarrow> (xy p, st)
         | None \<Rightarrow> (xy (last (gazeHistory st)), st))
      else
        let history = acceptedHistory rawX rawY timestamp (gazeHistory st);
            windowPoints = windowPointsOf timestamp history;
            lastFiltered = smoothedPoint st;
            emit = (\<lambda>p. (p, \<lparr>gazeHistory = history,
                     smoothedPoint = Some \<lparr>sx = fst p, sy = snd p, stime = timestamp\<rparr>\<rparr>))
        in if isStale timestamp lastFiltered then emit (rawX, rawY)
           else
             (case fixationCentroid timestamp windowPoints of
                Some c \<Rightarrow> emit (filteredFixationPoint c lastFiltered)
              | None \<Rightarrow>
                  (case lastFiltered of
                     None \<Rightarrow> emit (rawX, rawY)
                   | Some p \<Rightarrow> emit (smoothStep rawX rawY timestamp history p))))"

section \<open>The tracker callback\<close>

datatype TrackingStatus = Inactive | Active | Calibrating | Reconnecting | Denied | Error

record GazeData =
  gd_state :: int
  docX :: jsnum
  docY :: jsnum
  gd_time :: jsnum
  GazeX :: jsnum
  GazeY :: jsnum
  HeadX :: jsnum
  HeadY :: jsnum
  HeadZ :: jsnum
  HeadYaw :: jsnum
  HeadPitch :: jsnum
  HeadRoll :: jsnum

text \<open>The state and refs of the hook that the callback touches.\<close>

record tracker =
  isManuallyStopped :: bool
  lastResult :: "int option"
  status :: TrackingStatus
  gazeData :: "GazeData option"
  smoothing :: filter_state

text \<open>\<open>handleGazeData\<close>. The prediction is \<open>None\<close> when the tracker passes
  \<open>null\<close>; \<open>timestamp\<close> and \<open>now\<close> are the two readings of \<open>Date.now()\<close>.\<close>

definition handleGazeData ::
  "(jsnum \<times> jsnum) option \<Rightarrow> jsnum \<Rightarrow> int \<Rightarrow> int \<Rightarrow> tracker \<Rightarrow> tracker" where
  "handleGazeData prediction elapsedTime timestamp now tr =
     (case prediction of
        None \<Rightarrow> tr
      | Some (predX, predY) \<Rightarrow>
          if isManuallyStopped tr then tr
          else if \<not> isFinite predX \<or> \<not> isFinite predY then tr
          else
            (case computeFilteredGazePoint predX predY timestamp (smoothing tr) of
               (filteredPoint, smoothing') \<Rightarrow>
                 tr\<lparr>smoothing := smoothing',
                    gazeData := Some \<lparr>gd_state = 0,
                      docX = fst filteredPoint, docY = snd filteredPoint,
                      gd_time = of_ms timestamp - elapsedTime,
                      GazeX = fst filteredPoint, GazeY = snd filteredPoint,
                      HeadX = Fin 0, HeadY = Fin 0, HeadZ = Fin 0,
                      HeadYaw = Fin 0, HeadPitch = Fin 0, HeadRoll = Fin 0\<rparr>,
                    lastResult := Some now,
                    status := (if status tr = Denied \<or> status tr = Error \<or> status tr = Inactive
                               then status tr else Active)\<rparr>))"

section \<open>The phonetic wheel\<close>

definition CENTER_INDEX :: nat where "CENTER_INDEX = 8"
definition SOUTH_INDEX :: nat where "SOUTH_INDEX = 4"
definition LETTER_ZONE_ORDER :: "nat list" where "LETTER_ZONE_ORDER = [7, 0, 1, 2, 3, 5, 6]"
definition DWELL_TIME :: int where "DWELL_TIME = 1500"
definition COOLDOWN_TIME :: int where "COOLDOWN_TIME = 1000"
definition SNAP_DISTANCE_RATIO :: jsnum where "SNAP_DISTANCE_RATIO = fl (11 / 10)"
definition EXIT_DISTANCE_RATIO :: jsnum where "EXIT_DISTANCE_RATIO = fl (135 / 100)"

text \<open>The nine zones, by index: North, Northeast, East, Southeast, South, Southwest,
  West, Northwest, Center.\<close>

definition ZONE_INDICES :: "nat list" where
  "ZONE_INDICES = [0, 1, 2, 3, 4, 5, 6, 7, 8]"

datatype SelectionLevel = Group | Letter

datatype languages = English | Spanish

text \<open>A letter group and an alphabet. Labels, hints and the names of the special
  actions are display text and are left out.\<close>

record ILetterZone =
  letters :: "string list"

record IAlphabet =
  zones :: "ILetterZone list"

text \<open>The letter tables. The Spanish N with tilde is written as its two UTF-8 bytes.\<close>

fun ALPHABETS :: "languages \<Rightarrow> IAlphabet" where
  "ALPHABETS English = \<lparr>zones = [
     \<lparr>letters = [''A'', ''B'', ''C'', ''D'', ''9'']\<rparr>,
     \<lparr>letters = [''E'', ''F'', ''G'', ''H'', ''8'']\<rparr>,
     \<lparr>letters = [''I'', ''J'', ''K'', ''L'', ''7'']\<rparr>,
     \<lparr>letters = [''M'', ''N'', ''O'', ''P'', ''6'']\<rparr>,
     \<lparr>letters = []\<rparr>,
     \<lparr>letters = [''Q'', ''R'', ''S'', ''T'', ''5'', ''4'']\<rparr>,
     \<lparr>letters = [''U'', ''V'', ''W'', ''0'', ''1'', ''2'', ''3'']\<rparr>,
     \<lparr>letters = [''X'', ''Y'', ''Z'', ''.'', ''?'', ''!'']\<rparr>]\<rparr>"
| "ALPHABETS Spanish = \<lparr>zones = [
     \<lparr>letters = [''A'', ''B'', ''C'', ''CH'', ''9'']\<rparr>,
     \<lparr>letters = [''D'', ''E'', ''F'', ''G'', ''8'', ''3'']\<rparr>,
     \<lparr>letters = [''H'', ''I'', ''J'', ''K'', ''7'']\<rparr>,
     \<lparr>letters = [''L'', ''LL'', ''M'', ''N'', [CHR 0xC3, CHR 0x91], ''6'']\<rparr>,
     \<lparr>letters = []\<rparr>,
     \<lparr>letters = [''O'', ''P'', ''Q'', ''R'', ''RR'', ''5'', ''4'']\<rparr>,
     \<lparr>letters = [''S'', ''T'', ''U'', ''V'', ''0'', ''1'', ''2'']\<rparr>,
     \<lparr>letters = [''W'', ''X'', ''Y'', ''Z'', ''.'', ''?'', ''!'']\<rparr>]\<rparr>"

declare ALPHABETS.simps [simp del]

text \<open>The component state (\<open>useState\<close>), with zone indices as naturals and
  \<open>null\<close> as \<open>None\<close>. Every callback below runs to completion at one clock
  reading: each \<open>Date.now()\<close> it calls gives the same \<open>now\<close>.\<close>

record wheel =
  selectionLevel :: SelectionLevel
  hoveredZone :: "nat option"
  selectedZone :: "nat option"
  dwellStartTime :: "int option"
  dwellProgress :: jsnum
  relativeGaze :: "(jsnum \<times> jsnum) option"
  cooldownUntil :: int

definition initialWheel :: wheel where
  "initialWheel = \<lparr>selectionLevel = Group, hoveredZone = None, selectedZone = None,
     dwellStartTime = None, dwellProgress = Fin 0, relativeGaze = None, cooldownUntil = 0\<rparr>"

text \<open>\<open>activeLetters\<close>: the letters of the selected group, or none.\<close>

definition activeLetters :: "IAlphabet \<Rightarrow> wheel \<Rightarrow> string list" where
  "activeLetters alphabet st =
     (case selectedZone st of
        None \<Rightarrow> []
      | Some z \<Rightarrow> if z < length (zones alphabet) then letters (zones alphabet ! z) else [])"

text \<open>\<open>letterAssignments\<close>: the first letters of the group, set one by one on the
  zones of \<open>LETTER_ZONE_ORDER\<close>.\<close>

definition assignLetters :: "string list \<Rightarrow> (nat \<rightharpoonup> string)" where
  "assignLetters active =
     (let sliced = take (length LETTER_ZONE_ORDER) active
      in foldl (\<lambda>mapping (index, letter). mapping(LETTER_ZONE_ORDER ! index \<mapsto> letter))
           Map.empty (zip [0 ..< length sliced] sliced))"

definition letterAssignments :: "IAlphabet \<Rightarrow> wheel \<Rightarrow> (nat \<rightharpoonup> string)" where
  "letterAssignments alphabet st = assignLetters (activeLetters alphabet st)"

definition resetSelection :: "wheel \<Rightarrow> wheel" where
  "resetSelection st = st\<lparr>selectionLevel := Group, selectedZone := None\<rparr>"

definition isZoneInteractive :: "IAlphabet \<Rightarrow> wheel \<Rightarrow> nat \<Rightarrow> bool" where
  "isZoneInteractive alphabet st index =
     (if index = CENTER_INDEX \<or> index = SOUTH_INDEX then True
      else if selectionLevel st = Group then
        index < length (zones alphabet) \<and> 0 < length (letters (zones alphabet ! index))
      else letterAssignments alphabet st index \<noteq> None)"

text \<open>The callbacks of the parent that an activation fires.\<close>

datatype callback = OnSubmit | OnSelection string

text \<open>What an activation did: nothing, or it fired the given callbacks and ran
  \<open>commit()\<close>.\<close>

datatype activation = NoAction | Committed "callback list"

definition commit :: "int \<Rightarrow> wheel \<Rightarrow> wheel" where
  "commit now st = st\<lparr>cooldownUntil := now + COOLDOWN_TIME, hoveredZone := None,
     dwellStartTime := None, dwellProgress := Fin 0, relativeGaze := None\<rparr>"

text \<open>\<open>handleZoneActivation\<close>; \<open>now\<close> is the reading of \<open>Date.now()\<close> in
  \<open>commit\<close>.\<close>

definition handleZoneActivation ::
  "IAlphabet \<Rightarrow> nat option \<Rightarrow> int \<Rightarrow> wheel \<Rightarrow> activation \<times> wheel" where
  "handleZoneActivation alphabet zoneIndex now st =
     (case zoneIndex of
        None \<Rightarrow> (NoAction, st)
      | Some z \<Rightarrow>
          if selectionLevel st = Group then
            if z = CENTER_INDEX then (Committed [OnSubmit], commit now (resetSelection st))
            else if z = SOUTH_INDEX then (Committed [OnSelection ''DELETE''], commit now st)
            else if z < length (zones alphabet) \<and> 0 < length (letters (zones alphabet ! z))
              then (Committed [],
                    commit now (st\<lparr>selectedZone := Some z, selectionLevel := Letter\<rparr>))
            else (NoAction, st)
          else if z = CENTER_INDEX then
            (Committed [OnSelection '' ''], commit now (resetSelection st))
          else if z = SOUTH_INDEX then (Committed [], commit now (resetSelection st))
          else
            (case letterAssignments alphabet st z of
               Some letter \<Rightarrow>
                 if letter \<noteq> [] then
                   (Committed [OnSelection letter], commit now (resetSelection st))
                 else (NoAction, st)
             | None \<Rightarrow> (NoAction, st)))"

text \<open>A bounding rectangle, as \<open>getBoundingClientRect\<close> gives it.\<close>

record DOMRect =
  rLeft :: jsnum
  rTop :: jsnum
  rRight :: jsnum
  rBottom :: jsnum
  rWidth :: jsnum
  rHeight :: jsnum

text \<open>One round of the loop over the interactive zones:
  \<open>(candidateZone, candidateDistance, candidateIsInside)\<close>.\<close>

definition considerZone ::
  "(nat \<Rightarrow> DOMRect option) \<Rightarrow> jsnum \<Rightarrow> jsnum \<Rightarrow> nat option \<times> jsnum \<times> bool \<Rightarrow> nat
   \<Rightarrow> nat option \<times> jsnum \<times> bool" where
  "considerZone zoneRefs gazeX gazeY acc index =
     (case acc of (candidateZone, candidateDistance, candidateIsInside) \<Rightarrow>
        (case zoneRefs index of
           None \<Rightarrow> acc
         | Some zoneRect \<Rightarrow>
             let inside = (rLeft zoneRect \<le> gazeX \<and> gazeX \<le> rRight zoneRect
                           \<and> rTop zoneRect \<le> gazeY \<and> gazeY \<le> rBottom zoneRect);
                 centerX = rLeft zoneRect + rWidth zoneRect / Fin 2;
                 centerY = rTop zoneRect + rHeight zoneRect / Fin 2;
                 distance = Math_hypot (gazeX - centerX) (gazeY - centerY);
                 radius = Math_min (rWidth zoneRect) (rHeight zoneRect) / Fin 2;
                 normalizedDistance = (if Fin 0 < radius then distance / radius else PInf)
             in if inside then
                  if \<not> candidateIsInside \<or> normalizedDistance < candidateDistance
                  then (Some index, normalizedDistance, True)
                  else acc
                else if candidateIsInside then acc
                else if normalizedDistance < candidateDistance
                  then (Some index, normalizedDistance, candidateIsInside)
                else acc))"

definition clearHover :: "wheel \<Rightarrow> wheel" where
  "clearHover st = st\<lparr>hoveredZone := None, relativeGaze := None, dwellStartTime := None,
     dwellProgress := Fin 0\<rparr>"

text \<open>The gaze effect, run when the gaze or the state it depends on changes.
  \<open>container\<close> is \<open>containerRef.current\<close>'s rectangle, \<open>zoneRefs\<close> the rectangles
  of the mounted zones, \<open>now\<close> the reading of \<open>Date.now()\<close>.\<close>

definition gazeEffect ::
  "IAlphabet \<Rightarrow> bool \<Rightarrow> DOMRect option \<Rightarrow> (nat \<Rightarrow> DOMRect option) \<Rightarrow> jsnum \<Rightarrow> jsnum \<Rightarrow> int
   \<Rightarrow> wheel \<Rightarrow> wheel" where
  "gazeEffect alphabet isTracking container zoneRefs gazeX gazeY now st =
     (case (if isTracking then container else None) of
        None \<Rightarrow> clearHover st
      | Some containerRect \<Rightarrow>
          if now < cooldownUntil st then clearHover st
          else
            let relX = gazeX - rLeft containerRect;
                relY = gazeY - rTop containerRect
            in if relX < Fin 0 \<or> relY < Fin 0 \<or> rWidth containerRect < relX
                  \<or> rHeight containerRect < relY
               then clearHover st
               else
                 let st1 = st\<lparr>relativeGaze := Some (relX, relY)\<rparr>;
                     interactiveIndices = filter (isZoneInteractive alphabet st) ZONE_INDICES
                 in (case foldl (considerZone zoneRefs gazeX gazeY) (None, PInf, False)
                            interactiveIndices of
                       (candidateZone, candidateDistance, candidateIsInside) \<Rightarrow>
                         let tolerance = (if candidateZone = hoveredZone st
                                          then EXIT_DISTANCE_RATIO else SNAP_DISTANCE_RATIO);
                             candidateZone' =
                               (if candidateZone \<noteq> None \<and> \<not> candidateIsInside
                                   \<and> tolerance < candidateDistance
                                then None else candidateZone)
                         in (case candidateZone' of
                               Some c \<Rightarrow>
                                 if candidateZone' \<noteq> hoveredZone st then
                                   st1\<lparr>hoveredZone := Some c, dwellStartTime := Some now,
                                       dwellProgress := Fin 0\<rparr>
                                 else if dwellStartTime st = None then
                                   st1\<lparr>dwellStartTime := Some now\<rparr>
                                 else st1
                             | None \<Rightarrow>
                                 st1\<lparr>hoveredZone := None, dwellStartTime := None,
                                     dwellProgress := Fin 0\<rparr>)))"

text \<open>One animation frame of the dwell effect: the activation, whether the frame asked
  for another one, and the state. Without a hovered zone or a dwell start the effect
  schedules no frame.\<close>

definition dwellTick :: "IAlphabet \<Rightarrow> int \<Rightarrow> wheel \<Rightarrow> (activation \<times> bool) \<times> wheel" where
  "dwellTick alphabet now st =
     (case (hoveredZone st, dwellStartTime st) of
        (Some z, Some start) \<Rightarrow>
          if now < cooldownUntil st then ((NoAction, False), st\<lparr>dwellProgress := Fin 0\<rparr>)
          else
            let elapsed = now - start
            in if DWELL_TIME \<le> elapsed then
                 (case handleZoneActivation alphabet (Some z) now st of
                    (act, st') \<Rightarrow> ((act, False), st'))
               else ((NoAction, True),
                     st\<lparr>dwellProgress := Math_min (Fin 1) (of_ms elapsed / of_ms DWELL_TIME)\<rparr>)
      | _ \<Rightarrow> ((NoAction, False), st\<lparr>dwellProgress := Fin 0\<rparr>))"

text \<open>The chain of animation frames of one run of the dwell effect, at the given clock
  readings: it ends with the first frame that asks for no other.\<close>

fun dwellFrames :: "IAlphabet \<Rightarrow> int list \<Rightarrow> wheel \<Rightarrow> activation list \<times> wheel" where
  "dwellFrames alphabet [] st = ([], st)"
| "dwellFrames alphabet (now # later) st =
     (case dwellTick alphabet now st of
        ((act, again), st') \<Rightarrow>
          if again then
            (case dwellFrames alphabet later st' of (acts, st'') \<Rightarrow> (act # acts, st''))
          else ([act], st'))"

text \<open>What drives the wheel: a gaze update, an animation frame, or a click (or key press)
  on a zone.\<close>

datatype wheelInput =
  GazeUpdate bool "DOMRect option" "nat \<Rightarrow> DOMRect option" jsnum jsnum int
| Frame int
| Click nat int

definition inputTime :: "wheelInput \<Rightarrow> int" where
  "inputTime i =
     (case i of GazeUpdate tracking container refs gx gy now \<Rightarrow> now
      | Frame now \<Rightarrow> now
      | Click index now \<Rightarrow> now)"

definition wheelStep :: "IAlphabet \<Rightarrow> wheelInput \<Rightarrow> wheel \<Rightarrow> activation \<times> wheel" where
  "wheelStep alphabet i st =
     (case i of
        GazeUpdate isTracking container zoneRefs gazeX gazeY now \<Rightarrow>
          (NoAction, gazeEffect alphabet isTracking container zoneRefs gazeX gazeY now st)
      | Frame now \<Rightarrow>
          (case dwellTick alphabet now st of ((act, again), st') \<Rightarrow> (act, st'))
      | Click index now \<Rightarrow>
          if isZoneInteractive alphabet st index
          then handleZoneActivation alphabet (Some index) now st
          else (NoAction, st))"

fun wheelRun :: "IAlphabet \<Rightarrow> wheelInput list \<Rightarrow> wheel \<Rightarrow> activation list \<times> wheel" where
  "wheelRun alphabet [] st = ([], st)"
| "wheelRun alphabet (i # rest) st =
     (case wheelStep alphabet i st of
        (act, st') \<Rightarrow>
          (case wheelRun alphabet rest st' of (acts, st'') \<Rightarrow> (act # acts, st'')))"

definition isDwellInput :: "wheelInput \<Rightarrow> bool" where
  "isDwellInput i = (case i of Click index now \<Rightarrow> False | _ \<Rightarrow> True)"

definition isCommitted :: "activation \<Rightarrow> bool" where
  "isCommitted act = (case act of NoAction \<Rightarrow> False | Committed cbs \<Rightarrow> True)"

text \<open>The selection events a sequence of activations emitted: the calls of
  \<open>onSubmit\<close> and \<open>onSelection\<close>, in order.\<close>

definition callbacksOf :: "activation \<Rightarrow> callback list" where
  "callbacksOf act = (case act of NoAction \<Rightarrow> [] | Committed cbs \<Rightarrow> cbs)"

definition firedCallbacks :: "activation list \<Rightarrow> callback list" where
  "firedCallbacks acts = concat (map callbacksOf acts)"

text \<open>What holds at the letter level: a group is remembered and it has letters.\<close>

definition levelInv :: "IAlphabet \<Rightarrow> wheel \<Rightarrow> bool" where
  "levelInv alphabet st =
     (selectionLevel st = Letter \<longrightarrow>
        (case selectedZone st of
           None \<Rightarrow> False
         | Some z \<Rightarrow> z < length (zones alphabet) \<and> letters (zones alphabet ! z) \<noteq> []))"

text \<open>Example states and rectangles: the wheel hovering the center since time 0, the
  wheel hovering the North zone (the first letter group) since time 0, the wheel after
  the first English group was chosen at time 0, and a 300 px grid with the center zone
  in its middle.\<close>

definition hovering :: wheel where
  "hovering = initialWheel\<lparr>hoveredZone := Some CENTER_INDEX, dwellStartTime := Some 0\<rparr>"

definition hoveringNorth :: wheel where
  "hoveringNorth = initialWheel\<lparr>hoveredZone := Some 0, dwellStartTime := Some 0\<rparr>"

definition groupChosen :: wheel where
  "groupChosen = snd (handleZoneActivation (ALPHABETS English) (Some 0) 0 initialWheel)"

definition centerRect :: DOMRect where
  "centerRect = \<lparr>rLeft = Fin 100, rTop = Fin 100, rRight = Fin 200, rBottom = Fin 200,
     rWidth = Fin 100, rHeight = Fin 100\<rparr>"

definition gridRect :: DOMRect where
  "gridRect = \<lparr>rLeft = Fin 0, rTop = Fin 0, rRight = Fin 300, rBottom = Fin 300,
     rWidth = Fin 300, rHeight = Fin 300\<rparr>"

section \<open>Feeding a sequence of samples\<close>

text \<open>A run of the filter from the reset state over samples \<open>(x, y, timestamp)\<close>.\<close>

definition feedSample :: "filter_state \<Rightarrow> jsnum \<times> jsnum \<times> int \<Rightarrow> filter_state" where
  "feedSample st s =
     (case s of (rawX, rawY, timestamp) \<Rightarrow> snd (computeFilteredGazePoint rawX rawY timestamp st))"

definition feedSamples :: "(jsnum \<times> jsnum \<times> int) list \<Rightarrow> filter_state" where
  "feedSamples samples = foldl feedSample \<lparr>gazeHistory = [], smoothedPoint = None\<rparr> samples"

definition timestampOf :: "jsnum \<times> jsnum \<times> int \<Rightarrow> int" where
  "timestampOf s = snd (snd s)"

text \<open>What the history keeps between calls: entries in time order, none later than the
  last timestamp seen, within both bounds.\<close>

definition historyInv :: "int \<Rightarrow> sample list \<Rightarrow> bool" where
  "historyInv T h =
     (sorted (map stime h) \<and> (\<forall>e \<in> set h. stime e \<le> T) \<and> length h \<le> MAX_HISTORY_POINTS
      \<and> (h \<noteq> [] \<longrightarrow> stime (last h) - stime (hd h) \<le> GAZE_HISTORY_MS))"

text \<open>A sample at the origin, taken at time 0.\<close>

definition origin :: sample where
  "origin = \<lparr>sx = Fin 0, sy = Fin 0, stime = 0\<rparr>"

text \<open>A gaze that drifts along the x axis in steps of 120 px, taken 500, 300, 400 and
  500 ms apart, and the history after these five samples.\<close>

definition drifting :: "(jsnum \<times> jsnum \<times> int) list" where
  "drifting = [(Fin 0, Fin 0, 0), (Fin 120, Fin 0, 500), (Fin 240, Fin 0, 800),
     (Fin 360, Fin 0, 1200), (Fin 480, Fin 0, 1700)]"

definition driftingHistory :: "sample list" where
  "driftingHistory = map (\<lambda>(x, y, t). \<lparr>sx = x, sy = y, stime = t\<rparr>) drifting"

text \<open>A state in mid-fixation: seven samples at the origin, 40 ms apart, and a smoothed
  point 10 px to the right; and the window once an eighth sample at the origin arrives.\<close>

definition fixating :: filter_state where
  "fixating =
     \<lparr>gazeHistory = map (\<lambda>t. \<lparr>sx = Fin 0, sy = Fin 0, stime = t\<rparr>) [0, 40, 80, 120, 160, 200, 240],
      smoothedPoint = Some \<lparr>sx = Fin 10, sy = Fin 0, stime = 240\<rparr>\<rparr>"

definition fixatingWindow :: "sample list" where
  "fixatingWindow = map (\<lambda>t. \<lparr>sx = Fin 0, sy = Fin 0, stime = t\<rparr>) [0, 40, 80, 120, 160, 200, 240, 280]"

text \<open>A run near the top of the double range: the tracker just started, and three
  samples with the same huge \<open>x\<close>, 100 px and 16 ms apart in \<open>y\<close>.\<close>

definition hugeX :: real where
  "hugeX = 3 * 2 ^ 1022"

definition tracking :: tracker where
  "tracking = \<lparr>isManuallyStopped = False, lastResult = Some 0, status = Calibrating,
     gazeData = None, smoothing = \<lparr>gazeHistory = [], smoothedPoint = None\<rparr>\<rparr>"

definition far1 :: sample where "far1 = \<lparr>sx = Fin hugeX, sy = Fin 0, stime = 0\<rparr>"
definition far2 :: sample where "far2 = \<lparr>sx = Fin hugeX, sy = Fin 100, stime = 16\<rparr>"
definition far3 :: sample where "far3 = \<lparr>sx = Fin hugeX, sy = Fin 200, stime = 32\<rparr>"

section \<open>Rounding\<close>

lemma rhe_int [simp]: "roundHalfEven (of_int n) = n"
  by (simp add: roundHalfEven_def)

lemma rhe_cases: "roundHalfEven y = \<lfloor>y\<rfloor> \<or> (roundHalfEven y = \<lfloor>y\<rfloor> + 1 \<and> of_int \<lfloor>y\<rfloor> < y)"
  by (auto simp: roundHalfEven_def Let_def)

lemma rhe_le: "y \<le> of_int n \<Longrightarrow> roundHalfEven y \<le> n"
proof -
  assume a: "y \<le> of_int n"
  then have f: "\<lfloor>y\<rfloor> \<le> n" by linarith
  consider "roundHalfEven y = \<lfloor>y\<rfloor>" | "roundHalfEven y = \<lfloor>y\<rfloor> + 1" "of_int \<lfloor>y\<rfloor> < y"
    using rhe_cases[of y] by blast
  then show ?thesis
  proof cases
    case 1 then show ?thesis using f by simp
  next
    case 2
    then have "of_int \<lfloor>y\<rfloor> < (of_int n :: real)" using a by linarith
    then have "\<lfloor>y\<rfloor> < n" by simp
    then show ?thesis using 2 by simp
  qed
qed

lemma rhe_ge: "of_int n \<le> y \<Longrightarrow> n \<le> roundHalfEven y"
proof -
  assume a: "of_int n \<le> y"
  then have f: "n \<le> \<lfloor>y\<rfloor>" by linarith
  then show ?thesis using rhe_cases[of y] by auto
qed

lemma rhe_neg: "roundHalfEven (- y) = - roundHalfEven y"
proof (cases "y \<in> \<int>")
  case True
  then obtain n where "y = of_int n" by (auto elim: Ints_cases)
  then show ?thesis by (simp flip: of_int_minus)
next
  case False
  then have ne: "y \<noteq> of_int \<lfloor>y\<rfloor>"
    by (metis Ints_of_int)
  then have f: "\<lfloor>- y\<rfloor> = - \<lfloor>y\<rfloor> - 1"
    by (simp add: floor_minus ceiling_altdef)
  show ?thesis
    unfolding roundHalfEven_def Let_def f by auto
qed

lemma round64_0 [simp]: "round64 0 = 0"
  by (simp add: round64_def)

lemma ulpExponent_neg [simp]: "ulpExponent (- x) = ulpExponent x"
  by (simp add: ulpExponent_def)

lemma round64_neg: "round64 (- x) = - round64 x"
  by (simp add: round64_def rhe_neg)

lemma ulpExponent_ge: "- 1074 \<le> ulpExponent x"
  by (simp add: ulpExponent_def)

text \<open>The binade of a number: the exponent is the floor of the binary logarithm.\<close>

lemma binade_lower:
  assumes "x \<noteq> 0" and "- 1074 < ulpExponent x"
  shows "2 powr of_int (ulpExponent x + 52) \<le> \<bar>x\<bar>"
proof -
  have e: "ulpExponent x + 52 = \<lfloor>log 2 \<bar>x\<bar>\<rfloor>"
    using assms(2) by (simp add: ulpExponent_def max_def split: if_splits)
  have "2 powr of_int \<lfloor>log 2 \<bar>x\<bar>\<rfloor> \<le> 2 powr log 2 \<bar>x\<bar>"
    by (rule powr_mono) simp_all
  also have "\<dots> = \<bar>x\<bar>"
    using assms(1) by simp
  finally have "2 powr of_int \<lfloor>log 2 \<bar>x\<bar>\<rfloor> \<le> \<bar>x\<bar>" .
  then show ?thesis using e by simp
qed

lemma dyadic_bound:
  assumes "\<bar>m\<bar> < 2 ^ 53"
  shows "\<bar>real_of_int m * 2 powr of_int k\<bar> < 2 powr of_int (k + 53)"
proof -
  have "\<bar>real_of_int m\<bar> < 2 ^ 53"
    using assms by (metis of_int_abs of_int_less_numeral_power_cancel_iff)
  then have "\<bar>real_of_int m\<bar> * 2 powr of_int k < 2 ^ 53 * 2 powr of_int k"
    by (simp)
  also have "\<dots> = 2 powr of_int (k + 53)"
    by (simp add: powr_add)
  finally show ?thesis by (simp add: abs_mult)
qed

text \<open>A number of the format at least as coarse as the unit in the last place of \<open>x\<close>
  is a whole multiple of it.\<close>

lemma dyadic_multiple:
  assumes "e \<le> k"
  shows "real_of_int m * 2 powr of_int k / 2 powr of_int e = of_int (m * 2 ^ nat (k - e))"
proof -
  have n: "real_of_int (k - e) = real (nat (k - e))"
    using assms by simp
  have "2 powr of_int k / 2 powr of_int e = (2::real) powr of_int (k - e)"
    by (simp add: powr_diff)
  also have "\<dots> = 2 ^ nat (k - e)"
    unfolding n by (simp add: powr_realpow)
  finally have "2 powr real_of_int k / 2 powr real_of_int e = (2::real) ^ nat (k - e)" .
  then have "real_of_int m * (2 powr real_of_int k / 2 powr real_of_int e)
      = real_of_int m * 2 ^ nat (k - e)"
    by (simp only:)
  then show ?thesis by simp
qed

lemma ulpExponent_dyadic:
  assumes "m \<noteq> 0" and "\<bar>m\<bar> < 2 ^ 53" and "- 1074 \<le> k"
  shows "ulpExponent (of_int m * 2 powr of_int k) \<le> k"
proof (rule ccontr)
  let ?x = "of_int m * 2 powr of_int k :: real"
  assume "\<not> ulpExponent ?x \<le> k"
  then have gt: "k < ulpExponent ?x" by simp
  have nz: "?x \<noteq> 0" using assms(1) by simp
  have "2 powr of_int (ulpExponent ?x + 52) \<le> \<bar>?x\<bar>"
    using binade_lower[OF nz] gt assms(3) by linarith
  also have "\<dots> < 2 powr of_int (k + 53)"
    by (rule dyadic_bound[OF assms(2)])
  finally have "ulpExponent ?x + 52 < k + 53"
    by (simp)
  then show False using gt by simp
qed

lemma round64_exact:
  assumes "dyadic53 x"
  shows "round64 x = x"
proof (cases "x = 0")
  case True
  then show ?thesis by simp
next
  case False
  obtain m k where mk: "x = of_int m * 2 powr of_int k" "\<bar>m\<bar> < 2 ^ 53" "- 1074 \<le> k"
    using assms by (auto simp: dyadic53_def)
  have m: "m \<noteq> 0" using False mk(1) by auto
  have le: "ulpExponent x \<le> k"
    unfolding mk(1) by (rule ulpExponent_dyadic[OF m mk(2,3)])
  have "x / 2 powr of_int (ulpExponent x) = of_int (m * 2 ^ nat (k - ulpExponent x))"
    unfolding mk(1)[symmetric] using dyadic_multiple[OF le, of m] mk(1) by simp
  then have "round64 x = of_int (m * 2 ^ nat (k - ulpExponent x)) * 2 powr of_int (ulpExponent x)"
    using False by (simp only: round64_def rhe_int if_False)
  also have "\<dots> = x / 2 powr of_int (ulpExponent x) * 2 powr of_int (ulpExponent x)"
    using dyadic_multiple[OF le, of m] by (simp only: mk(1)[symmetric])
  also have "\<dots> = x" by simp
  finally show ?thesis .
qed

lemma round64_le:
  assumes "x \<le> b" and "dyadic53 b"
  shows "round64 x \<le> b"
proof (cases "x = 0")
  case True
  then show ?thesis using assms(1) by simp
next
  case False
  obtain m k where mk: "b = of_int m * 2 powr of_int k" "\<bar>m\<bar> < 2 ^ 53" "- 1074 \<le> k"
    using assms(2) by (auto simp: dyadic53_def)
  let ?E = "ulpExponent x"
  let ?u = "2 powr of_int ?E :: real"
  have u: "0 < ?u" by simp
  have r: "round64 x = of_int (roundHalfEven (x / ?u)) * ?u"
    using False by (simp add: round64_def)
  show ?thesis
  proof (cases "?E \<le> k")
    case True
    have b: "b / ?u = of_int (m * 2 ^ nat (k - ?E))"
      unfolding mk(1) by (rule dyadic_multiple[OF True])
    have "x / ?u \<le> b / ?u"
      using assms(1) u by (simp add: divide_right_mono)
    then have "roundHalfEven (x / ?u) \<le> m * 2 ^ nat (k - ?E)"
      unfolding b by (rule rhe_le)
    then have "real_of_int (roundHalfEven (x / ?u)) \<le> of_int (m * 2 ^ nat (k - ?E))"
      by (simp only: of_int_le_iff)
    then have "real_of_int (roundHalfEven (x / ?u)) * ?u \<le> b / ?u * ?u"
      unfolding b using u by (simp only: mult_right_mono less_imp_le)
    then show ?thesis using r by simp
  next
    case False
    then have kE: "k < ?E" by simp
    then have low: "2 powr of_int (?E + 52) \<le> \<bar>x\<bar>"
      using binade_lower[OF \<open>x \<noteq> 0\<close>] mk(3) by linarith
    have "\<bar>b\<bar> < 2 powr of_int (k + 53)"
      unfolding mk(1) by (rule dyadic_bound[OF mk(2)])
    also have "\<dots> \<le> 2 powr of_int (?E + 52)"
      using kE by simp
    finally have bsmall: "\<bar>b\<bar> < 2 powr of_int (?E + 52)" .
    then have xneg: "x \<le> - (2 powr of_int (?E + 52))"
      using low assms(1) by linarith
    have "x / ?u \<le> - (2 powr of_int (?E + 52)) / ?u"
      using xneg u by (simp only: divide_right_mono less_imp_le)
    also have "- (2 powr of_int (?E + 52)) / ?u = - (2 powr 52)"
      by (simp add: powr_add)
    also have "\<dots> = of_int (- (2 ^ 52))"
      by simp
    finally have "roundHalfEven (x / ?u) \<le> - (2 ^ 52)"
      by (rule rhe_le)
    then have "real_of_int (roundHalfEven (x / ?u)) \<le> of_int (- (2 ^ 52))"
      by (simp only: of_int_le_iff)
    then have "real_of_int (roundHalfEven (x / ?u)) * ?u \<le> of_int (- (2 ^ 52)) * ?u"
      using u by (simp only: mult_right_mono less_imp_le)
    also have "of_int (- (2 ^ 52)) * ?u = - (2 powr of_int (?E + 52))"
      by (simp add: powr_add)
    finally show ?thesis using r bsmall by linarith
  qed
qed

lemma dyadic53_neg: "dyadic53 (- x) = dyadic53 x"
proof -
  have "dyadic53 y \<Longrightarrow> dyadic53 (- y)" for y
    unfolding dyadic53_def
  proof (elim exE conjE)
    fix m k assume "y = of_int m * 2 powr of_int k" "\<bar>m\<bar> < 2 ^ 53" "- 1074 \<le> k"
    then have "- y = of_int (- m) * 2 powr of_int k \<and> \<bar>- m\<bar> < 2 ^ 53 \<and> - 1074 \<le> k"
      by simp
    then show "\<exists>m k. - y = of_int m * 2 powr of_int k \<and> \<bar>m\<bar> < 2 ^ 53 \<and> - 1074 \<le> k"
      by blast
  qed
  from this[of x] this[of "- x"] show ?thesis by auto
qed

lemma round64_ge:
  assumes "a \<le> x" and "dyadic53 a"
  shows "a \<le> round64 x"
  using round64_le[of "- x" "- a"] assms by (simp add: round64_neg dyadic53_neg)

lemma dyadic53_int: "x \<in> \<int> \<Longrightarrow> \<bar>x\<bar> < 9007199254740992 \<Longrightarrow> dyadic53 x"
proof -
  assume "x \<in> \<int>" and b: "\<bar>x\<bar> < 9007199254740992"
  then obtain m where m: "x = of_int m" by (auto elim: Ints_cases)
  then have "\<bar>m\<bar> < 2 ^ 53" using b by simp
  then have "x = of_int m * 2 powr of_int 0 \<and> \<bar>m\<bar> < 2 ^ 53 \<and> - 1074 \<le> (0::int)"
    using m by simp
  then show ?thesis unfolding dyadic53_def by blast
qed

lemma dyadic53_scale:
  assumes "x * 2 ^ n \<in> \<int>" and "\<bar>x * 2 ^ n\<bar> < 9007199254740992" and "n \<le> 1074"
  shows "dyadic53 x"
proof -
  obtain m where m: "x * 2 ^ n = of_int m" using assms(1) by (auto elim: Ints_cases)
  then have b: "\<bar>m\<bar> < 2 ^ 53" using assms(2) by simp
  have "x = of_int m / 2 ^ n" using m by (simp add: field_simps)
  also have "\<dots> = of_int m * 2 powr of_int (- int n)"
    by (simp add: powr_minus powr_realpow divide_inverse)
  finally have "x = of_int m * 2 powr of_int (- int n) \<and> \<bar>m\<bar> < 2 ^ 53 \<and> - 1074 \<le> - int n"
    using b assms(3) by simp
  then show ?thesis unfolding dyadic53_def by blast
qed

lemma dyadic53_big:
  assumes "x / 2 ^ n \<in> \<int>" and "\<bar>x / 2 ^ n\<bar> < 9007199254740992"
  shows "dyadic53 x"
proof -
  obtain m where m: "x / 2 ^ n = of_int m" using assms(1) by (auto elim: Ints_cases)
  then have b: "\<bar>m\<bar> < 2 ^ 53" using assms(2) by simp
  have "x = of_int m * 2 ^ n" using m by (simp add: field_simps)
  also have "\<dots> = of_int m * 2 powr of_int (int n)"
    by (simp add: powr_realpow)
  finally have "x = of_int m * 2 powr of_int (int n) \<and> \<bar>m\<bar> < 2 ^ 53 \<and> - 1074 \<le> int n"
    using b by simp
  then show ?thesis unfolding dyadic53_def by blast
qed

lemma ulpExponent_binade:
  assumes "2 powr of_int e \<le> \<bar>x\<bar>" and "\<bar>x\<bar> < 2 powr of_int (e + 1)" and "- 1022 \<le> e"
  shows "ulpExponent x = e - 52"
proof -
  have pos: "0 < \<bar>x\<bar>"
    using assms(1) by (smt (verit) powr_gt_zero)
  have "of_int e \<le> log 2 \<bar>x\<bar>"
    using assms(1) pos by (simp add: le_log_iff)
  moreover have "log 2 \<bar>x\<bar> < of_int (e + 1)"
    using assms(2) pos by (simp add: log_less_iff)
  ultimately have "\<lfloor>log 2 \<bar>x\<bar>\<rfloor> = e"
    by (simp add: floor_eq_iff)
  then show ?thesis
    using assms(3) by (simp add: ulpExponent_def)
qed

lemma round64_binade:
  assumes "2 powr of_int e \<le> \<bar>x\<bar>" and "\<bar>x\<bar> < 2 powr of_int (e + 1)" and "- 1022 \<le> e"
  shows "round64 x = of_int (roundHalfEven (x / 2 powr of_int (e - 52))) * 2 powr of_int (e - 52)"
proof -
  have "x \<noteq> 0"
    using assms(1) by (smt (verit) powr_gt_zero)
  then show ?thesis
    by (simp only: round64_def ulpExponent_binade[OF assms] if_False)
qed

lemma round64_fine:
  assumes "2 ^ 52 \<le> \<bar>x\<bar> * 2 ^ n" and "\<bar>x\<bar> * 2 ^ n < 2 ^ 53" and "n \<le> 1074"
  shows "round64 x = of_int (roundHalfEven (x * 2 ^ n)) / 2 ^ n"
proof -
  have p: "2 powr of_int (- int n) = (1 / 2 ^ n :: real)"
    by (simp add: powr_minus powr_realpow divide_inverse)
  have a: "2 powr of_int (52 - int n) \<le> \<bar>x\<bar>"
  proof -
    have h: "2 powr of_int (52 - int n) = (2 ^ 52 / 2 ^ n :: real)"
      using p by (simp add: powr_diff powr_minus powr_realpow)
    have "(2 ^ 52 / 2 ^ n :: real) \<le> \<bar>x\<bar>"
      using assms(1) by (simp add: pos_divide_le_eq)
    then show ?thesis by (simp only: h)
  qed
  have b: "\<bar>x\<bar> < 2 powr of_int (52 - int n + 1)"
  proof -
    have h: "2 powr of_int (52 - int n + 1) = (2 ^ 53 / 2 ^ n :: real)"
      using p by (simp add: powr_diff powr_add powr_minus powr_realpow)
    have "\<bar>x\<bar> < (2 ^ 53 / 2 ^ n :: real)"
      using assms(2) by (simp add: pos_less_divide_eq)
    then show ?thesis by (simp only: h)
  qed
  have "round64 x = of_int (roundHalfEven (x / 2 powr of_int (52 - int n - 52)))
      * 2 powr of_int (52 - int n - 52)"
    using assms(3) by (intro round64_binade[OF a b]) simp
  then show ?thesis
    using p by simp
qed

lemma round64_coarse:
  assumes "2 ^ 52 \<le> \<bar>x\<bar> / 2 ^ n" and "\<bar>x\<bar> / 2 ^ n < 2 ^ 53"
  shows "round64 x = of_int (roundHalfEven (x / 2 ^ n)) * 2 ^ n"
proof -
  have p: "2 powr of_int (int n) = (2 ^ n :: real)"
    by (simp add: powr_realpow)
  have a: "2 powr of_int (52 + int n) \<le> \<bar>x\<bar>"
  proof -
    have h: "2 powr of_int (52 + int n) = (2 ^ 52 * 2 ^ n :: real)"
      using p by (simp add: powr_add)
    have "(2 ^ 52 * 2 ^ n :: real) \<le> \<bar>x\<bar>"
      using assms(1) by (simp add: pos_le_divide_eq)
    then show ?thesis by (simp only: h)
  qed
  have b: "\<bar>x\<bar> < 2 powr of_int (52 + int n + 1)"
  proof -
    have h: "2 powr of_int (52 + int n + 1) = (2 ^ 53 * 2 ^ n :: real)"
      using p by (simp add: powr_add)
    have "\<bar>x\<bar> < (2 ^ 53 * 2 ^ n :: real)"
      using assms(2) by (simp add: pos_divide_less_eq)
    then show ?thesis by (simp only: h)
  qed
  have "round64 x = of_int (roundHalfEven (x / 2 powr of_int (52 + int n - 52)))
      * 2 powr of_int (52 + int n - 52)"
    by (intro round64_binade[OF a b]) simp
  then show ?thesis
    using p by simp
qed

lemma dyadic53_0 [simp]: "dyadic53 0"
  by (simp add: dyadic53_int)

lemma round64_abs_le:
  assumes "\<bar>x\<bar> \<le> b" and "dyadic53 b"
  shows "\<bar>round64 x\<bar> \<le> b"
proof -
  have "round64 x \<le> b"
    using assms by (intro round64_le) simp_all
  moreover have "- b \<le> round64 x"
    using assms by (intro round64_ge) (simp_all add: dyadic53_neg)
  ultimately show ?thesis by simp
qed

section \<open>Rounded results\<close>

lemma dyadic53_pow1023: "dyadic53 (2 ^ 1023)"
  by (rule dyadic53_big[of _ 1023]) simp_all

lemma dyadic53_pow1024: "dyadic53 (2 ^ 1024)"
  by (rule dyadic53_big[of _ 1024]) simp_all

lemma fl_Fin: "\<bar>r\<bar> \<le> 2 ^ 1023 \<Longrightarrow> fl r = Fin (round64 r)"
  using round64_abs_le[OF _ dyadic53_pow1023, of r]
  by (simp add: fl_def Let_def abs_le_iff)

lemma fl_exact: "dyadic53 x \<Longrightarrow> \<bar>x\<bar> < 2 ^ 1024 \<Longrightarrow> fl x = Fin x"
  by (simp add: fl_def round64_exact Let_def abs_less_iff)

lemma fl_int: "x \<in> \<int> \<Longrightarrow> \<bar>x\<bar> < 9007199254740992 \<Longrightarrow> fl x = Fin x"
  by (rule fl_exact) (simp_all add: dyadic53_int)

lemma fl_0 [simp]: "fl 0 = Fin 0"
  by (simp add: fl_int)

lemma fl_overflow: "2 ^ 1024 \<le> r \<Longrightarrow> fl r = PInf"
  using round64_ge[OF _ dyadic53_pow1024, of r] by (simp add: fl_def Let_def)

text \<open>Bounds with at most 53 bits pass through rounding.\<close>

lemma fl_between:
  assumes "lo \<le> r" and "r \<le> hi" and "dyadic53 lo" and "dyadic53 hi"
    and "- (2 ^ 1024) < lo" and "hi < 2 ^ 1024"
  shows "\<exists>q. fl r = Fin q \<and> lo \<le> q \<and> q \<le> hi"
proof -
  have "lo \<le> round64 r" using assms(1,3) by (rule round64_ge)
  moreover have "round64 r \<le> hi" using assms(2,4) by (rule round64_le)
  ultimately show ?thesis
    using assms(5,6) by (simp add: fl_def Let_def)
qed

section \<open>The branches of the filter\<close>

lemmas js_ops = plus_jsnum_def minus_jsnum_def times_jsnum_def divide_jsnum_def
  less_jsnum_def less_eq_jsnum_def uminus_jsnum_def

lemma cfgp_nonfinite:
  "\<not> isFinite rawX \<or> \<not> isFinite rawY \<Longrightarrow>
   computeFilteredGazePoint rawX rawY timestamp st = ((rawX, rawY), st)"
  by (simp add: computeFilteredGazePoint_def)

lemma cfgp_outlier:
  "isFinite rawX \<Longrightarrow> isFinite rawY \<Longrightarrow> isOutlier rawX rawY (gazeHistory st) \<Longrightarrow>
   computeFilteredGazePoint rawX rawY timestamp st =
     ((case smoothedPoint st of Some p \<Rightarrow> xy p | None \<Rightarrow> xy (last (gazeHistory st))), st)"
  by (simp add: computeFilteredGazePoint_def split: option.split)

lemma cfgp_accept:
  "isFinite rawX \<Longrightarrow> isFinite rawY \<Longrightarrow> \<not> isOutlier rawX rawY (gazeHistory st) \<Longrightarrow>
   \<exists>p. computeFilteredGazePoint rawX rawY timestamp st =
     (p, \<lparr>gazeHistory = acceptedHistory rawX rawY timestamp (gazeHistory st),
         smoothedPoint = Some \<lparr>sx = fst p, sy = snd p, stime = timestamp\<rparr>\<rparr>)"
  by (simp add: computeFilteredGazePoint_def Let_def split: option.split)

lemma evictOverflow_short:
  "length history \<le> MAX_HISTORY_POINTS \<Longrightarrow> evictOverflow history = history"
  by (subst evictOverflow.simps) simp

lemma acceptedHistory_Nil:
  "acceptedHistory rawX rawY timestamp [] = [\<lparr>sx = rawX, sy = rawY, stime = timestamp\<rparr>]"
  by (simp add: acceptedHistory_def evictOverflow_short MAX_HISTORY_POINTS_def GAZE_HISTORY_MS_def)

lemma fixationCentroid_few:
  "length windowPoints < MIN_FIXATION_SAMPLES \<Longrightarrow> fixationCentroid timestamp windowPoints = None"
  by (simp add: fixationCentroid_def)

lemma length_collectWindow: "length (collectWindow timestamp h) \<le> length h"
  by (induction h) auto

lemma length_windowPointsOf: "length (windowPointsOf timestamp h) \<le> length h"
  using length_collectWindow[of timestamp "rev h"] by (simp add: windowPointsOf_def)

text \<open>The first finite sample after a reset seeds the smoothed point.\<close>

lemma cfgp_seed:
  assumes "isFinite rawX" and "isFinite rawY"
  shows "computeFilteredGazePoint rawX rawY timestamp \<lparr>gazeHistory = [], smoothedPoint = None\<rparr> =
     ((rawX, rawY),
      \<lparr>gazeHistory = [\<lparr>sx = rawX, sy = rawY, stime = timestamp\<rparr>],
       smoothedPoint = Some \<lparr>sx = rawX, sy = rawY, stime = timestamp\<rparr>\<rparr>)"
proof -
  have "length (windowPointsOf timestamp [\<lparr>sx = rawX, sy = rawY, stime = timestamp\<rparr>])
          < MIN_FIXATION_SAMPLES"
    using length_windowPointsOf[of timestamp "[\<lparr>sx = rawX, sy = rawY, stime = timestamp\<rparr>]"]
    by (simp add: MIN_FIXATION_SAMPLES_def)
  then have "fixationCentroid timestamp
      (windowPointsOf timestamp [\<lparr>sx = rawX, sy = rawY, stime = timestamp\<rparr>]) = None"
    by (rule fixationCentroid_few)
  with assms show ?thesis
    by (simp add: computeFilteredGazePoint_def isOutlier_def acceptedHistory_Nil isStale_def)
qed

section \<open>The smoothed-point record follows the output\<close>

text \<open>
  Claim C8. For every input sample \<open>computeFilteredGazePoint\<close> returns an \<open>{x, y}\<close>
  pair (the function is total), and the smoothed-point record after the call is the
  returned value with the sample's timestamp, in every case but two: the non-finite
  pass-through guard and the outlier rejection, which leave the refs as they were.
\<close>

theorem smoothed_record_is_output:
  "computeFilteredGazePoint rawX rawY timestamp st = (out, st') \<Longrightarrow>
   (if \<not> isFinite rawX \<or> \<not> isFinite rawY \<or> isOutlier rawX rawY (gazeHistory st)
    then st' = st
    else smoothedPoint st' = Some \<lparr>sx = fst out, sy = snd out, stime = timestamp\<rparr>)"
  using cfgp_nonfinite[of rawX rawY timestamp st] cfgp_outlier[of rawX rawY st timestamp]
    cfgp_accept[of rawX rawY st timestamp]
  by (auto split: if_splits)

theorem smoothed_record_is_output_witness:
  "smoothedPoint (snd (computeFilteredGazePoint (Fin 3) (Fin 4) 5
      \<lparr>gazeHistory = [], smoothedPoint = None\<rparr>))
   = Some \<lparr>sx = Fin 3, sy = Fin 4, stime = 5\<rparr>"
  using smoothed_record_is_output[of "Fin 3" "Fin 4" 5
      "\<lparr>gazeHistory = [], smoothedPoint = None\<rparr>"
      "fst (computeFilteredGazePoint (Fin 3) (Fin 4) 5 \<lparr>gazeHistory = [], smoothedPoint = None\<rparr>)"
      "snd (computeFilteredGazePoint (Fin 3) (Fin 4) 5 \<lparr>gazeHistory = [], smoothedPoint = None\<rparr>)"]
  by (simp add: isOutlier_def cfgp_seed)

section \<open>Evaluating the arithmetic\<close>

lemma no_fixation_short:
  "length h < MIN_FIXATION_SAMPLES \<Longrightarrow> fixationCentroid timestamp (windowPointsOf timestamp h) = None"
  using length_windowPointsOf[of timestamp h] by (intro fixationCentroid_few) simp

lemma acceptedHistory_keep:
  "length h < MAX_HISTORY_POINTS \<Longrightarrow> \<forall>e \<in> set h. timestamp - stime e \<le> GAZE_HISTORY_MS \<Longrightarrow>
   acceptedHistory rawX rawY timestamp h = h @ [\<lparr>sx = rawX, sy = rawY, stime = timestamp\<rparr>]"
  by (cases h) (simp_all add: acceptedHistory_def evictOverflow_short GAZE_HISTORY_MS_def)

lemma movingAverage_short: "length history < 3 \<Longrightarrow> movingAverage history safe = safe"
  by (simp add: movingAverage_def Let_def)

lemmas filter_consts = FIXATION_MAX_RADIUS_PX_def MAX_VELOCITY_PX_PER_S_def
  SMOOTH_MIN_ALPHA_def SMOOTH_MAX_ALPHA_def OUTLIER_THRESHOLD_PX_def

lemma cfgp_smooth:
  assumes "isFinite rawX" and "isFinite rawY"
    and "\<not> isOutlier rawX rawY (gazeHistory st)"
    and "smoothedPoint st = Some p"
    and "timestamp - stime p \<le> GAZE_HISTORY_MS"
    and "fixationCentroid timestamp
           (windowPointsOf timestamp (acceptedHistory rawX rawY timestamp (gazeHistory st))) = None"
    and "smoothStep rawX rawY timestamp (acceptedHistory rawX rawY timestamp (gazeHistory st)) p = out"
  shows "computeFilteredGazePoint rawX rawY timestamp st =
     (out, \<lparr>gazeHistory = acceptedHistory rawX rawY timestamp (gazeHistory st),
            smoothedPoint = Some \<lparr>sx = fst out, sy = snd out, stime = timestamp\<rparr>\<rparr>)"
  using assms by (simp add: computeFilteredGazePoint_def Let_def isStale_def)

text \<open>Interval bounds through the rounded operations: bounds on the grid are kept
  by rounding, so an exact bound on the operands gives one on the result.\<close>

lemma grid_dyadic: "grid x \<Longrightarrow> dyadic53 x"
  unfolding grid_def by (rule dyadic53_scale[of x 20]) (simp_all add: abs_mult)

lemma fl_grid:
  assumes "lo \<le> r" and "r \<le> hi" and "grid lo" and "grid hi"
  shows "\<exists>q. fl r = Fin q \<and> lo \<le> q \<and> q \<le> hi"
proof -
  have "\<bar>lo\<bar> < 4294967296" "\<bar>hi\<bar> < 4294967296"
    using assms(3,4) by (simp_all add: grid_def)
  then have "- (2 ^ 1024) < lo" "hi < 2 ^ 1024"
    by (simp_all add: abs_less_iff)
  then show ?thesis
    using assms by (intro fl_between grid_dyadic)
qed

lemma add_bounds:
  assumes "l1 \<le> x" and "x \<le> h1" and "l2 \<le> y" and "y \<le> h2"
    and "lo \<le> l1 + l2" and "h1 + h2 \<le> hi" and "grid lo" and "grid hi"
  shows "\<exists>z. Fin x + Fin y = Fin z \<and> lo \<le> z \<and> z \<le> hi"
  unfolding plus_jsnum_def js_add.simps
  using assms by (intro fl_grid) simp_all

lemma sub_bounds:
  assumes "l1 \<le> x" and "x \<le> h1" and "l2 \<le> y" and "y \<le> h2"
    and "lo \<le> l1 - h2" and "h1 - l2 \<le> hi" and "grid lo" and "grid hi"
  shows "\<exists>z. Fin x - Fin y = Fin z \<and> lo \<le> z \<and> z \<le> hi"
  unfolding minus_jsnum_def js_add.simps js_neg.simps
  using assms by (intro fl_grid) simp_all

lemma mul_bounds:
  assumes "l1 \<le> x" and "x \<le> h1" and "l2 \<le> y" and "y \<le> h2"
    and "0 \<le> l1" and "0 \<le> l2"
    and "lo \<le> l1 * l2" and "h1 * h2 \<le> hi" and "grid lo" and "grid hi"
  shows "\<exists>z. Fin x * Fin y = Fin z \<and> lo \<le> z \<and> z \<le> hi"
proof -
  have "l1 * l2 \<le> x * y"
    using assms(1,3,5,6) by (intro mult_mono) simp_all
  moreover have "x * y \<le> h1 * h2"
    using assms(1-6) by (intro mult_mono) simp_all
  ultimately show ?thesis
    unfolding times_jsnum_def js_mul.simps
    using assms(7-10) by (intro fl_grid) simp_all
qed

lemma div_bounds:
  assumes "l1 \<le> x" and "x \<le> h1" and "l2 \<le> y" and "y \<le> h2"
    and "0 \<le> l1" and "0 < l2"
    and "lo \<le> l1 / h2" and "h1 / l2 \<le> hi" and "grid lo" and "grid hi"
  shows "\<exists>z. Fin x / Fin y = Fin z \<and> lo \<le> z \<and> z \<le> hi"
proof -
  have y: "0 < y" using assms(3,6) by simp
  have "l1 / h2 \<le> x / y"
    using assms(1,3,4,5,6) y by (intro frac_le) simp_all
  moreover have "x / y \<le> h1 / l2"
    using assms(1-6) by (intro frac_le) simp_all
  ultimately show ?thesis
    unfolding divide_jsnum_def js_div.simps
    using assms(7-10) y by (simp only: if_False less_imp_neq[THEN not_sym]) (intro fl_grid, simp_all)
qed

lemma hypot0_bounds:
  assumes "l \<le> x" and "x \<le> h" and "0 \<le> l" and "grid l" and "grid h"
  shows "\<exists>z. Math_hypot (Fin x) (Fin 0) = Fin z \<and> l \<le> z \<and> z \<le> h"
proof -
  have "sqrt (x * x + 0 * 0) = x"
    using assms(1,3) by simp
  then show ?thesis
    unfolding Math_hypot.simps
    using assms by (simp only:) (intro fl_grid, simp_all)
qed

text \<open>\<open>x ^ 1.5\<close> is \<open>x\<close> times its square root.\<close>

lemma pow15_bounds:
  assumes "l \<le> x" and "x \<le> h"
    and "0 \<le> d" and "d * d \<le> l" and "0 \<le> c" and "h \<le> c * c"
    and "lo \<le> l * d" and "h * c \<le> hi" and "grid lo" and "grid hi"
  shows "\<exists>z. Math_pow (Fin x) (3 / 2) = Fin z \<and> lo \<le> z \<and> z \<le> hi"
proof -
  have l0: "0 \<le> l" using assms(3,4) by (meson mult_nonneg_nonneg order_trans)
  then have x0: "0 \<le> x" using assms(1) by simp
  have "d \<le> sqrt x"
    using assms(1,3,4) by (intro real_le_rsqrt) (simp add: power2_eq_square)
  moreover have "sqrt x \<le> c"
    using assms(2,5,6) by (intro real_le_lsqrt) (simp_all add: power2_eq_square)
  moreover have "x powr (3 / 2) = x * sqrt x"
  proof (cases "x = 0")
    case True
    then show ?thesis by simp
  next
    case False
    then have "x powr (3 / 2) = x powr (1 + 1 / 2)" by simp
    also have "\<dots> = x powr 1 * x powr (1 / 2)" by (simp only: powr_add)
    also have "\<dots> = x * sqrt x" using x0 False by (simp add: powr_half_sqrt)
    finally show ?thesis .
  qed
  moreover have "l * d \<le> x * sqrt x"
    using assms(1,3) l0 calculation(1) by (intro mult_mono) simp_all
  moreover have "x * sqrt x \<le> h * c"
    using assms(2,5) x0 calculation(2) by (intro mult_mono) simp_all
  ultimately have "\<exists>z. fl (x powr (3 / 2)) = Fin z \<and> lo \<le> z \<and> z \<le> hi"
    using assms(7-10) by (intro fl_grid) simp_all
  then show ?thesis
    using x0 by simp
qed

lemma hypot0_bounds':
  assumes "l \<le> x" and "x \<le> h" and "0 \<le> l" and "grid l" and "grid h"
  shows "\<exists>z. Math_hypot (Fin 0) (Fin x) = Fin z \<and> l \<le> z \<and> z \<le> h"
proof -
  have "sqrt (0 * 0 + x * x) = x"
    using assms(1,3) by simp
  then show ?thesis
    unfolding Math_hypot.simps
    using assms by (simp only:) (intro fl_grid, simp_all)
qed

lemma clamp_within:
  assumes "lo \<le> hi"
  shows "\<exists>a. clamp (Fin v) (Fin lo) (Fin hi) = Fin a \<and> lo \<le> a \<and> a \<le> hi"
  using assms by (auto simp: clamp_def less_jsnum_def)

lemma clamp_mid: "lo \<le> v \<Longrightarrow> v \<le> hi \<Longrightarrow> clamp (Fin v) (Fin lo) (Fin hi) = Fin v"
  by (simp add: clamp_def less_jsnum_def)

lemma clamp_top: "hi \<le> v \<Longrightarrow> lo \<le> hi \<Longrightarrow> clamp (Fin v) (Fin lo) (Fin hi) = Fin hi"
  by (auto simp: clamp_def less_jsnum_def)

lemma mul_zero [simp]: "Fin a * Fin 0 = Fin 0" "Fin 0 * Fin a = Fin 0"
  by (simp_all add: times_jsnum_def)

lemma add_zero [simp]: "Fin 0 + Fin 0 = Fin 0" "Fin 0 - Fin 0 = Fin 0"
  by (simp_all add: plus_jsnum_def minus_jsnum_def)

lemma zero_div: "c \<noteq> 0 \<Longrightarrow> Fin 0 / Fin c = Fin 0"
  by (simp add: divide_jsnum_def)

lemma less_Fin [simp]: "(Fin a < Fin b) = (a < b)" "(Fin a \<le> Fin b) = (a \<le> b)"
  by (simp_all add: less_jsnum_def less_eq_jsnum_def)

text \<open>The thresholds of the filter, as numbers.\<close>

lemma round64_8_10: "round64 (8 / 10) = 3602879701896397 / 2 ^ 52"
  by (subst round64_fine[of _ 53]) (simp_all add: roundHalfEven_def)

lemma round64_3_10: "round64 (3 / 10) = 5404319552844595 / 2 ^ 54"
  by (subst round64_fine[of _ 54]) (simp_all add: roundHalfEven_def)

lemma fl_8_10: "fl (8 / 10) = Fin (3602879701896397 / 2 ^ 52)"
proof -
  have "fl (8 / 10) = Fin (round64 (8 / 10))"
    by (rule fl_Fin) simp
  then show ?thesis
    unfolding round64_8_10 .
qed

lemma fl_3_10: "fl (3 / 10) = Fin (5404319552844595 / 2 ^ 54)"
proof -
  have "fl (3 / 10) = Fin (round64 (3 / 10))"
    by (rule fl_Fin) simp
  then show ?thesis
    unfolding round64_3_10 .
qed

lemma snap_velocity: "MAX_VELOCITY_PX_PER_S * fl (8 / 10) = Fin 1200"
proof -
  have "round64 (1500 * (3602879701896397 / 2 ^ 52)) = 1200"
    by (subst round64_fine[of _ 42]) (simp_all add: roundHalfEven_def)
  moreover have "fl (1500 * (3602879701896397 / 2 ^ 52))
      = Fin (round64 (1500 * (3602879701896397 / 2 ^ 52)))"
    by (rule fl_Fin) simp
  ultimately show ?thesis
    unfolding MAX_VELOCITY_PX_PER_S_def fl_8_10 times_jsnum_def js_mul.simps
    by (simp only:)
qed

lemma average_velocity: "MAX_VELOCITY_PX_PER_S * fl (3 / 10) = Fin 450"
proof -
  have "round64 (1500 * (5404319552844595 / 2 ^ 54)) = 450"
    by (subst round64_fine[of _ 44]) (simp_all add: roundHalfEven_def)
  moreover have "fl (1500 * (5404319552844595 / 2 ^ 54))
      = Fin (round64 (1500 * (5404319552844595 / 2 ^ 54)))"
    by (rule fl_Fin) simp
  ultimately show ?thesis
    unfolding MAX_VELOCITY_PX_PER_S_def fl_3_10 times_jsnum_def js_mul.simps
    by (simp only:)
qed

lemma snap_distance: "FIXATION_MAX_RADIUS_PX * Fin 6 = Fin 270"
  by (simp add: FIXATION_MAX_RADIUS_PX_def times_jsnum_def fl_int)

lemma snap_velocity4: "MAX_VELOCITY_PX_PER_S * fl (4 / 5) = Fin 1200"
  using snap_velocity by simp

lemma recent_indices3: "rev [(3::nat) - 4 ..< 3 - 1] = [1, 0]"
  by code_simp

lemma recent_indices4: "rev [(4::nat) - 4 ..< 4 - 1] = [2, 1, 0]"
  by code_simp

lemma recent_indices5: "rev [(5::nat) - 4 ..< 5 - 1] = [3, 2, 1]"
  by code_simp

lemmas recent_indices = recent_indices3 recent_indices4 recent_indices5

section \<open>Outlier rejection\<close>



text \<open>The distance is the rounded one. A sample at 120 px whose last history entry
  lies \<open>2 ^ - 60\<close> px on the other side of the origin is at the distance 120 as
  computed, which does not exceed the threshold: the sample is accepted.\<close>

lemma round64_near_120: "round64 (120 + 1 / 2 ^ 60) = 120"
  by (subst round64_fine[of _ 46]) (simp_all add: roundHalfEven_def)

lemma outlier_test_rounds:
  "\<not> isOutlier (Fin 120) (Fin 0) [\<lparr>sx = Fin (- (1 / 2 ^ 60)), sy = Fin 0, stime = 0\<rparr>]"
proof -
  have "fl (120 + 1 / 2 ^ 60) = Fin (round64 (120 + 1 / 2 ^ 60))"
    by (rule fl_Fin) simp
  then have "Fin 120 - Fin (- (1 / 2 ^ 60)) = Fin 120"
    unfolding round64_near_120 by (simp add: minus_jsnum_def)
  then show ?thesis
    by (simp add: isOutlier_def distanceFrom_def OUTLIER_THRESHOLD_PX_def fl_int)
qed

section \<open>Extreme saccades\<close>

text \<open>The gaze drifts in steps of 120 px: each sample passes the outlier test, and the
  smoothed point falls behind. The bounds on it are kept through every rounded
  operation of the smoothing step.\<close>

lemma drift_step1:
  assumes s0: "0 \<le> s0" "s0 \<le> 0"
  shows "\<exists>s. computeFilteredGazePoint (Fin 120) (Fin 0) 500
        \<lparr>gazeHistory = [\<lparr>sx = Fin 0, sy = Fin 0, stime = 0\<rparr>],
         smoothedPoint = Some \<lparr>sx = Fin s0, sy = Fin 0, stime = 0\<rparr>\<rparr> =
      ((Fin s, Fin 0),
       \<lparr>gazeHistory = [\<lparr>sx = Fin 0, sy = Fin 0, stime = 0\<rparr>,
          \<lparr>sx = Fin 120, sy = Fin 0, stime = 500\<rparr>],
        smoothedPoint = Some \<lparr>sx = Fin s, sy = Fin 0, stime = 500\<rparr>\<rparr>)
     \<and> 55785 / 1024 \<le> s \<and> s \<le> 7140645 / 131072"
proof -
  let ?p = "\<lparr>sx = Fin s0, sy = Fin 0, stime = 0\<rparr>"
  let ?h = "[\<lparr>sx = Fin 0, sy = Fin 0, stime = 0\<rparr>,
          \<lparr>sx = Fin 120, sy = Fin 0, stime = 500\<rparr>]"
  have "\<exists>z. Fin 120 - Fin s0 = Fin z \<and> 120 \<le> z \<and> z \<le> 120"
    by (rule sub_bounds[OF order_refl order_refl s0(1) s0(2)]) (simp_all add: grid_def)
  then obtain dX where dX: "Fin 120 - Fin s0 = Fin dX" "120 \<le> dX" "dX \<le> 120"
    by blast
  have "\<exists>z. Math_hypot (Fin dX) (Fin 0) = Fin z
      \<and> 120 \<le> z \<and> z \<le> 120"
    by (rule hypot0_bounds[OF dX(2) dX(3)]) (simp_all add: grid_def)
  then obtain dist where dist: "Math_hypot (Fin dX) (Fin 0) = Fin dist"
      "120 \<le> dist" "dist \<le> 120"
    by blast
  have "\<exists>z. Fin dist / Fin 500 = Fin z
      \<and> 125829 / 524288 \<le> z \<and> z \<le> 251659 / 1048576"
    by (rule div_bounds[OF dist(2) dist(3) order_refl order_refl]) (simp_all add: grid_def)
  then obtain q where q: "Fin dist / Fin 500 = Fin q"
      "125829 / 524288 \<le> q" "q \<le> 251659 / 1048576"
    by blast
  have "\<exists>z. Fin q * Fin 1000 = Fin z
      \<and> 15728625 / 65536 \<le> z \<and> z \<le> 31457375 / 131072"
    by (rule mul_bounds[OF q(2) q(3) order_refl order_refl]) (simp_all add: grid_def)
  then obtain v where v: "Fin q * Fin 1000 = Fin v"
      "15728625 / 65536 \<le> v" "v \<le> 31457375 / 131072"
    by blast
  have "\<exists>z. Fin v / MAX_VELOCITY_PX_PER_S = Fin z
      \<and> 41943 / 262144 \<le> z \<and> z \<le> 167773 / 1048576"
    unfolding MAX_VELOCITY_PX_PER_S_def
    by (rule div_bounds[OF v(2) v(3) order_refl order_refl]) (simp_all add: grid_def)
  then obtain x where x: "Fin v / MAX_VELOCITY_PX_PER_S = Fin x"
      "41943 / 262144 \<le> x" "x \<le> 167773 / 1048576"
    by blast
  have "\<exists>z. Math_pow (Fin x) (3 / 2) = Fin z
      \<and> 16773 / 262144 \<le> z \<and> z \<le> 33567 / 524288"
    by (rule pow15_bounds[OF x(2) x(3), where d = "819 / 2048" and c = "1639 / 4096"])
       (simp_all add: grid_def)
  then obtain nv where nv: "Math_pow (Fin x) (3 / 2) = Fin nv"
      "16773 / 262144 \<le> nv" "nv \<le> 33567 / 524288"
    by blast
  have "\<exists>z. Fin dist / Fin 100 = Fin z
      \<and> 1258291 / 1048576 \<le> z \<and> z \<le> 314573 / 262144"
    by (rule div_bounds[OF dist(2) dist(3) order_refl order_refl]) (simp_all add: grid_def)
  then obtain d100 where d100: "Fin dist / Fin 100 = Fin d100"
      "1258291 / 1048576 \<le> d100" "d100 \<le> 314573 / 262144"
    by blast
  have "\<exists>z. fl (3 / 10) = Fin z
      \<and> 78643 / 262144 \<le> z \<and> z \<le> 314573 / 1048576"
    by (rule fl_grid) (simp_all add: grid_def)
  then obtain c03 where c03: "fl (3 / 10) = Fin c03"
      "78643 / 262144 \<le> c03" "c03 \<le> 314573 / 1048576"
    by blast
  have "\<exists>z. fl (7 / 10) = Fin z
      \<and> 734003 / 1048576 \<le> z \<and> z \<le> 183501 / 262144"
    by (rule fl_grid) (simp_all add: grid_def)
  then obtain c07 where c07: "fl (7 / 10) = Fin c07"
      "734003 / 1048576 \<le> c07" "c07 \<le> 183501 / 262144"
    by blast
  have "\<exists>z. SMOOTH_MIN_ALPHA = Fin z
      \<and> 41943 / 524288 \<le> z \<and> z \<le> 83887 / 1048576"
    unfolding SMOOTH_MIN_ALPHA_def by (rule fl_grid) (simp_all add: grid_def)
  then obtain cmin where cmin: "SMOOTH_MIN_ALPHA = Fin cmin"
      "41943 / 524288 \<le> cmin" "cmin \<le> 83887 / 1048576"
    by blast
  have "\<exists>z. SMOOTH_MAX_ALPHA = Fin z
      \<and> 629145 / 1048576 \<le> z \<and> z \<le> 314573 / 524288"
    unfolding SMOOTH_MAX_ALPHA_def by (rule fl_grid) (simp_all add: grid_def)
  then obtain cmax where cmax: "SMOOTH_MAX_ALPHA = Fin cmax"
      "629145 / 1048576 \<le> cmax" "cmax \<le> 314573 / 524288"
    by blast
  have "\<exists>z. Fin c03 * Fin nv = Fin z
      \<and> 20127 / 1048576 \<le> z \<and> z \<le> 20141 / 1048576"
    by (rule mul_bounds[OF c03(2) c03(3) nv(2) nv(3)]) (simp_all add: grid_def)
  then obtain t1 where t1: "Fin c03 * Fin nv = Fin t1"
      "20127 / 1048576 \<le> t1" "t1 \<le> 20141 / 1048576"
    by blast
  have "\<exists>z. Fin c07 * Fin 1 = Fin z
      \<and> 734003 / 1048576 \<le> z \<and> z \<le> 183501 / 262144"
    by (rule mul_bounds[OF c07(2) c07(3) order_refl order_refl]) (simp_all add: grid_def)
  then obtain t2 where t2: "Fin c07 * Fin 1 = Fin t2"
      "734003 / 1048576 \<le> t2" "t2 \<le> 183501 / 262144"
    by blast
  have "\<exists>z. Fin t1 + Fin t2 = Fin z
      \<and> 377065 / 524288 \<le> z \<and> z \<le> 754145 / 1048576"
    by (rule add_bounds[OF t1(2) t1(3) t2(2) t2(3)]) (simp_all add: grid_def)
  then obtain t3 where t3: "Fin t1 + Fin t2 = Fin t3"
      "377065 / 524288 \<le> t3" "t3 \<le> 754145 / 1048576"
    by blast
  have "\<exists>z. Fin cmax - Fin cmin = Fin z
      \<and> 272629 / 524288 \<le> z \<and> z \<le> 136315 / 262144"
    by (rule sub_bounds[OF cmax(2) cmax(3) cmin(2) cmin(3)]) (simp_all add: grid_def)
  then obtain rng where rng: "Fin cmax - Fin cmin = Fin rng"
      "272629 / 524288 \<le> rng" "rng \<le> 136315 / 262144"
    by blast
  have "\<exists>z. Fin rng * Fin t3 = Fin z
      \<and> 196073 / 524288 \<le> z \<and> z \<le> 98039 / 262144"
    by (rule mul_bounds[OF rng(2) rng(3) t3(2) t3(3)]) (simp_all add: grid_def)
  then obtain t4 where t4: "Fin rng * Fin t3 = Fin t4"
      "196073 / 524288 \<le> t4" "t4 \<le> 98039 / 262144"
    by blast
  have "\<exists>z. Fin cmin + Fin t4 = Fin z
      \<and> 3719 / 8192 \<le> z \<and> z \<le> 476043 / 1048576"
    by (rule add_bounds[OF cmin(2) cmin(3) t4(2) t4(3)]) (simp_all add: grid_def)
  then obtain a0 where a0: "Fin cmin + Fin t4 = Fin a0"
      "3719 / 8192 \<le> a0" "a0 \<le> 476043 / 1048576"
    by blast
  have "\<exists>z. Fin a0 * Fin dX = Fin z
      \<and> 55785 / 1024 \<le> z \<and> z \<le> 7140645 / 131072"
    by (rule mul_bounds[OF a0(2) a0(3) dX(2) dX(3)]) (simp_all add: grid_def)
  then obtain m where m: "Fin a0 * Fin dX = Fin m"
      "55785 / 1024 \<le> m" "m \<le> 7140645 / 131072"
    by blast
  have "\<exists>z. Fin s0 + Fin m = Fin z
      \<and> 55785 / 1024 \<le> z \<and> z \<le> 7140645 / 131072"
    by (rule add_bounds[OF s0(1) s0(2) m(2) m(3)]) (simp_all add: grid_def)
  then obtain fX where fX: "Fin s0 + Fin m = Fin fX"
      "55785 / 1024 \<le> fX" "fX \<le> 7140645 / 131072"
    by blast
  have cv: "clamp (Fin v) (Fin 0) MAX_VELOCITY_PX_PER_S = Fin v"
    unfolding MAX_VELOCITY_PX_PER_S_def using v(2,3) by (intro clamp_mid) simp_all
  have cd: "clamp (Fin d100) (Fin 0) (Fin 1) = Fin 1"
    using d100(2) by (intro clamp_top) simp_all
  have ca: "clamp (Fin a0) (Fin cmin) (Fin cmax) = Fin a0"
    using a0(2,3) cmin(3) cmax(2) by (intro clamp_mid) simp_all
  have ex: "\<not> isExtremeSaccade (Fin 120) (Fin 0) 500 ?p"
    using dist(3) v(3)
    by (simp add: isExtremeSaccade_def distanceFrom_def velocityFrom_def of_ms_def dX(1) dist(1)
        q(1) v(1) snap_distance snap_velocity4 del: Math_hypot.simps)
  have fast: "\<not> MAX_VELOCITY_PX_PER_S * fl (3 / 10) < Fin v"
    using v(3) by (simp add: average_velocity)
  have step: "smoothStep (Fin 120) (Fin 0) 500 ?h ?p = (Fin fX, Fin 0)"
    using ex fast
    by (simp add: smoothStep_def Let_def distanceFrom_def velocityFrom_def of_ms_def
        dX(1) dist(1) q(1) v(1) x(1) nv(1) d100(1) c03(1) c07(1) cmin(1) cmax(1) t1(1) t2(1)
        t3(1) rng(1) t4(1) a0(1) m(1) fX(1) cv cd ca
        del: Math_hypot.simps Math_pow.simps)
  have acc: "acceptedHistory (Fin 120) (Fin 0) 500
         [\<lparr>sx = Fin 0, sy = Fin 0, stime = 0\<rparr>] = ?h"
    by (simp add: acceptedHistory_keep MAX_HISTORY_POINTS_def GAZE_HISTORY_MS_def)
  have no: "\<not> isOutlier (Fin 120) (Fin 0) [\<lparr>sx = Fin 0, sy = Fin 0, stime = 0\<rparr>]"
    by (simp add: isOutlier_def distanceFrom_def OUTLIER_THRESHOLD_PX_def js_ops fl_int)
  have nf: "fixationCentroid 500 (windowPointsOf 500 ?h) = None"
    by (rule no_fixation_short) (simp add: MIN_FIXATION_SAMPLES_def)
  have "computeFilteredGazePoint (Fin 120) (Fin 0) 500
        \<lparr>gazeHistory = [\<lparr>sx = Fin 0, sy = Fin 0, stime = 0\<rparr>],
         smoothedPoint = Some \<lparr>sx = Fin s0, sy = Fin 0, stime = 0\<rparr>\<rparr> =
      ((Fin fX, Fin 0),
       \<lparr>gazeHistory = ?h,
        smoothedPoint = Some \<lparr>sx = Fin fX, sy = Fin 0, stime = 500\<rparr>\<rparr>)"
    using cfgp_smooth[of "Fin 120" "Fin 0"
        "\<lparr>gazeHistory = [\<lparr>sx = Fin 0, sy = Fin 0, stime = 0\<rparr>],
         smoothedPoint = Some \<lparr>sx = Fin s0, sy = Fin 0, stime = 0\<rparr>\<rparr>"
        ?p 500 "(Fin fX, Fin 0)"] no nf step
    by (simp add: acc GAZE_HISTORY_MS_def)
  then show ?thesis
    using fX(2) fX(3) by blast
qed

lemma drift_step2:
  assumes s0: "55785 / 1024 \<le> s0" "s0 \<le> 7140645 / 131072"
  shows "\<exists>s. computeFilteredGazePoint (Fin 240) (Fin 0) 800
        \<lparr>gazeHistory = [\<lparr>sx = Fin 0, sy = Fin 0, stime = 0\<rparr>,
          \<lparr>sx = Fin 120, sy = Fin 0, stime = 500\<rparr>],
         smoothedPoint = Some \<lparr>sx = Fin s0, sy = Fin 0, stime = 500\<rparr>\<rparr> =
      ((Fin s, Fin 0),
       \<lparr>gazeHistory = [\<lparr>sx = Fin 0, sy = Fin 0, stime = 0\<rparr>,
          \<lparr>sx = Fin 120, sy = Fin 0, stime = 500\<rparr>,
          \<lparr>sx = Fin 240, sy = Fin 0, stime = 800\<rparr>],
        smoothedPoint = Some \<lparr>sx = Fin s, sy = Fin 0, stime = 800\<rparr>\<rparr>)
     \<and> 129164853 / 1048576 \<le> s \<and> s \<le> 64584603 / 524288"
proof -
  let ?p = "\<lparr>sx = Fin s0, sy = Fin 0, stime = 500\<rparr>"
  let ?h = "[\<lparr>sx = Fin 0, sy = Fin 0, stime = 0\<rparr>,
          \<lparr>sx = Fin 120, sy = Fin 0, stime = 500\<rparr>,
          \<lparr>sx = Fin 240, sy = Fin 0, stime = 800\<rparr>]"
  have "\<exists>z. Fin 240 - Fin s0 = Fin z
      \<and> 24316635 / 131072 \<le> z \<and> z \<le> 189975 / 1024"
    by (rule sub_bounds[OF order_refl order_refl s0(1) s0(2)]) (simp_all add: grid_def)
  then obtain dX where dX: "Fin 240 - Fin s0 = Fin dX"
      "24316635 / 131072 \<le> dX" "dX \<le> 189975 / 1024"
    by blast
  have "\<exists>z. Math_hypot (Fin dX) (Fin 0) = Fin z
      \<and> 24316635 / 131072 \<le> z \<and> z \<le> 189975 / 1024"
    by (rule hypot0_bounds[OF dX(2) dX(3)]) (simp_all add: grid_def)
  then obtain dist where dist: "Math_hypot (Fin dX) (Fin 0) = Fin dist"
      "24316635 / 131072 \<le> dist" "dist \<le> 189975 / 1024"
    by blast
  have "\<exists>z. Fin dist / Fin 300 = Fin z
      \<and> 648443 / 1048576 \<le> z \<and> z \<le> 2533 / 4096"
    by (rule div_bounds[OF dist(2) dist(3) order_refl order_refl]) (simp_all add: grid_def)
  then obtain q where q: "Fin dist / Fin 300 = Fin q"
      "648443 / 1048576 \<le> q" "q \<le> 2533 / 4096"
    by blast
  have "\<exists>z. Fin q * Fin 1000 = Fin z
      \<and> 81055375 / 131072 \<le> z \<and> z \<le> 316625 / 512"
    by (rule mul_bounds[OF q(2) q(3) order_refl order_refl]) (simp_all add: grid_def)
  then obtain v where v: "Fin q * Fin 1000 = Fin v"
      "81055375 / 131072 \<le> v" "v \<le> 316625 / 512"
    by blast
  have "\<exists>z. Fin v / MAX_VELOCITY_PX_PER_S = Fin z
      \<and> 432295 / 1048576 \<le> z \<and> z \<le> 432299 / 1048576"
    unfolding MAX_VELOCITY_PX_PER_S_def
    by (rule div_bounds[OF v(2) v(3) order_refl order_refl]) (simp_all add: grid_def)
  then obtain x where x: "Fin v / MAX_VELOCITY_PX_PER_S = Fin x"
      "432295 / 1048576 \<le> x" "x \<le> 432299 / 1048576"
    by blast
  have "\<exists>z. Math_pow (Fin x) (3 / 2) = Fin z
      \<and> 138733 / 524288 \<le> z \<and> z \<le> 277575 / 1048576"
    by (rule pow15_bounds[OF x(2) x(3), where d = "2629 / 4096" and c = "1315 / 2048"])
       (simp_all add: grid_def)
  then obtain nv where nv: "Math_pow (Fin x) (3 / 2) = Fin nv"
      "138733 / 524288 \<le> nv" "nv \<le> 277575 / 1048576"
    by blast
  have "\<exists>z. Fin dist / Fin 100 = Fin z
      \<and> 972665 / 524288 \<le> z \<and> z \<le> 7599 / 4096"
    by (rule div_bounds[OF dist(2) dist(3) order_refl order_refl]) (simp_all add: grid_def)
  then obtain d100 where d100: "Fin dist / Fin 100 = Fin d100"
      "972665 / 524288 \<le> d100" "d100 \<le> 7599 / 4096"
    by blast
  have "\<exists>z. fl (3 / 10) = Fin z
      \<and> 78643 / 262144 \<le> z \<and> z \<le> 314573 / 1048576"
    by (rule fl_grid) (simp_all add: grid_def)
  then obtain c03 where c03: "fl (3 / 10) = Fin c03"
      "78643 / 262144 \<le> c03" "c03 \<le> 314573 / 1048576"
    by blast
  have "\<exists>z. fl (7 / 10) = Fin z
      \<and> 734003 / 1048576 \<le> z \<and> z \<le> 183501 / 262144"
    by (rule fl_grid) (simp_all add: grid_def)
  then obtain c07 where c07: "fl (7 / 10) = Fin c07"
      "734003 / 1048576 \<le> c07" "c07 \<le> 183501 / 262144"
    by blast
  have "\<exists>z. SMOOTH_MIN_ALPHA = Fin z
      \<and> 41943 / 524288 \<le> z \<and> z \<le> 83887 / 1048576"
    unfolding SMOOTH_MIN_ALPHA_def by (rule fl_grid) (simp_all add: grid_def)
  then obtain cmin where cmin: "SMOOTH_MIN_ALPHA = Fin cmin"
      "41943 / 524288 \<le> cmin" "cmin \<le> 83887 / 1048576"
    by blast
  have "\<exists>z. SMOOTH_MAX_ALPHA = Fin z
      \<and> 629145 / 1048576 \<le> z \<and> z \<le> 314573 / 524288"
    unfolding SMOOTH_MAX_ALPHA_def by (rule fl_grid) (simp_all add: grid_def)
  then obtain cmax where cmax: "SMOOTH_MAX_ALPHA = Fin cmax"
      "629145 / 1048576 \<le> cmax" "cmax \<le> 314573 / 524288"
    by blast
  have "\<exists>z. Fin c03 * Fin nv = Fin z
      \<and> 83239 / 1048576 \<le> z \<and> z \<le> 83273 / 1048576"
    by (rule mul_bounds[OF c03(2) c03(3) nv(2) nv(3)]) (simp_all add: grid_def)
  then obtain t1 where t1: "Fin c03 * Fin nv = Fin t1"
      "83239 / 1048576 \<le> t1" "t1 \<le> 83273 / 1048576"
    by blast
  have "\<exists>z. Fin c07 * Fin 1 = Fin z
      \<and> 734003 / 1048576 \<le> z \<and> z \<le> 183501 / 262144"
    by (rule mul_bounds[OF c07(2) c07(3) order_refl order_refl]) (simp_all add: grid_def)
  then obtain t2 where t2: "Fin c07 * Fin 1 = Fin t2"
      "734003 / 1048576 \<le> t2" "t2 \<le> 183501 / 262144"
    by blast
  have "\<exists>z. Fin t1 + Fin t2 = Fin z
      \<and> 408621 / 524288 \<le> z \<and> z \<le> 817277 / 1048576"
    by (rule add_bounds[OF t1(2) t1(3) t2(2) t2(3)]) (simp_all add: grid_def)
  then obtain t3 where t3: "Fin t1 + Fin t2 = Fin t3"
      "408621 / 524288 \<le> t3" "t3 \<le> 817277 / 1048576"
    by blast
  have "\<exists>z. Fin cmax - Fin cmin = Fin z
      \<and> 272629 / 524288 \<le> z \<and> z \<le> 136315 / 262144"
    by (rule sub_bounds[OF cmax(2) cmax(3) cmin(2) cmin(3)]) (simp_all add: grid_def)
  then obtain rng where rng: "Fin cmax - Fin cmin = Fin rng"
      "272629 / 524288 \<le> rng" "rng \<le> 136315 / 262144"
    by blast
  have "\<exists>z. Fin rng * Fin t3 = Fin z
      \<and> 106241 / 262144 \<le> z \<and> z \<le> 424985 / 1048576"
    by (rule mul_bounds[OF rng(2) rng(3) t3(2) t3(3)]) (simp_all add: grid_def)
  then obtain t4 where t4: "Fin rng * Fin t3 = Fin t4"
      "106241 / 262144 \<le> t4" "t4 \<le> 424985 / 1048576"
    by blast
  have "\<exists>z. Fin cmin + Fin t4 = Fin z
      \<and> 254425 / 524288 \<le> z \<and> z \<le> 63609 / 131072"
    by (rule add_bounds[OF cmin(2) cmin(3) t4(2) t4(3)]) (simp_all add: grid_def)
  then obtain a0 where a0: "Fin cmin + Fin t4 = Fin a0"
      "254425 / 524288 \<le> a0" "a0 \<le> 63609 / 131072"
    by blast
  have "\<exists>z. Fin a0 * Fin dX = Fin z
      \<and> 94402463 / 1048576 \<le> z \<and> z \<le> 47203593 / 524288"
    by (rule mul_bounds[OF a0(2) a0(3) dX(2) dX(3)]) (simp_all add: grid_def)
  then obtain m where m: "Fin a0 * Fin dX = Fin m"
      "94402463 / 1048576 \<le> m" "m \<le> 47203593 / 524288"
    by blast
  have "\<exists>z. Fin s0 + Fin m = Fin z
      \<and> 151526303 / 1048576 \<le> z \<and> z \<le> 75766173 / 524288"
    by (rule add_bounds[OF s0(1) s0(2) m(2) m(3)]) (simp_all add: grid_def)
  then obtain fX where fX: "Fin s0 + Fin m = Fin fX"
      "151526303 / 1048576 \<le> fX" "fX \<le> 75766173 / 524288"
    by blast
  have "\<exists>z. Fin (1 / 2) / Fin 2 = Fin z \<and> 1 / 4 \<le> z \<and> z \<le> 1 / 4"
    by (rule div_bounds[OF order_refl order_refl order_refl order_refl]) (simp_all add: grid_def)
  then obtain w0 where w0: "Fin (1 / 2) / Fin 2 = Fin w0"
      "1 / 4 \<le> w0" "w0 \<le> 1 / 4"
    by blast
  have "\<exists>z. Fin 120 * Fin w0 = Fin z \<and> 30 \<le> z \<and> z \<le> 30"
    by (rule mul_bounds[OF order_refl order_refl w0(2) w0(3)]) (simp_all add: grid_def)
  then obtain pw0 where pw0: "Fin 120 * Fin w0 = Fin pw0" "30 \<le> pw0" "pw0 \<le> 30"
    by blast
  have "\<exists>z. Fin fX + Fin pw0 = Fin z
      \<and> 182983583 / 1048576 \<le> z \<and> z \<le> 91494813 / 524288"
    by (rule add_bounds[OF fX(2) fX(3) pw0(2) pw0(3)]) (simp_all add: grid_def)
  then obtain avg0 where avg0: "Fin fX + Fin pw0 = Fin avg0"
      "182983583 / 1048576 \<le> avg0" "avg0 \<le> 91494813 / 524288"
    by blast
  have "\<exists>z. Fin 1 + Fin w0 = Fin z \<and> 5 / 4 \<le> z \<and> z \<le> 5 / 4"
    by (rule add_bounds[OF order_refl order_refl w0(2) w0(3)]) (simp_all add: grid_def)
  then obtain cnt0 where cnt0: "Fin 1 + Fin w0 = Fin cnt0"
      "5 / 4 \<le> cnt0" "cnt0 \<le> 5 / 4"
    by blast
  have "\<exists>z. Fin (1 / 2) / Fin 3 = Fin z
      \<and> 87381 / 524288 \<le> z \<and> z \<le> 174763 / 1048576"
    by (rule div_bounds[OF order_refl order_refl order_refl order_refl]) (simp_all add: grid_def)
  then obtain w1 where w1: "Fin (1 / 2) / Fin 3 = Fin w1"
      "87381 / 524288 \<le> w1" "w1 \<le> 174763 / 1048576"
    by blast
  have "\<exists>z. Fin avg0 + Fin 0 = Fin z
      \<and> 182983583 / 1048576 \<le> z \<and> z \<le> 91494813 / 524288"
    by (rule add_bounds[OF avg0(2) avg0(3) order_refl order_refl]) (simp_all add: grid_def)
  then obtain avg1 where avg1: "Fin avg0 + Fin 0 = Fin avg1"
      "182983583 / 1048576 \<le> avg1" "avg1 \<le> 91494813 / 524288"
    by blast
  have "\<exists>z. Fin cnt0 + Fin w1 = Fin z
      \<and> 742741 / 524288 \<le> z \<and> z \<le> 1485483 / 1048576"
    by (rule add_bounds[OF cnt0(2) cnt0(3) w1(2) w1(3)]) (simp_all add: grid_def)
  then obtain cnt1 where cnt1: "Fin cnt0 + Fin w1 = Fin cnt1"
      "742741 / 524288 \<le> cnt1" "cnt1 \<le> 1485483 / 1048576"
    by blast
  have "\<exists>z. Fin avg1 / Fin cnt1 = Fin z
      \<and> 129164853 / 1048576 \<le> z \<and> z \<le> 64584603 / 524288"
    by (rule div_bounds[OF avg1(2) avg1(3) cnt1(2) cnt1(3)]) (simp_all add: grid_def)
  then obtain res where res: "Fin avg1 / Fin cnt1 = Fin res"
      "129164853 / 1048576 \<le> res" "res \<le> 64584603 / 524288"
    by blast
  have cv: "clamp (Fin v) (Fin 0) MAX_VELOCITY_PX_PER_S = Fin v"
    unfolding MAX_VELOCITY_PX_PER_S_def using v(2,3) by (intro clamp_mid) simp_all
  have cd: "clamp (Fin d100) (Fin 0) (Fin 1) = Fin 1"
    using d100(2) by (intro clamp_top) simp_all
  have ca: "clamp (Fin a0) (Fin cmin) (Fin cmax) = Fin a0"
    using a0(2,3) cmin(3) cmax(2) by (intro clamp_mid) simp_all
  have ex: "\<not> isExtremeSaccade (Fin 240) (Fin 0) 800 ?p"
    using dist(3) v(3)
    by (simp add: isExtremeSaccade_def distanceFrom_def velocityFrom_def of_ms_def dX(1) dist(1)
        q(1) v(1) snap_distance snap_velocity4 del: Math_hypot.simps)
  have fast: "MAX_VELOCITY_PX_PER_S * fl (3 / 10) < Fin v"
    using v(2) by (simp add: average_velocity)
  have zd: "Fin 0 / Fin cnt1 = Fin 0"
    using cnt1(2) by (intro zero_div) simp
  have step: "smoothStep (Fin 240) (Fin 0) 800 ?h ?p = (Fin res, Fin 0)"
    using ex fast
    using cnt1(2)
    by (simp add: smoothStep_def Let_def distanceFrom_def velocityFrom_def of_ms_def
        dX(1) dist(1) q(1) v(1) x(1) nv(1) d100(1) c03(1) c07(1) cmin(1) cmax(1) t1(1) t2(1)
        t3(1) rng(1) t4(1) a0(1) m(1) fX(1) w0(1) pw0(1) avg0(1) cnt0(1) w1(1) avg1(1)
        cnt1(1) res(1) cv cd ca movingAverage_def addRecent_def recent_indices zd
        del: Math_hypot.simps Math_pow.simps)
  have acc: "acceptedHistory (Fin 240) (Fin 0) 800
         [\<lparr>sx = Fin 0, sy = Fin 0, stime = 0\<rparr>,
          \<lparr>sx = Fin 120, sy = Fin 0, stime = 500\<rparr>] = ?h"
    by (simp add: acceptedHistory_keep MAX_HISTORY_POINTS_def GAZE_HISTORY_MS_def)
  have no: "\<not> isOutlier (Fin 240) (Fin 0) [\<lparr>sx = Fin 0, sy = Fin 0, stime = 0\<rparr>,
          \<lparr>sx = Fin 120, sy = Fin 0, stime = 500\<rparr>]"
    by (simp add: isOutlier_def distanceFrom_def OUTLIER_THRESHOLD_PX_def js_ops fl_int)
  have nf: "fixationCentroid 800 (windowPointsOf 800 ?h) = None"
    by (rule no_fixation_short) (simp add: MIN_FIXATION_SAMPLES_def)
  have "computeFilteredGazePoint (Fin 240) (Fin 0) 800
        \<lparr>gazeHistory = [\<lparr>sx = Fin 0, sy = Fin 0, stime = 0\<rparr>,
          \<lparr>sx = Fin 120, sy = Fin 0, stime = 500\<rparr>],
         smoothedPoint = Some \<lparr>sx = Fin s0, sy = Fin 0, stime = 500\<rparr>\<rparr> =
      ((Fin res, Fin 0),
       \<lparr>gazeHistory = ?h,
        smoothedPoint = Some \<lparr>sx = Fin res, sy = Fin 0, stime = 800\<rparr>\<rparr>)"
    using cfgp_smooth[of "Fin 240" "Fin 0"
        "\<lparr>gazeHistory = [\<lparr>sx = Fin 0, sy = Fin 0, stime = 0\<rparr>,
          \<lparr>sx = Fin 120, sy = Fin 0, stime = 500\<rparr>],
         smoothedPoint = Some \<lparr>sx = Fin s0, sy = Fin 0, stime = 500\<rparr>\<rparr>"
        ?p 800 "(Fin res, Fin 0)"] no nf step
    by (simp add: acc GAZE_HISTORY_MS_def)
  then show ?thesis
    using res(2) res(3) by blast
qed

lemma drift_step3:
  assumes s0: "129164853 / 1048576 \<le> s0" "s0 \<le> 64584603 / 524288"
  shows "\<exists>s. computeFilteredGazePoint (Fin 360) (Fin 0) 1200
        \<lparr>gazeHistory = [\<lparr>sx = Fin 0, sy = Fin 0, stime = 0\<rparr>,
          \<lparr>sx = Fin 120, sy = Fin 0, stime = 500\<rparr>,
          \<lparr>sx = Fin 240, sy = Fin 0, stime = 800\<rparr>],
         smoothedPoint = Some \<lparr>sx = Fin s0, sy = Fin 0, stime = 800\<rparr>\<rparr> =
      ((Fin s, Fin 0),
       \<lparr>gazeHistory = [\<lparr>sx = Fin 0, sy = Fin 0, stime = 0\<rparr>,
          \<lparr>sx = Fin 120, sy = Fin 0, stime = 500\<rparr>,
          \<lparr>sx = Fin 240, sy = Fin 0, stime = 800\<rparr>,
          \<lparr>sx = Fin 360, sy = Fin 0, stime = 1200\<rparr>],
        smoothedPoint = Some \<lparr>sx = Fin s, sy = Fin 0, stime = 1200\<rparr>\<rparr>)
     \<and> 107970125 / 524288 \<le> s \<and> s \<le> 215947875 / 1048576"
proof -
  let ?p = "\<lparr>sx = Fin s0, sy = Fin 0, stime = 800\<rparr>"
  let ?h = "[\<lparr>sx = Fin 0, sy = Fin 0, stime = 0\<rparr>,
          \<lparr>sx = Fin 120, sy = Fin 0, stime = 500\<rparr>,
          \<lparr>sx = Fin 240, sy = Fin 0, stime = 800\<rparr>,
          \<lparr>sx = Fin 360, sy = Fin 0, stime = 1200\<rparr>]"
  have "\<exists>z. Fin 360 - Fin s0 = Fin z
      \<and> 124159077 / 524288 \<le> z \<and> z \<le> 248322507 / 1048576"
    by (rule sub_bounds[OF order_refl order_refl s0(1) s0(2)]) (simp_all add: grid_def)
  then obtain dX where dX: "Fin 360 - Fin s0 = Fin dX"
      "124159077 / 524288 \<le> dX" "dX \<le> 248322507 / 1048576"
    by blast
  have "\<exists>z. Math_hypot (Fin dX) (Fin 0) = Fin z
      \<and> 124159077 / 524288 \<le> z \<and> z \<le> 248322507 / 1048576"
    by (rule hypot0_bounds[OF dX(2) dX(3)]) (simp_all add: grid_def)
  then obtain dist where dist: "Math_hypot (Fin dX) (Fin 0) = Fin dist"
      "124159077 / 524288 \<le> dist" "dist \<le> 248322507 / 1048576"
    by blast
  have "\<exists>z. Fin dist / Fin 400 = Fin z
      \<and> 620795 / 1048576 \<le> z \<and> z \<le> 620807 / 1048576"
    by (rule div_bounds[OF dist(2) dist(3) order_refl order_refl]) (simp_all add: grid_def)
  then obtain q where q: "Fin dist / Fin 400 = Fin q"
      "620795 / 1048576 \<le> q" "q \<le> 620807 / 1048576"
    by blast
  have "\<exists>z. Fin q * Fin 1000 = Fin z
      \<and> 77599375 / 131072 \<le> z \<and> z \<le> 77600875 / 131072"
    by (rule mul_bounds[OF q(2) q(3) order_refl order_refl]) (simp_all add: grid_def)
  then obtain v where v: "Fin q * Fin 1000 = Fin v"
      "77599375 / 131072 \<le> v" "v \<le> 77600875 / 131072"
    by blast
  have "\<exists>z. Fin v / MAX_VELOCITY_PX_PER_S = Fin z
      \<and> 413863 / 1048576 \<le> z \<and> z \<le> 25867 / 65536"
    unfolding MAX_VELOCITY_PX_PER_S_def
    by (rule div_bounds[OF v(2) v(3) order_refl order_refl]) (simp_all add: grid_def)
  then obtain x where x: "Fin v / MAX_VELOCITY_PX_PER_S = Fin x"
      "413863 / 1048576 \<le> x" "x \<le> 25867 / 65536"
    by blast
  have "\<exists>z. Math_pow (Fin x) (3 / 2) = Fin z
      \<and> 259977 / 1048576 \<le> z \<and> z \<le> 260085 / 1048576"
    by (rule pow15_bounds[OF x(2) x(3), where d = "2573 / 4096" and c = "1287 / 2048"])
       (simp_all add: grid_def)
  then obtain nv where nv: "Math_pow (Fin x) (3 / 2) = Fin nv"
      "259977 / 1048576 \<le> nv" "nv \<le> 260085 / 1048576"
    by blast
  have "\<exists>z. Fin dist / Fin 100 = Fin z
      \<and> 2483181 / 1048576 \<le> z \<and> z \<le> 1241613 / 524288"
    by (rule div_bounds[OF dist(2) dist(3) order_refl order_refl]) (simp_all add: grid_def)
  then obtain d100 where d100: "Fin dist / Fin 100 = Fin d100"
      "2483181 / 1048576 \<le> d100" "d100 \<le> 1241613 / 524288"
    by blast
  have "\<exists>z. fl (3 / 10) = Fin z
      \<and> 78643 / 262144 \<le> z \<and> z \<le> 314573 / 1048576"
    by (rule fl_grid) (simp_all add: grid_def)
  then obtain c03 where c03: "fl (3 / 10) = Fin c03"
      "78643 / 262144 \<le> c03" "c03 \<le> 314573 / 1048576"
    by blast
  have "\<exists>z. fl (7 / 10) = Fin z
      \<and> 734003 / 1048576 \<le> z \<and> z \<le> 183501 / 262144"
    by (rule fl_grid) (simp_all add: grid_def)
  then obtain c07 where c07: "fl (7 / 10) = Fin c07"
      "734003 / 1048576 \<le> c07" "c07 \<le> 183501 / 262144"
    by blast
  have "\<exists>z. SMOOTH_MIN_ALPHA = Fin z
      \<and> 41943 / 524288 \<le> z \<and> z \<le> 83887 / 1048576"
    unfolding SMOOTH_MIN_ALPHA_def by (rule fl_grid) (simp_all add: grid_def)
  then obtain cmin where cmin: "SMOOTH_MIN_ALPHA = Fin cmin"
      "41943 / 524288 \<le> cmin" "cmin \<le> 83887 / 1048576"
    by blast
  have "\<exists>z. SMOOTH_MAX_ALPHA = Fin z
      \<and> 629145 / 1048576 \<le> z \<and> z \<le> 314573 / 524288"
    unfolding SMOOTH_MAX_ALPHA_def by (rule fl_grid) (simp_all add: grid_def)
  then obtain cmax where cmax: "SMOOTH_MAX_ALPHA = Fin cmax"
      "629145 / 1048576 \<le> cmax" "cmax \<le> 314573 / 524288"
    by blast
  have "\<exists>z. Fin c03 * Fin nv = Fin z
      \<and> 9749 / 131072 \<le> z \<and> z \<le> 39013 / 524288"
    by (rule mul_bounds[OF c03(2) c03(3) nv(2) nv(3)]) (simp_all add: grid_def)
  then obtain t1 where t1: "Fin c03 * Fin nv = Fin t1"
      "9749 / 131072 \<le> t1" "t1 \<le> 39013 / 524288"
    by blast
  have "\<exists>z. Fin c07 * Fin 1 = Fin z
      \<and> 734003 / 1048576 \<le> z \<and> z \<le> 183501 / 262144"
    by (rule mul_bounds[OF c07(2) c07(3) order_refl order_refl]) (simp_all add: grid_def)
  then obtain t2 where t2: "Fin c07 * Fin 1 = Fin t2"
      "734003 / 1048576 \<le> t2" "t2 \<le> 183501 / 262144"
    by blast
  have "\<exists>z. Fin t1 + Fin t2 = Fin z
      \<and> 811995 / 1048576 \<le> z \<and> z \<le> 406015 / 524288"
    by (rule add_bounds[OF t1(2) t1(3) t2(2) t2(3)]) (simp_all add: grid_def)
  then obtain t3 where t3: "Fin t1 + Fin t2 = Fin t3"
      "811995 / 1048576 \<le> t3" "t3 \<le> 406015 / 524288"
    by blast
  have "\<exists>z. Fin cmax - Fin cmin = Fin z
      \<and> 272629 / 524288 \<le> z \<and> z \<le> 136315 / 262144"
    by (rule sub_bounds[OF cmax(2) cmax(3) cmin(2) cmin(3)]) (simp_all add: grid_def)
  then obtain rng where rng: "Fin cmax - Fin cmin = Fin rng"
      "272629 / 524288 \<le> rng" "rng \<le> 136315 / 262144"
    by blast
  have "\<exists>z. Fin rng * Fin t3 = Fin z
      \<and> 105559 / 262144 \<le> z \<and> z \<le> 26391 / 65536"
    by (rule mul_bounds[OF rng(2) rng(3) t3(2) t3(3)]) (simp_all add: grid_def)
  then obtain t4 where t4: "Fin rng * Fin t3 = Fin t4"
      "105559 / 262144 \<le> t4" "t4 \<le> 26391 / 65536"
    by blast
  have "\<exists>z. Fin cmin + Fin t4 = Fin z
      \<and> 253061 / 524288 \<le> z \<and> z \<le> 506143 / 1048576"
    by (rule add_bounds[OF cmin(2) cmin(3) t4(2) t4(3)]) (simp_all add: grid_def)
  then obtain a0 where a0: "Fin cmin + Fin t4 = Fin a0"
      "253061 / 524288 \<le> a0" "a0 \<le> 506143 / 1048576"
    by blast
  have "\<exists>z. Fin a0 * Fin dX = Fin z
      \<and> 59928551 / 524288 \<le> z \<and> z \<le> 119864177 / 1048576"
    by (rule mul_bounds[OF a0(2) a0(3) dX(2) dX(3)]) (simp_all add: grid_def)
  then obtain m where m: "Fin a0 * Fin dX = Fin m"
      "59928551 / 524288 \<le> m" "m \<le> 119864177 / 1048576"
    by blast
  have "\<exists>z. Fin s0 + Fin m = Fin z
      \<and> 249021955 / 1048576 \<le> z \<and> z \<le> 249033383 / 1048576"
    by (rule add_bounds[OF s0(1) s0(2) m(2) m(3)]) (simp_all add: grid_def)
  then obtain fX where fX: "Fin s0 + Fin m = Fin fX"
      "249021955 / 1048576 \<le> fX" "fX \<le> 249033383 / 1048576"
    by blast
  have "\<exists>z. Fin (1 / 2) / Fin 2 = Fin z \<and> 1 / 4 \<le> z \<and> z \<le> 1 / 4"
    by (rule div_bounds[OF order_refl order_refl order_refl order_refl]) (simp_all add: grid_def)
  then obtain w0 where w0: "Fin (1 / 2) / Fin 2 = Fin w0"
      "1 / 4 \<le> w0" "w0 \<le> 1 / 4"
    by blast
  have "\<exists>z. Fin 240 * Fin w0 = Fin z \<and> 60 \<le> z \<and> z \<le> 60"
    by (rule mul_bounds[OF order_refl order_refl w0(2) w0(3)]) (simp_all add: grid_def)
  then obtain pw0 where pw0: "Fin 240 * Fin w0 = Fin pw0" "60 \<le> pw0" "pw0 \<le> 60"
    by blast
  have "\<exists>z. Fin fX + Fin pw0 = Fin z
      \<and> 311936515 / 1048576 \<le> z \<and> z \<le> 311947943 / 1048576"
    by (rule add_bounds[OF fX(2) fX(3) pw0(2) pw0(3)]) (simp_all add: grid_def)
  then obtain avg0 where avg0: "Fin fX + Fin pw0 = Fin avg0"
      "311936515 / 1048576 \<le> avg0" "avg0 \<le> 311947943 / 1048576"
    by blast
  have "\<exists>z. Fin 1 + Fin w0 = Fin z \<and> 5 / 4 \<le> z \<and> z \<le> 5 / 4"
    by (rule add_bounds[OF order_refl order_refl w0(2) w0(3)]) (simp_all add: grid_def)
  then obtain cnt0 where cnt0: "Fin 1 + Fin w0 = Fin cnt0"
      "5 / 4 \<le> cnt0" "cnt0 \<le> 5 / 4"
    by blast
  have "\<exists>z. Fin (1 / 2) / Fin 3 = Fin z
      \<and> 87381 / 524288 \<le> z \<and> z \<le> 174763 / 1048576"
    by (rule div_bounds[OF order_refl order_refl order_refl order_refl]) (simp_all add: grid_def)
  then obtain w1 where w1: "Fin (1 / 2) / Fin 3 = Fin w1"
      "87381 / 524288 \<le> w1" "w1 \<le> 174763 / 1048576"
    by blast
  have "\<exists>z. Fin 120 * Fin w1 = Fin z
      \<and> 1310715 / 65536 \<le> z \<and> z \<le> 2621445 / 131072"
    by (rule mul_bounds[OF order_refl order_refl w1(2) w1(3)]) (simp_all add: grid_def)
  then obtain pw1 where pw1: "Fin 120 * Fin w1 = Fin pw1"
      "1310715 / 65536 \<le> pw1" "pw1 \<le> 2621445 / 131072"
    by blast
  have "\<exists>z. Fin avg0 + Fin pw1 = Fin z
      \<and> 332907955 / 1048576 \<le> z \<and> z \<le> 332919503 / 1048576"
    by (rule add_bounds[OF avg0(2) avg0(3) pw1(2) pw1(3)]) (simp_all add: grid_def)
  then obtain avg1 where avg1: "Fin avg0 + Fin pw1 = Fin avg1"
      "332907955 / 1048576 \<le> avg1" "avg1 \<le> 332919503 / 1048576"
    by blast
  have "\<exists>z. Fin cnt0 + Fin w1 = Fin z
      \<and> 742741 / 524288 \<le> z \<and> z \<le> 1485483 / 1048576"
    by (rule add_bounds[OF cnt0(2) cnt0(3) w1(2) w1(3)]) (simp_all add: grid_def)
  then obtain cnt1 where cnt1: "Fin cnt0 + Fin w1 = Fin cnt1"
      "742741 / 524288 \<le> cnt1" "cnt1 \<le> 1485483 / 1048576"
    by blast
  have "\<exists>z. Fin (1 / 2) / Fin 4 = Fin z \<and> 1 / 8 \<le> z \<and> z \<le> 1 / 8"
    by (rule div_bounds[OF order_refl order_refl order_refl order_refl]) (simp_all add: grid_def)
  then obtain w2 where w2: "Fin (1 / 2) / Fin 4 = Fin w2"
      "1 / 8 \<le> w2" "w2 \<le> 1 / 8"
    by blast
  have "\<exists>z. Fin avg1 + Fin 0 = Fin z
      \<and> 332907955 / 1048576 \<le> z \<and> z \<le> 332919503 / 1048576"
    by (rule add_bounds[OF avg1(2) avg1(3) order_refl order_refl]) (simp_all add: grid_def)
  then obtain avg2 where avg2: "Fin avg1 + Fin 0 = Fin avg2"
      "332907955 / 1048576 \<le> avg2" "avg2 \<le> 332919503 / 1048576"
    by blast
  have "\<exists>z. Fin cnt1 + Fin w2 = Fin z
      \<and> 808277 / 524288 \<le> z \<and> z \<le> 1616555 / 1048576"
    by (rule add_bounds[OF cnt1(2) cnt1(3) w2(2) w2(3)]) (simp_all add: grid_def)
  then obtain cnt2 where cnt2: "Fin cnt1 + Fin w2 = Fin cnt2"
      "808277 / 524288 \<le> cnt2" "cnt2 \<le> 1616555 / 1048576"
    by blast
  have "\<exists>z. Fin avg2 / Fin cnt2 = Fin z
      \<and> 107970125 / 524288 \<le> z \<and> z \<le> 215947875 / 1048576"
    by (rule div_bounds[OF avg2(2) avg2(3) cnt2(2) cnt2(3)]) (simp_all add: grid_def)
  then obtain res where res: "Fin avg2 / Fin cnt2 = Fin res"
      "107970125 / 524288 \<le> res" "res \<le> 215947875 / 1048576"
    by blast
  have cv: "clamp (Fin v) (Fin 0) MAX_VELOCITY_PX_PER_S = Fin v"
    unfolding MAX_VELOCITY_PX_PER_S_def using v(2,3) by (intro clamp_mid) simp_all
  have cd: "clamp (Fin d100) (Fin 0) (Fin 1) = Fin 1"
    using d100(2) by (intro clamp_top) simp_all
  have ca: "clamp (Fin a0) (Fin cmin) (Fin cmax) = Fin a0"
    using a0(2,3) cmin(3) cmax(2) by (intro clamp_mid) simp_all
  have ex: "\<not> isExtremeSaccade (Fin 360) (Fin 0) 1200 ?p"
    using dist(3) v(3)
    by (simp add: isExtremeSaccade_def distanceFrom_def velocityFrom_def of_ms_def dX(1) dist(1)
        q(1) v(1) snap_distance snap_velocity4 del: Math_hypot.simps)
  have fast: "MAX_VELOCITY_PX_PER_S * fl (3 / 10) < Fin v"
    using v(2) by (simp add: average_velocity)
  have zd: "Fin 0 / Fin cnt2 = Fin 0"
    using cnt2(2) by (intro zero_div) simp
  have step: "smoothStep (Fin 360) (Fin 0) 1200 ?h ?p = (Fin res, Fin 0)"
    using ex fast
    using cnt2(2)
    by (simp add: smoothStep_def Let_def distanceFrom_def velocityFrom_def of_ms_def
        dX(1) dist(1) q(1) v(1) x(1) nv(1) d100(1) c03(1) c07(1) cmin(1) cmax(1) t1(1) t2(1)
        t3(1) rng(1) t4(1) a0(1) m(1) fX(1) w0(1) pw0(1) avg0(1) cnt0(1) w1(1) pw1(1)
        avg1(1) cnt1(1) w2(1) avg2(1) cnt2(1) res(1) cv cd ca movingAverage_def
        addRecent_def recent_indices zd
        del: Math_hypot.simps Math_pow.simps)
  have acc: "acceptedHistory (Fin 360) (Fin 0) 1200
         [\<lparr>sx = Fin 0, sy = Fin 0, stime = 0\<rparr>,
          \<lparr>sx = Fin 120, sy = Fin 0, stime = 500\<rparr>,
          \<lparr>sx = Fin 240, sy = Fin 0, stime = 800\<rparr>] = ?h"
    by (simp add: acceptedHistory_keep MAX_HISTORY_POINTS_def GAZE_HISTORY_MS_def)
  have no: "\<not> isOutlier (Fin 360) (Fin 0) [\<lparr>sx = Fin 0, sy = Fin 0, stime = 0\<rparr>,
          \<lparr>sx = Fin 120, sy = Fin 0, stime = 500\<rparr>,
          \<lparr>sx = Fin 240, sy = Fin 0, stime = 800\<rparr>]"
    by (simp add: isOutlier_def distanceFrom_def OUTLIER_THRESHOLD_PX_def js_ops fl_int)
  have nf: "fixationCentroid 1200 (windowPointsOf 1200 ?h) = None"
    by (rule no_fixation_short) (simp add: MIN_FIXATION_SAMPLES_def)
  have "computeFilteredGazePoint (Fin 360) (Fin 0) 1200
        \<lparr>gazeHistory = [\<lparr>sx = Fin 0, sy = Fin 0, stime = 0\<rparr>,
          \<lparr>sx = Fin 120, sy = Fin 0, stime = 500\<rparr>,
          \<lparr>sx = Fin 240, sy = Fin 0, stime = 800\<rparr>],
         smoothedPoint = Some \<lparr>sx = Fin s0, sy = Fin 0, stime = 800\<rparr>\<rparr> =
      ((Fin res, Fin 0),
       \<lparr>gazeHistory = ?h,
        smoothedPoint = Some \<lparr>sx = Fin res, sy = Fin 0, stime = 1200\<rparr>\<rparr>)"
    using cfgp_smooth[of "Fin 360" "Fin 0"
        "\<lparr>gazeHistory = [\<lparr>sx = Fin 0, sy = Fin 0, stime = 0\<rparr>,
          \<lparr>sx = Fin 120, sy = Fin 0, stime = 500\<rparr>,
          \<lparr>sx = Fin 240, sy = Fin 0, stime = 800\<rparr>],
         smoothedPoint = Some \<lparr>sx = Fin s0, sy = Fin 0, stime = 800\<rparr>\<rparr>"
        ?p 1200 "(Fin res, Fin 0)"] no nf step
    by (simp add: acc GAZE_HISTORY_MS_def)
  then show ?thesis
    using res(2) res(3) by blast
qed

lemma drift_step4:
  assumes s0: "107970125 / 524288 \<le> s0" "s0 \<le> 215947875 / 1048576"
  shows "\<exists>s. computeFilteredGazePoint (Fin 480) (Fin 0) 1700
        \<lparr>gazeHistory = [\<lparr>sx = Fin 0, sy = Fin 0, stime = 0\<rparr>,
          \<lparr>sx = Fin 120, sy = Fin 0, stime = 500\<rparr>,
          \<lparr>sx = Fin 240, sy = Fin 0, stime = 800\<rparr>,
          \<lparr>sx = Fin 360, sy = Fin 0, stime = 1200\<rparr>],
         smoothedPoint = Some \<lparr>sx = Fin s0, sy = Fin 0, stime = 1200\<rparr>\<rparr> =
      ((Fin s, Fin 0),
       \<lparr>gazeHistory = [\<lparr>sx = Fin 0, sy = Fin 0, stime = 0\<rparr>,
          \<lparr>sx = Fin 120, sy = Fin 0, stime = 500\<rparr>,
          \<lparr>sx = Fin 240, sy = Fin 0, stime = 800\<rparr>,
          \<lparr>sx = Fin 360, sy = Fin 0, stime = 1200\<rparr>,
          \<lparr>sx = Fin 480, sy = Fin 0, stime = 1700\<rparr>],
        smoothedPoint = Some \<lparr>sx = Fin s, sy = Fin 0, stime = 1700\<rparr>\<rparr>)
     \<and> 327874229 / 1048576 \<le> s \<and> s \<le> 327888123 / 1048576"
proof -
  let ?p = "\<lparr>sx = Fin s0, sy = Fin 0, stime = 1200\<rparr>"
  let ?h = "[\<lparr>sx = Fin 0, sy = Fin 0, stime = 0\<rparr>,
          \<lparr>sx = Fin 120, sy = Fin 0, stime = 500\<rparr>,
          \<lparr>sx = Fin 240, sy = Fin 0, stime = 800\<rparr>,
          \<lparr>sx = Fin 360, sy = Fin 0, stime = 1200\<rparr>,
          \<lparr>sx = Fin 480, sy = Fin 0, stime = 1700\<rparr>]"
  have "\<exists>z. Fin 480 - Fin s0 = Fin z
      \<and> 287368605 / 1048576 \<le> z \<and> z \<le> 143688115 / 524288"
    by (rule sub_bounds[OF order_refl order_refl s0(1) s0(2)]) (simp_all add: grid_def)
  then obtain dX where dX: "Fin 480 - Fin s0 = Fin dX"
      "287368605 / 1048576 \<le> dX" "dX \<le> 143688115 / 524288"
    by blast
  have "\<exists>z. Math_hypot (Fin dX) (Fin 0) = Fin z
      \<and> 287368605 / 1048576 \<le> z \<and> z \<le> 143688115 / 524288"
    by (rule hypot0_bounds[OF dX(2) dX(3)]) (simp_all add: grid_def)
  then obtain dist where dist: "Math_hypot (Fin dX) (Fin 0) = Fin dist"
      "287368605 / 1048576 \<le> dist" "dist \<le> 143688115 / 524288"
    by blast
  have "\<exists>z. Fin dist / Fin 500 = Fin z
      \<and> 574737 / 1048576 \<le> z \<and> z \<le> 574753 / 1048576"
    by (rule div_bounds[OF dist(2) dist(3) order_refl order_refl]) (simp_all add: grid_def)
  then obtain q where q: "Fin dist / Fin 500 = Fin q"
      "574737 / 1048576 \<le> q" "q \<le> 574753 / 1048576"
    by blast
  have "\<exists>z. Fin q * Fin 1000 = Fin z
      \<and> 71842125 / 131072 \<le> z \<and> z \<le> 71844125 / 131072"
    by (rule mul_bounds[OF q(2) q(3) order_refl order_refl]) (simp_all add: grid_def)
  then obtain v where v: "Fin q * Fin 1000 = Fin v"
      "71842125 / 131072 \<le> v" "v \<le> 71844125 / 131072"
    by blast
  have "\<exists>z. Fin v / MAX_VELOCITY_PX_PER_S = Fin z
      \<and> 191579 / 524288 \<le> z \<and> z \<le> 383169 / 1048576"
    unfolding MAX_VELOCITY_PX_PER_S_def
    by (rule div_bounds[OF v(2) v(3) order_refl order_refl]) (simp_all add: grid_def)
  then obtain x where x: "Fin v / MAX_VELOCITY_PX_PER_S = Fin x"
      "191579 / 524288 \<le> x" "x \<le> 383169 / 1048576"
    by blast
  have "\<exists>z. Math_pow (Fin x) (3 / 2) = Fin z
      \<and> 115761 / 524288 \<le> z \<and> z \<le> 231717 / 1048576"
    by (rule pow15_bounds[OF x(2) x(3), where d = "2475 / 4096" and c = "2477 / 4096"])
       (simp_all add: grid_def)
  then obtain nv where nv: "Math_pow (Fin x) (3 / 2) = Fin nv"
      "115761 / 524288 \<le> nv" "nv \<le> 231717 / 1048576"
    by blast
  have "\<exists>z. Fin dist / Fin 100 = Fin z
      \<and> 1436843 / 524288 \<le> z \<and> z \<le> 2873763 / 1048576"
    by (rule div_bounds[OF dist(2) dist(3) order_refl order_refl]) (simp_all add: grid_def)
  then obtain d100 where d100: "Fin dist / Fin 100 = Fin d100"
      "1436843 / 524288 \<le> d100" "d100 \<le> 2873763 / 1048576"
    by blast
  have "\<exists>z. fl (3 / 10) = Fin z
      \<and> 78643 / 262144 \<le> z \<and> z \<le> 314573 / 1048576"
    by (rule fl_grid) (simp_all add: grid_def)
  then obtain c03 where c03: "fl (3 / 10) = Fin c03"
      "78643 / 262144 \<le> c03" "c03 \<le> 314573 / 1048576"
    by blast
  have "\<exists>z. fl (7 / 10) = Fin z
      \<and> 734003 / 1048576 \<le> z \<and> z \<le> 183501 / 262144"
    by (rule fl_grid) (simp_all add: grid_def)
  then obtain c07 where c07: "fl (7 / 10) = Fin c07"
      "734003 / 1048576 \<le> c07" "c07 \<le> 183501 / 262144"
    by blast
  have "\<exists>z. SMOOTH_MIN_ALPHA = Fin z
      \<and> 41943 / 524288 \<le> z \<and> z \<le> 83887 / 1048576"
    unfolding SMOOTH_MIN_ALPHA_def by (rule fl_grid) (simp_all add: grid_def)
  then obtain cmin where cmin: "SMOOTH_MIN_ALPHA = Fin cmin"
      "41943 / 524288 \<le> cmin" "cmin \<le> 83887 / 1048576"
    by blast
  have "\<exists>z. SMOOTH_MAX_ALPHA = Fin z
      \<and> 629145 / 1048576 \<le> z \<and> z \<le> 314573 / 524288"
    unfolding SMOOTH_MAX_ALPHA_def by (rule fl_grid) (simp_all add: grid_def)
  then obtain cmax where cmax: "SMOOTH_MAX_ALPHA = Fin cmax"
      "629145 / 1048576 \<le> cmax" "cmax \<le> 314573 / 524288"
    by blast
  have "\<exists>z. Fin c03 * Fin nv = Fin z
      \<and> 4341 / 65536 \<le> z \<and> z \<le> 17379 / 262144"
    by (rule mul_bounds[OF c03(2) c03(3) nv(2) nv(3)]) (simp_all add: grid_def)
  then obtain t1 where t1: "Fin c03 * Fin nv = Fin t1"
      "4341 / 65536 \<le> t1" "t1 \<le> 17379 / 262144"
    by blast
  have "\<exists>z. Fin c07 * Fin 1 = Fin z
      \<and> 734003 / 1048576 \<le> z \<and> z \<le> 183501 / 262144"
    by (rule mul_bounds[OF c07(2) c07(3) order_refl order_refl]) (simp_all add: grid_def)
  then obtain t2 where t2: "Fin c07 * Fin 1 = Fin t2"
      "734003 / 1048576 \<le> t2" "t2 \<le> 183501 / 262144"
    by blast
  have "\<exists>z. Fin t1 + Fin t2 = Fin z
      \<and> 803459 / 1048576 \<le> z \<and> z \<le> 12555 / 16384"
    by (rule add_bounds[OF t1(2) t1(3) t2(2) t2(3)]) (simp_all add: grid_def)
  then obtain t3 where t3: "Fin t1 + Fin t2 = Fin t3"
      "803459 / 1048576 \<le> t3" "t3 \<le> 12555 / 16384"
    by blast
  have "\<exists>z. Fin cmax - Fin cmin = Fin z
      \<and> 272629 / 524288 \<le> z \<and> z \<le> 136315 / 262144"
    by (rule sub_bounds[OF cmax(2) cmax(3) cmin(2) cmin(3)]) (simp_all add: grid_def)
  then obtain rng where rng: "Fin cmax - Fin cmin = Fin rng"
      "272629 / 524288 \<le> rng" "rng \<le> 136315 / 262144"
    by blast
  have "\<exists>z. Fin rng * Fin t3 = Fin z
      \<and> 417797 / 1048576 \<le> z \<and> z \<le> 417831 / 1048576"
    by (rule mul_bounds[OF rng(2) rng(3) t3(2) t3(3)]) (simp_all add: grid_def)
  then obtain t4 where t4: "Fin rng * Fin t3 = Fin t4"
      "417797 / 1048576 \<le> t4" "t4 \<le> 417831 / 1048576"
    by blast
  have "\<exists>z. Fin cmin + Fin t4 = Fin z
      \<and> 501683 / 1048576 \<le> z \<and> z \<le> 250859 / 524288"
    by (rule add_bounds[OF cmin(2) cmin(3) t4(2) t4(3)]) (simp_all add: grid_def)
  then obtain a0 where a0: "Fin cmin + Fin t4 = Fin a0"
      "501683 / 1048576 \<le> a0" "a0 \<le> 250859 / 524288"
    by blast
  have "\<exists>z. Fin a0 * Fin dX = Fin z
      \<and> 137489265 / 1048576 \<le> z \<and> z \<le> 68751253 / 524288"
    by (rule mul_bounds[OF a0(2) a0(3) dX(2) dX(3)]) (simp_all add: grid_def)
  then obtain m where m: "Fin a0 * Fin dX = Fin m"
      "137489265 / 1048576 \<le> m" "m \<le> 68751253 / 524288"
    by blast
  have "\<exists>z. Fin s0 + Fin m = Fin z
      \<and> 353429515 / 1048576 \<le> z \<and> z \<le> 353450381 / 1048576"
    by (rule add_bounds[OF s0(1) s0(2) m(2) m(3)]) (simp_all add: grid_def)
  then obtain fX where fX: "Fin s0 + Fin m = Fin fX"
      "353429515 / 1048576 \<le> fX" "fX \<le> 353450381 / 1048576"
    by blast
  have "\<exists>z. Fin (1 / 2) / Fin 2 = Fin z \<and> 1 / 4 \<le> z \<and> z \<le> 1 / 4"
    by (rule div_bounds[OF order_refl order_refl order_refl order_refl]) (simp_all add: grid_def)
  then obtain w0 where w0: "Fin (1 / 2) / Fin 2 = Fin w0"
      "1 / 4 \<le> w0" "w0 \<le> 1 / 4"
    by blast
  have "\<exists>z. Fin 360 * Fin w0 = Fin z \<and> 90 \<le> z \<and> z \<le> 90"
    by (rule mul_bounds[OF order_refl order_refl w0(2) w0(3)]) (simp_all add: grid_def)
  then obtain pw0 where pw0: "Fin 360 * Fin w0 = Fin pw0" "90 \<le> pw0" "pw0 \<le> 90"
    by blast
  have "\<exists>z. Fin fX + Fin pw0 = Fin z
      \<and> 447801355 / 1048576 \<le> z \<and> z \<le> 447822221 / 1048576"
    by (rule add_bounds[OF fX(2) fX(3) pw0(2) pw0(3)]) (simp_all add: grid_def)
  then obtain avg0 where avg0: "Fin fX + Fin pw0 = Fin avg0"
      "447801355 / 1048576 \<le> avg0" "avg0 \<le> 447822221 / 1048576"
    by blast
  have "\<exists>z. Fin 1 + Fin w0 = Fin z \<and> 5 / 4 \<le> z \<and> z \<le> 5 / 4"
    by (rule add_bounds[OF order_refl order_refl w0(2) w0(3)]) (simp_all add: grid_def)
  then obtain cnt0 where cnt0: "Fin 1 + Fin w0 = Fin cnt0"
      "5 / 4 \<le> cnt0" "cnt0 \<le> 5 / 4"
    by blast
  have "\<exists>z. Fin (1 / 2) / Fin 3 = Fin z
      \<and> 87381 / 524288 \<le> z \<and> z \<le> 174763 / 1048576"
    by (rule div_bounds[OF order_refl order_refl order_refl order_refl]) (simp_all add: grid_def)
  then obtain w1 where w1: "Fin (1 / 2) / Fin 3 = Fin w1"
      "87381 / 524288 \<le> w1" "w1 \<le> 174763 / 1048576"
    by blast
  have "\<exists>z. Fin 240 * Fin w1 = Fin z
      \<and> 1310715 / 32768 \<le> z \<and> z \<le> 2621445 / 65536"
    by (rule mul_bounds[OF order_refl order_refl w1(2) w1(3)]) (simp_all add: grid_def)
  then obtain pw1 where pw1: "Fin 240 * Fin w1 = Fin pw1"
      "1310715 / 32768 \<le> pw1" "pw1 \<le> 2621445 / 65536"
    by blast
  have "\<exists>z. Fin avg0 + Fin pw1 = Fin z
      \<and> 489744235 / 1048576 \<le> z \<and> z \<le> 489765341 / 1048576"
    by (rule add_bounds[OF avg0(2) avg0(3) pw1(2) pw1(3)]) (simp_all add: grid_def)
  then obtain avg1 where avg1: "Fin avg0 + Fin pw1 = Fin avg1"
      "489744235 / 1048576 \<le> avg1" "avg1 \<le> 489765341 / 1048576"
    by blast
  have "\<exists>z. Fin cnt0 + Fin w1 = Fin z
      \<and> 742741 / 524288 \<le> z \<and> z \<le> 1485483 / 1048576"
    by (rule add_bounds[OF cnt0(2) cnt0(3) w1(2) w1(3)]) (simp_all add: grid_def)
  then obtain cnt1 where cnt1: "Fin cnt0 + Fin w1 = Fin cnt1"
      "742741 / 524288 \<le> cnt1" "cnt1 \<le> 1485483 / 1048576"
    by blast
  have "\<exists>z. Fin (1 / 2) / Fin 4 = Fin z \<and> 1 / 8 \<le> z \<and> z \<le> 1 / 8"
    by (rule div_bounds[OF order_refl order_refl order_refl order_refl]) (simp_all add: grid_def)
  then obtain w2 where w2: "Fin (1 / 2) / Fin 4 = Fin w2"
      "1 / 8 \<le> w2" "w2 \<le> 1 / 8"
    by blast
  have "\<exists>z. Fin 120 * Fin w2 = Fin z \<and> 15 \<le> z \<and> z \<le> 15"
    by (rule mul_bounds[OF order_refl order_refl w2(2) w2(3)]) (simp_all add: grid_def)
  then obtain pw2 where pw2: "Fin 120 * Fin w2 = Fin pw2" "15 \<le> pw2" "pw2 \<le> 15"
    by blast
  have "\<exists>z. Fin avg1 + Fin pw2 = Fin z
      \<and> 505472875 / 1048576 \<le> z \<and> z \<le> 505493981 / 1048576"
    by (rule add_bounds[OF avg1(2) avg1(3) pw2(2) pw2(3)]) (simp_all add: grid_def)
  then obtain avg2 where avg2: "Fin avg1 + Fin pw2 = Fin avg2"
      "505472875 / 1048576 \<le> avg2" "avg2 \<le> 505493981 / 1048576"
    by blast
  have "\<exists>z. Fin cnt1 + Fin w2 = Fin z
      \<and> 808277 / 524288 \<le> z \<and> z \<le> 1616555 / 1048576"
    by (rule add_bounds[OF cnt1(2) cnt1(3) w2(2) w2(3)]) (simp_all add: grid_def)
  then obtain cnt2 where cnt2: "Fin cnt1 + Fin w2 = Fin cnt2"
      "808277 / 524288 \<le> cnt2" "cnt2 \<le> 1616555 / 1048576"
    by blast
  have "\<exists>z. Fin avg2 / Fin cnt2 = Fin z
      \<and> 327874229 / 1048576 \<le> z \<and> z \<le> 327888123 / 1048576"
    by (rule div_bounds[OF avg2(2) avg2(3) cnt2(2) cnt2(3)]) (simp_all add: grid_def)
  then obtain res where res: "Fin avg2 / Fin cnt2 = Fin res"
      "327874229 / 1048576 \<le> res" "res \<le> 327888123 / 1048576"
    by blast
  have cv: "clamp (Fin v) (Fin 0) MAX_VELOCITY_PX_PER_S = Fin v"
    unfolding MAX_VELOCITY_PX_PER_S_def using v(2,3) by (intro clamp_mid) simp_all
  have cd: "clamp (Fin d100) (Fin 0) (Fin 1) = Fin 1"
    using d100(2) by (intro clamp_top) simp_all
  have ca: "clamp (Fin a0) (Fin cmin) (Fin cmax) = Fin a0"
    using a0(2,3) cmin(3) cmax(2) by (intro clamp_mid) simp_all
  have ex: "\<not> isExtremeSaccade (Fin 480) (Fin 0) 1700 ?p"
    using dist(3) v(3)
    by (simp add: isExtremeSaccade_def distanceFrom_def velocityFrom_def of_ms_def dX(1) dist(1)
        q(1) v(1) snap_distance snap_velocity4 del: Math_hypot.simps)
  have fast: "MAX_VELOCITY_PX_PER_S * fl (3 / 10) < Fin v"
    using v(2) by (simp add: average_velocity)
  have zd: "Fin 0 / Fin cnt2 = Fin 0"
    using cnt2(2) by (intro zero_div) simp
  have step: "smoothStep (Fin 480) (Fin 0) 1700 ?h ?p = (Fin res, Fin 0)"
    using ex fast
    using cnt2(2)
    by (simp add: smoothStep_def Let_def distanceFrom_def velocityFrom_def of_ms_def
        dX(1) dist(1) q(1) v(1) x(1) nv(1) d100(1) c03(1) c07(1) cmin(1) cmax(1) t1(1) t2(1)
        t3(1) rng(1) t4(1) a0(1) m(1) fX(1) w0(1) pw0(1) avg0(1) cnt0(1) w1(1) pw1(1)
        avg1(1) cnt1(1) w2(1) pw2(1) avg2(1) cnt2(1) res(1) cv cd ca movingAverage_def
        addRecent_def recent_indices zd
        del: Math_hypot.simps Math_pow.simps)
  have acc: "acceptedHistory (Fin 480) (Fin 0) 1700
         [\<lparr>sx = Fin 0, sy = Fin 0, stime = 0\<rparr>,
          \<lparr>sx = Fin 120, sy = Fin 0, stime = 500\<rparr>,
          \<lparr>sx = Fin 240, sy = Fin 0, stime = 800\<rparr>,
          \<lparr>sx = Fin 360, sy = Fin 0, stime = 1200\<rparr>] = ?h"
    by (simp add: acceptedHistory_keep MAX_HISTORY_POINTS_def GAZE_HISTORY_MS_def)
  have no: "\<not> isOutlier (Fin 480) (Fin 0) [\<lparr>sx = Fin 0, sy = Fin 0, stime = 0\<rparr>,
          \<lparr>sx = Fin 120, sy = Fin 0, stime = 500\<rparr>,
          \<lparr>sx = Fin 240, sy = Fin 0, stime = 800\<rparr>,
          \<lparr>sx = Fin 360, sy = Fin 0, stime = 1200\<rparr>]"
    by (simp add: isOutlier_def distanceFrom_def OUTLIER_THRESHOLD_PX_def js_ops fl_int)
  have nf: "fixationCentroid 1700 (windowPointsOf 1700 ?h) = None"
    by (rule no_fixation_short) (simp add: MIN_FIXATION_SAMPLES_def)
  have "computeFilteredGazePoint (Fin 480) (Fin 0) 1700
        \<lparr>gazeHistory = [\<lparr>sx = Fin 0, sy = Fin 0, stime = 0\<rparr>,
          \<lparr>sx = Fin 120, sy = Fin 0, stime = 500\<rparr>,
          \<lparr>sx = Fin 240, sy = Fin 0, stime = 800\<rparr>,
          \<lparr>sx = Fin 360, sy = Fin 0, stime = 1200\<rparr>],
         smoothedPoint = Some \<lparr>sx = Fin s0, sy = Fin 0, stime = 1200\<rparr>\<rparr> =
      ((Fin res, Fin 0),
       \<lparr>gazeHistory = ?h,
        smoothedPoint = Some \<lparr>sx = Fin res, sy = Fin 0, stime = 1700\<rparr>\<rparr>)"
    using cfgp_smooth[of "Fin 480" "Fin 0"
        "\<lparr>gazeHistory = [\<lparr>sx = Fin 0, sy = Fin 0, stime = 0\<rparr>,
          \<lparr>sx = Fin 120, sy = Fin 0, stime = 500\<rparr>,
          \<lparr>sx = Fin 240, sy = Fin 0, stime = 800\<rparr>,
          \<lparr>sx = Fin 360, sy = Fin 0, stime = 1200\<rparr>],
         smoothedPoint = Some \<lparr>sx = Fin s0, sy = Fin 0, stime = 1200\<rparr>\<rparr>"
        ?p 1700 "(Fin res, Fin 0)"] no nf step
    by (simp add: acc GAZE_HISTORY_MS_def)
  then show ?thesis
    using res(2) res(3) by blast
qed

lemma drifting_state:
  "\<exists>s. feedSamples drifting =
      \<lparr>gazeHistory = driftingHistory,
       smoothedPoint = Some \<lparr>sx = Fin s, sy = Fin 0, stime = 1700\<rparr>\<rparr>
     \<and> 327874229 / 1048576 \<le> s \<and> s \<le> 327888123 / 1048576"
proof -
  obtain s1 where s1:
    "computeFilteredGazePoint (Fin 120) (Fin 0) 500
        \<lparr>gazeHistory = [\<lparr>sx = Fin 0, sy = Fin 0, stime = 0\<rparr>],
         smoothedPoint = Some \<lparr>sx = Fin 0, sy = Fin 0, stime = 0\<rparr>\<rparr> =
      ((Fin s1, Fin 0),
       \<lparr>gazeHistory = [\<lparr>sx = Fin 0, sy = Fin 0, stime = 0\<rparr>,
          \<lparr>sx = Fin 120, sy = Fin 0, stime = 500\<rparr>],
        smoothedPoint = Some \<lparr>sx = Fin s1, sy = Fin 0, stime = 500\<rparr>\<rparr>)"
    "55785 / 1024 \<le> s1" "s1 \<le> 7140645 / 131072"
    using drift_step1[of 0] by auto
  obtain s2 where s2:
    "computeFilteredGazePoint (Fin 240) (Fin 0) 800
        \<lparr>gazeHistory = [\<lparr>sx = Fin 0, sy = Fin 0, stime = 0\<rparr>,
          \<lparr>sx = Fin 120, sy = Fin 0, stime = 500\<rparr>],
         smoothedPoint = Some \<lparr>sx = Fin s1, sy = Fin 0, stime = 500\<rparr>\<rparr> =
      ((Fin s2, Fin 0),
       \<lparr>gazeHistory = [\<lparr>sx = Fin 0, sy = Fin 0, stime = 0\<rparr>,
          \<lparr>sx = Fin 120, sy = Fin 0, stime = 500\<rparr>,
          \<lparr>sx = Fin 240, sy = Fin 0, stime = 800\<rparr>],
        smoothedPoint = Some \<lparr>sx = Fin s2, sy = Fin 0, stime = 800\<rparr>\<rparr>)"
    "129164853 / 1048576 \<le> s2" "s2 \<le> 64584603 / 524288"
    using drift_step2[OF s1(2,3)] by blast
  obtain s3 where s3:
    "computeFilteredGazePoint (Fin 360) (Fin 0) 1200
        \<lparr>gazeHistory = [\<lparr>sx = Fin 0, sy = Fin 0, stime = 0\<rparr>,
          \<lparr>sx = Fin 120, sy = Fin 0, stime = 500\<rparr>,
          \<lparr>sx = Fin 240, sy = Fin 0, stime = 800\<rparr>],
         smoothedPoint = Some \<lparr>sx = Fin s2, sy = Fin 0, stime = 800\<rparr>\<rparr> =
      ((Fin s3, Fin 0),
       \<lparr>gazeHistory = [\<lparr>sx = Fin 0, sy = Fin 0, stime = 0\<rparr>,
          \<lparr>sx = Fin 120, sy = Fin 0, stime = 500\<rparr>,
          \<lparr>sx = Fin 240, sy = Fin 0, stime = 800\<rparr>,
          \<lparr>sx = Fin 360, sy = Fin 0, stime = 1200\<rparr>],
        smoothedPoint = Some \<lparr>sx = Fin s3, sy = Fin 0, stime = 1200\<rparr>\<rparr>)"
    "107970125 / 524288 \<le> s3" "s3 \<le> 215947875 / 1048576"
    using drift_step3[OF s2(2,3)] by blast
  obtain s4 where s4:
    "computeFilteredGazePoint (Fin 480) (Fin 0) 1700
        \<lparr>gazeHistory = [\<lparr>sx = Fin 0, sy = Fin 0, stime = 0\<rparr>,
          \<lparr>sx = Fin 120, sy = Fin 0, stime = 500\<rparr>,
          \<lparr>sx = Fin 240, sy = Fin 0, stime = 800\<rparr>,
          \<lparr>sx = Fin 360, sy = Fin 0, stime = 1200\<rparr>],
         smoothedPoint = Some \<lparr>sx = Fin s3, sy = Fin 0, stime = 1200\<rparr>\<rparr> =
      ((Fin s4, Fin 0),
       \<lparr>gazeHistory = [\<lparr>sx = Fin 0, sy = Fin 0, stime = 0\<rparr>,
          \<lparr>sx = Fin 120, sy = Fin 0, stime = 500\<rparr>,
          \<lparr>sx = Fin 240, sy = Fin 0, stime = 800\<rparr>,
          \<lparr>sx = Fin 360, sy = Fin 0, stime = 1200\<rparr>,
          \<lparr>sx = Fin 480, sy = Fin 0, stime = 1700\<rparr>],
        smoothedPoint = Some \<lparr>sx = Fin s4, sy = Fin 0, stime = 1700\<rparr>\<rparr>)"
    "327874229 / 1048576 \<le> s4" "s4 \<le> 327888123 / 1048576"
    using drift_step4[OF s3(2,3)] by blast
  have "feedSamples drifting =
      \<lparr>gazeHistory = driftingHistory,
       smoothedPoint = Some \<lparr>sx = Fin s4, sy = Fin 0, stime = 1700\<rparr>\<rparr>"
    by (simp add: feedSamples_def drifting_def driftingHistory_def feedSample_def cfgp_seed
        s1(1) s2(1) s3(1) s4(1))
  then show ?thesis
    using s4(2,3) by blast
qed

lemma drifting_far:
  assumes s0: "327874229 / 1048576 \<le> s0" "s0 \<le> 327888123 / 1048576"
  shows "FIXATION_MAX_RADIUS_PX * Fin 6
           < distanceFrom (Fin 600) (Fin 0) \<lparr>sx = Fin s0, sy = Fin 0, stime = 1700\<rparr>"
    and "MAX_VELOCITY_PX_PER_S * fl (8 / 10)
           < velocityFrom (Fin 600) (Fin 0) 1716 \<lparr>sx = Fin s0, sy = Fin 0, stime = 1700\<rparr>"
proof -
  have "\<exists>z. Fin 600 - Fin s0 = Fin z
      \<and> 301257477 / 1048576 \<le> z \<and> z \<le> 301271371 / 1048576"
    by (rule sub_bounds[OF order_refl order_refl s0(1) s0(2)]) (simp_all add: grid_def)
  then obtain dX where dX: "Fin 600 - Fin s0 = Fin dX"
      "301257477 / 1048576 \<le> dX" "dX \<le> 301271371 / 1048576"
    by blast
  have "\<exists>z. Math_hypot (Fin dX) (Fin 0) = Fin z
      \<and> 301257477 / 1048576 \<le> z \<and> z \<le> 301271371 / 1048576"
    by (rule hypot0_bounds[OF dX(2) dX(3)]) (simp_all add: grid_def)
  then obtain dist where dist: "Math_hypot (Fin dX) (Fin 0) = Fin dist"
      "301257477 / 1048576 \<le> dist" "dist \<le> 301271371 / 1048576"
    by blast
  have "\<exists>z. Fin dist / Fin 16 = Fin z
      \<and> 1176787 / 65536 \<le> z \<and> z \<le> 18829461 / 1048576"
    by (rule div_bounds[OF dist(2) dist(3) order_refl order_refl]) (simp_all add: grid_def)
  then obtain q where q: "Fin dist / Fin 16 = Fin q"
      "1176787 / 65536 \<le> q" "q \<le> 18829461 / 1048576"
    by blast
  have "\<exists>z. Fin q * Fin 1000 = Fin z
      \<and> 147098375 / 8192 \<le> z \<and> z \<le> 2353682625 / 131072"
    by (rule mul_bounds[OF q(2) q(3) order_refl order_refl]) (simp_all add: grid_def)
  then obtain v where v: "Fin q * Fin 1000 = Fin v"
      "147098375 / 8192 \<le> v" "v \<le> 2353682625 / 131072"
    by blast
  show "FIXATION_MAX_RADIUS_PX * Fin 6
           < distanceFrom (Fin 600) (Fin 0) \<lparr>sx = Fin s0, sy = Fin 0, stime = 1700\<rparr>"
    using dist(2)
    by (simp add: distanceFrom_def dX(1) dist(1) snap_distance del: Math_hypot.simps)
  show "MAX_VELOCITY_PX_PER_S * fl (8 / 10)
           < velocityFrom (Fin 600) (Fin 0) 1716 \<lparr>sx = Fin s0, sy = Fin 0, stime = 1700\<rparr>"
    using v(2)
    by (simp add: velocityFrom_def distanceFrom_def of_ms_def dX(1) dist(1) q(1) v(1)
        snap_velocity4 del: Math_hypot.simps)
qed

text \<open>
  Claim C1, as the code has it. With a previous smoothed point and a finite sample:
  if the sample passes the outlier test and declares no fixation, and its distance
  from the smoothed point, as computed, exceeds \<open>FIXATION_MAX_RADIUS_PX * 6\<close> at a
  computed velocity above \<open>0.8 * MAX_VELOCITY_PX_PER_S\<close>, it is returned as it is
  and becomes the smoothed point. If it is farther than \<open>OUTLIER_THRESHOLD_PX\<close> from
  the last history entry, it is rejected before the saccade test, whatever its
  distance and velocity: the prior smoothed point is returned and nothing changes.
\<close>

theorem extreme_saccade_snaps:
  assumes "isFinite rawX" and "isFinite rawY"
    and "smoothedPoint st = Some p"
  shows "(\<not> isOutlier rawX rawY (gazeHistory st) \<longrightarrow>
          fixationCentroid timestamp
            (windowPointsOf timestamp (acceptedHistory rawX rawY timestamp (gazeHistory st))) = None \<longrightarrow>
          FIXATION_MAX_RADIUS_PX * Fin 6 < distanceFrom rawX rawY p \<longrightarrow>
          MAX_VELOCITY_PX_PER_S * fl (8 / 10) < velocityFrom rawX rawY timestamp p \<longrightarrow>
          computeFilteredGazePoint rawX rawY timestamp st =
            ((rawX, rawY),
             \<lparr>gazeHistory = acceptedHistory rawX rawY timestamp (gazeHistory st),
              smoothedPoint = Some \<lparr>sx = rawX, sy = rawY, stime = timestamp\<rparr>\<rparr>))
       \<and> (gazeHistory st \<noteq> [] \<longrightarrow>
          OUTLIER_THRESHOLD_PX < distanceFrom rawX rawY (last (gazeHistory st)) \<longrightarrow>
          computeFilteredGazePoint rawX rawY timestamp st = (xy p, st))"
proof (intro conjI impI)
  assume a: "\<not> isOutlier rawX rawY (gazeHistory st)"
    "fixationCentroid timestamp
       (windowPointsOf timestamp (acceptedHistory rawX rawY timestamp (gazeHistory st))) = None"
    "FIXATION_MAX_RADIUS_PX * Fin 6 < distanceFrom rawX rawY p"
    "MAX_VELOCITY_PX_PER_S * fl (8 / 10) < velocityFrom rawX rawY timestamp p"
  have "smoothStep rawX rawY timestamp h p = (rawX, rawY)" for h
    using a(3,4) by (simp only: smoothStep_def isExtremeSaccade_def Let_def simp_thms if_True)
  with assms a(1,2) show "computeFilteredGazePoint rawX rawY timestamp st =
      ((rawX, rawY),
       \<lparr>gazeHistory = acceptedHistory rawX rawY timestamp (gazeHistory st),
        smoothedPoint = Some \<lparr>sx = rawX, sy = rawY, stime = timestamp\<rparr>\<rparr>)"
    by (simp add: computeFilteredGazePoint_def Let_def)
next
  assume "gazeHistory st \<noteq> []"
    and "OUTLIER_THRESHOLD_PX < distanceFrom rawX rawY (last (gazeHistory st))"
  then have "isOutlier rawX rawY (gazeHistory st)"
    by (simp add: isOutlier_def)
  then show "computeFilteredGazePoint rawX rawY timestamp st = (xy p, st)"
    using assms cfgp_outlier[of rawX rawY st timestamp] by simp
qed

text \<open>After the drifting run the smoothed point is more than 270 px behind the next
  step of the drift: the sample at 600 px, 16 ms later, passes the outlier test and
  snaps. A sample at 1000 px instead is rejected.\<close>

theorem extreme_saccade_snaps_witness:
  "fst (computeFilteredGazePoint (Fin 600) (Fin 0) 1716 (feedSamples drifting))
     = (Fin 600, Fin 0)
   \<and> smoothedPoint (snd (computeFilteredGazePoint (Fin 600) (Fin 0) 1716 (feedSamples drifting)))
     = Some \<lparr>sx = Fin 600, sy = Fin 0, stime = 1716\<rparr>
   \<and> snd (computeFilteredGazePoint (Fin 1000) (Fin 0) 1716 (feedSamples drifting))
     = feedSamples drifting
   \<and> Some (fst (computeFilteredGazePoint (Fin 1000) (Fin 0) 1716 (feedSamples drifting)))
     = map_option xy (smoothedPoint (feedSamples drifting))"
proof -
  obtain s where st: "feedSamples drifting =
      \<lparr>gazeHistory = driftingHistory,
       smoothedPoint = Some \<lparr>sx = Fin s, sy = Fin 0, stime = 1700\<rparr>\<rparr>"
    and s: "327874229 / 1048576 \<le> s" "s \<le> 327888123 / 1048576"
    using drifting_state by blast
  let ?p = "\<lparr>sx = Fin s, sy = Fin 0, stime = 1700\<rparr>"
  have h: "gazeHistory (feedSamples drifting) = driftingHistory"
    by (simp add: st)
  have dh: "driftingHistory =
      [\<lparr>sx = Fin 0, sy = Fin 0, stime = 0\<rparr>,
       \<lparr>sx = Fin 120, sy = Fin 0, stime = 500\<rparr>,
       \<lparr>sx = Fin 240, sy = Fin 0, stime = 800\<rparr>,
       \<lparr>sx = Fin 360, sy = Fin 0, stime = 1200\<rparr>,
       \<lparr>sx = Fin 480, sy = Fin 0, stime = 1700\<rparr>]"
    by (simp add: driftingHistory_def drifting_def)
  have ne: "driftingHistory \<noteq> []"
    by (simp add: dh)
  have near: "\<not> isOutlier (Fin 600) (Fin 0) (gazeHistory (feedSamples drifting))"
    by (simp add: h dh isOutlier_def distanceFrom_def OUTLIER_THRESHOLD_PX_def js_ops fl_int)
  have acc: "acceptedHistory (Fin 600) (Fin 0) 1716 (gazeHistory (feedSamples drifting)) =
      gazeHistory (feedSamples drifting) @ [\<lparr>sx = Fin 600, sy = Fin 0, stime = 1716\<rparr>]"
    by (simp add: h dh acceptedHistory_keep MAX_HISTORY_POINTS_def GAZE_HISTORY_MS_def)
  have nf: "fixationCentroid 1716 (windowPointsOf 1716
      (acceptedHistory (Fin 600) (Fin 0) 1716 (gazeHistory (feedSamples drifting)))) = None"
    unfolding acc by (rule no_fixation_short) (simp add: h dh MIN_FIXATION_SAMPLES_def)
  have far: "OUTLIER_THRESHOLD_PX
      < distanceFrom (Fin 1000) (Fin 0) (last (gazeHistory (feedSamples drifting)))"
    by (simp add: h dh distanceFrom_def OUTLIER_THRESHOLD_PX_def js_ops fl_int)
  have snap: "computeFilteredGazePoint (Fin 600) (Fin 0) 1716 (feedSamples drifting) =
      ((Fin 600, Fin 0),
       \<lparr>gazeHistory = acceptedHistory (Fin 600) (Fin 0) 1716 (gazeHistory (feedSamples drifting)),
        smoothedPoint = Some \<lparr>sx = Fin 600, sy = Fin 0, stime = 1716\<rparr>\<rparr>)"
    using extreme_saccade_snaps[of "Fin 600" "Fin 0" "feedSamples drifting" ?p 1716]
      near nf drifting_far[OF s]
    by (simp add: st)
  have rejected: "computeFilteredGazePoint (Fin 1000) (Fin 0) 1716 (feedSamples drifting) =
      (xy ?p, feedSamples drifting)"
    using extreme_saccade_snaps[of "Fin 1000" "Fin 0" "feedSamples drifting" ?p 1716] far ne
    by (simp add: st)
  show ?thesis
    unfolding snap rejected by (simp add: st)
qed

text \<open>After a first sample at the origin, a sample 1000 px away 16 ms later meets the
  distance and velocity conditions of the snap, yet it is rejected as an outlier and
  the prior smoothed point is returned.\<close>

lemma fl_125_2: "fl (125 / 2) = Fin (125 / 2)"
  by (rule fl_exact) (rule dyadic53_scale[of _ 1], simp_all)

theorem extreme_saccade_counterexample:
  "snd (computeFilteredGazePoint (Fin 0) (Fin 0) 0 \<lparr>gazeHistory = [], smoothedPoint = None\<rparr>)
     = \<lparr>gazeHistory = [origin], smoothedPoint = Some origin\<rparr>
   \<and> FIXATION_MAX_RADIUS_PX * Fin 6 < distanceFrom (Fin 1000) (Fin 0) origin
   \<and> MAX_VELOCITY_PX_PER_S * fl (8 / 10) < velocityFrom (Fin 1000) (Fin 0) 16 origin
   \<and> fst (computeFilteredGazePoint (Fin 1000) (Fin 0) 16
        \<lparr>gazeHistory = [origin], smoothedPoint = Some origin\<rparr>) = (Fin 0, Fin 0)"
proof -
  have "isOutlier (Fin 1000) (Fin 0) (gazeHistory \<lparr>gazeHistory = [origin], smoothedPoint = Some origin\<rparr>)"
    by (simp add: isOutlier_def distanceFrom_def origin_def OUTLIER_THRESHOLD_PX_def js_ops fl_int)
  then have "computeFilteredGazePoint (Fin 1000) (Fin 0) 16
        \<lparr>gazeHistory = [origin], smoothedPoint = Some origin\<rparr> =
       (xy origin, \<lparr>gazeHistory = [origin], smoothedPoint = Some origin\<rparr>)"
    using cfgp_outlier[of "Fin 1000" "Fin 0" "\<lparr>gazeHistory = [origin], smoothedPoint = Some origin\<rparr>" 16]
    by simp
  moreover have "distanceFrom (Fin 1000) (Fin 0) origin = Fin 1000"
    by (simp add: distanceFrom_def origin_def minus_jsnum_def fl_int)
  then have "FIXATION_MAX_RADIUS_PX * Fin 6 < distanceFrom (Fin 1000) (Fin 0) origin"
    by (simp add: snap_distance)
  moreover have "velocityFrom (Fin 1000) (Fin 0) 16 origin = Fin 62500"
    by (simp add: velocityFrom_def distanceFrom_def origin_def of_ms_def minus_jsnum_def
        divide_jsnum_def times_jsnum_def fl_int fl_125_2)
  then have "MAX_VELOCITY_PX_PER_S * fl (8 / 10) < velocityFrom (Fin 1000) (Fin 0) 16 origin"
    by (simp add: snap_velocity4)
  ultimately show ?thesis
    by (simp add: cfgp_seed origin_def xy_def)
qed

text \<open>The distance of the saccade test is the rounded one too: 270 px from a smoothed
  point \<open>2 ^ - 60\<close> px on the other side of the origin is the distance 270 as
  computed, and the sample does not snap.\<close>

lemma round64_near_270: "round64 (270 + 1 / 2 ^ 60) = 270"
  by (subst round64_fine[of _ 44]) (simp_all add: roundHalfEven_def)

lemma saccade_test_rounds:
  "\<not> isExtremeSaccade (Fin 270) (Fin 0) 16 \<lparr>sx = Fin (- (1 / 2 ^ 60)), sy = Fin 0, stime = 0\<rparr>"
proof -
  have "fl (270 + 1 / 2 ^ 60) = Fin (round64 (270 + 1 / 2 ^ 60))"
    by (rule fl_Fin) simp
  then have "Fin 270 - Fin (- (1 / 2 ^ 60)) = Fin 270"
    unfolding round64_near_270 by (simp add: minus_jsnum_def)
  then show ?thesis
    by (simp add: isExtremeSaccade_def distanceFrom_def snap_distance fl_int)
qed

section \<open>The history stays bounded\<close>

lemma evictOverflow_drop:
  "evictOverflow h = drop (length h - MAX_HISTORY_POINTS) h"
proof (induction h rule: evictOverflow.induct)
  case (1 history)
  show ?case
  proof (cases "MAX_HISTORY_POINTS < length history")
    case True
    then have ne: "history \<noteq> []" by auto
    have "evictOverflow history = evictOverflow (tl history)"
      using True by (subst evictOverflow.simps) simp
    also have "\<dots> = drop (length (tl history) - MAX_HISTORY_POINTS) (tl history)"
      using 1 True by simp
    also have "\<dots> = drop (length history - MAX_HISTORY_POINTS) history"
      using True ne by (cases history) (simp_all add: Suc_diff_le)
    finally show ?thesis .
  next
    case False
    then show ?thesis by (subst evictOverflow.simps) simp
  qed
qed

lemma evictOld_dropWhile:
  "evictOld timestamp h = dropWhile (\<lambda>s::sample. GAZE_HISTORY_MS < timestamp - stime s) h"
  by (induction h) auto

lemma acceptedHistory_inv:
  assumes inv: "historyInv T h" and le: "T \<le> timestamp"
  shows "historyInv timestamp (acceptedHistory rawX rawY timestamp h)"
proof -
  define new where "new = \<lparr>sx = rawX, sy = rawY, stime = timestamp\<rparr>"
  define h1 where "h1 = h @ [new]"
  define h2 where "h2 = drop (length h1 - MAX_HISTORY_POINTS) h1"
  define P where "P = (\<lambda>s::sample. GAZE_HISTORY_MS < timestamp - stime s)"
  define h3 where "h3 = dropWhile P h2"
  have acc: "acceptedHistory rawX rawY timestamp h = h3"
    by (simp add: acceptedHistory_def evictOverflow_drop evictOld_dropWhile
        h3_def h2_def h1_def new_def P_def)
  have s1: "sorted (map stime h1)"
    using inv le by (auto simp: historyInv_def h1_def new_def sorted_append)
  have b1: "\<forall>e \<in> set h1. stime e \<le> timestamp"
    using inv le by (auto simp: historyInv_def h1_def new_def)
  have s2: "sorted (map stime h2)"
    using s1 sorted_wrt_drop[of "(\<le>)" "map stime h1" "length h1 - MAX_HISTORY_POINTS"]
    by (simp add: h2_def drop_map)
  have ne2: "h2 \<noteq> []" and last2: "last h2 = new"
    by (simp_all add: h2_def h1_def MAX_HISTORY_POINTS_def)
  have len2: "length h2 \<le> MAX_HISTORY_POINTS"
    by (simp add: h2_def)
  have notP: "\<not> P new"
    by (simp add: P_def new_def GAZE_HISTORY_MS_def)
  have new_in: "new \<in> set h2"
    using ne2 last2 last_in_set by metis
  have ne3: "h3 \<noteq> []"
    using new_in notP by (auto simp: h3_def)
  obtain ys where split: "h2 = ys @ h3"
    by (metis h3_def takeWhile_dropWhile_id)
  have last3: "last h3 = new"
    using split ne3 last2 by simp
  have s3: "sorted (map stime h3)"
    using s2 split by (simp add: sorted_append)
  have sub: "set h3 \<subseteq> set h1"
    using set_drop_subset[of "length h1 - MAX_HISTORY_POINTS" h1] split
    by (auto simp: h2_def)
  have b3: "\<forall>e \<in> set h3. stime e \<le> timestamp"
    using b1 sub by auto
  have len3: "length h3 \<le> MAX_HISTORY_POINTS"
    using len2 split by simp
  have hd3: "\<not> P (hd h3)"
    using ne3 by (simp add: h3_def hd_dropWhile)
  have age: "stime (last h3) - stime (hd h3) \<le> GAZE_HISTORY_MS"
    using hd3 last3 by (simp add: P_def new_def)
  show ?thesis
    unfolding acc historyInv_def using s3 b3 len3 age by simp
qed

lemma historyInv_mono: "historyInv T h \<Longrightarrow> T \<le> T' \<Longrightarrow> historyInv T' h"
  by (fastforce simp: historyInv_def)

lemma cfgp_history_cases:
  "gazeHistory (snd (computeFilteredGazePoint rawX rawY timestamp st)) = gazeHistory st
   \<or> gazeHistory (snd (computeFilteredGazePoint rawX rawY timestamp st))
       = acceptedHistory rawX rawY timestamp (gazeHistory st)"
  using cfgp_nonfinite[of rawX rawY timestamp st] cfgp_outlier[of rawX rawY st timestamp]
    cfgp_accept[of rawX rawY st timestamp]
  by (cases "isFinite rawX \<and> isFinite rawY"; cases "isOutlier rawX rawY (gazeHistory st)") auto

lemma feedSample_inv:
  assumes "historyInv T (gazeHistory st)" and "T \<le> timestampOf s"
  shows "historyInv (timestampOf s) (gazeHistory (feedSample st s))"
proof -
  obtain rawX rawY timestamp where s: "s = (rawX, rawY, timestamp)"
    by (cases s) auto
  show ?thesis
    using cfgp_history_cases[of rawX rawY timestamp st] assms
      acceptedHistory_inv[of T "gazeHistory st" timestamp rawX rawY]
      historyInv_mono[of T "gazeHistory st" timestamp]
    by (auto simp: s feedSample_def timestampOf_def)
qed

lemma foldl_feedSample_inv:
  "historyInv T (gazeHistory st) \<Longrightarrow> sorted (map timestampOf samples) \<Longrightarrow>
   \<forall>s \<in> set samples. T \<le> timestampOf s \<Longrightarrow>
   \<exists>T'. historyInv T' (gazeHistory (foldl feedSample st samples))"
proof (induction samples arbitrary: st T)
  case Nil
  then show ?case by auto
next
  case (Cons s samples)
  have step: "historyInv (timestampOf s) (gazeHistory (feedSample st s))"
    using Cons.prems by (intro feedSample_inv) auto
  have "\<exists>T'. historyInv T' (gazeHistory (foldl feedSample (feedSample st s) samples))"
    using Cons.prems by (intro Cons.IH[OF step]) auto
  then show ?case by simp
qed

lemma historyInv_ages:
  assumes "historyInv T h" and "e \<in> set h"
  shows "0 \<le> stime (last h) - stime e \<and> stime (last h) - stime e \<le> GAZE_HISTORY_MS"
proof -
  from assms(2) have ne: "h \<noteq> []" by auto
  then obtain a rest where h: "h = a # rest" by (cases h) auto
  have srt: "sorted (map stime h)" using assms(1) by (simp add: historyInv_def)
  have "stime a \<le> stime e"
    using srt assms(2) by (auto simp: h)
  moreover have "stime e \<le> stime (last h)"
  proof -
    obtain i where i: "i < length h" "h ! i = e"
      using assms(2) by (auto simp: in_set_conv_nth)
    have "map stime h ! i \<le> map stime h ! (length h - 1)"
      using srt i(1) by (intro sorted_nth_mono) auto
    then show ?thesis using i ne by (simp add: last_conv_nth)
  qed
  moreover have "stime (last h) - stime (hd h) \<le> GAZE_HISTORY_MS"
    using assms(1) ne by (simp add: historyInv_def)
  ultimately show ?thesis by (simp add: h)
qed

lemma history_bounded_run:
  assumes "sorted (map timestampOf samples)"
  shows "length (gazeHistory (feedSamples samples)) \<le> MAX_HISTORY_POINTS
       \<and> (\<forall>e \<in> set (gazeHistory (feedSamples samples)).
            0 \<le> stime (last (gazeHistory (feedSamples samples))) - stime e
            \<and> stime (last (gazeHistory (feedSamples samples))) - stime e \<le> GAZE_HISTORY_MS)"
proof (cases samples)
  case Nil
  then show ?thesis by (simp add: feedSamples_def)
next
  case (Cons s rest)
  have init: "historyInv (timestampOf s) (gazeHistory \<lparr>gazeHistory = [], smoothedPoint = None\<rparr>)"
    by (simp add: historyInv_def)
  have "\<forall>x \<in> set samples. timestampOf s \<le> timestampOf x"
    using assms by (auto simp: Cons)
  then obtain T' where "historyInv T' (gazeHistory (feedSamples samples))"
    using foldl_feedSample_inv[OF init assms] by (auto simp: feedSamples_def)
  then show ?thesis
    using historyInv_ages by (auto simp: historyInv_def)
qed

text \<open>
  Claim C5. Feed the filter, from the reset state, any sequence of samples with
  non-decreasing timestamps. After every call, that is after the first \<open>n\<close> samples
  for every \<open>n\<close>, the history holds at most \<open>MAX_HISTORY_POINTS\<close> entries, and every
  entry (the oldest too) is at most \<open>GAZE_HISTORY_MS\<close> older than the last entry,
  which is the latest accepted sample.
\<close>

theorem history_bounded:
  assumes "sorted (map timestampOf samples)"
  shows "length (gazeHistory (feedSamples (take n samples))) \<le> MAX_HISTORY_POINTS
       \<and> (\<forall>e \<in> set (gazeHistory (feedSamples (take n samples))).
            0 \<le> stime (last (gazeHistory (feedSamples (take n samples)))) - stime e
            \<and> stime (last (gazeHistory (feedSamples (take n samples)))) - stime e
                \<le> GAZE_HISTORY_MS)"
proof -
  have "sorted (take n (map timestampOf samples))"
    using assms by (rule sorted_wrt_take)
  then have "sorted (map timestampOf (take n samples))"
    by (simp add: take_map)
  then show ?thesis by (rule history_bounded_run)
qed

theorem history_bounded_witness:
  "sorted (map timestampOf [(Fin 0, Fin 0, 0), (Fin 10, Fin 0, 3000)])
   \<and> length (gazeHistory (feedSamples [(Fin 0, Fin 0, 0), (Fin 10, Fin 0, 3000)]))
       \<le> MAX_HISTORY_POINTS"
  using history_bounded[of "[(Fin 0, Fin 0, 0), (Fin 10, Fin 0, 3000)]" 2]
  by (simp add: timestampOf_def)

section \<open>Fixations\<close>

text \<open>Samples that all sit at the origin: their weighted centroid is the origin and their
  dispersion is zero.\<close>

lemma exp_minus_ten: "1 / 65536 \<le> exp (- 10 :: real)"
proof -
  have "exp (of_nat 10 * (1 :: real)) = exp 1 ^ 10"
    by (rule exp_of_nat_mult)
  moreover have "exp (1 :: real) ^ 10 \<le> 3 ^ 10"
    by (rule power_mono) (simp_all only: exp_le exp_ge_zero)
  moreover have "(3 :: real) ^ 10 \<le> 65536"
    by simp
  moreover have "of_nat 10 * (1 :: real) = 10"
    by simp
  ultimately have le: "exp (10 :: real) \<le> 65536"
    by (simp only:)
  have "inverse (65536 :: real) \<le> inverse (exp 10)"
    using le by (rule le_imp_inverse_le) (rule exp_gt_zero)
  moreover have "exp (- 10 :: real) = inverse (exp 10)"
    by (rule exp_minus)
  ultimately show ?thesis
    by (simp only: inverse_eq_divide)
qed

lemma dyadic53_weight: "dyadic53 (1 / 65536)"
  by (rule dyadic53_scale[of _ 16]) simp_all

text \<open>The weight of a sample of the window: between \<open>2 ^ - 16\<close> and 1.\<close>

lemma weight_bounds:
  assumes "0 \<le> age" and "age \<le> 800"
  shows "\<exists>e. Math_exp (of_ms (- age) / Fin 80) = Fin e \<and> 1 / 65536 \<le> e \<and> e \<le> 1"
proof -
  have "- 10 \<le> - real_of_int age / 80" "- real_of_int age / 80 \<le> 0"
    using assms by simp_all
  then have "\<exists>a. fl (- real_of_int age / 80) = Fin a \<and> - 10 \<le> a \<and> a \<le> 0"
    by (intro fl_between) (simp_all add: dyadic53_int)
  then obtain a where a: "of_ms (- age) / Fin 80 = Fin a" "- 10 \<le> a" "a \<le> 0"
    by (auto simp: of_ms_def divide_jsnum_def)
  have "exp (- 10) \<le> exp a" "exp a \<le> 1"
    using a(2,3) by simp_all
  then have "1 / 65536 \<le> exp a" "exp a \<le> 1"
    using exp_minus_ten by linarith+
  then have "\<exists>e. fl (exp a) = Fin e \<and> 1 / 65536 \<le> e \<and> e \<le> 1"
    by (intro fl_between dyadic53_weight) (simp_all add: dyadic53_int)
  then show ?thesis
    by (simp add: a(1))
qed

lemma addWeighted_origin:
  assumes "sx s = Fin 0" and "sy s = Fin 0" and "0 \<le> W" and "W \<le> real n" and "n < 1000000"
    and "timestamp - stime s \<le> 800"
  shows "\<exists>W'. addWeighted timestamp (Fin W, Fin 0, Fin 0) s = (Fin W', Fin 0, Fin 0)
              \<and> 1 / 65536 \<le> W' \<and> W' \<le> real (Suc n)"
proof -
  define age where "age = max 0 (timestamp - stime s)"
  have age: "0 \<le> age" "age \<le> 800"
    using assms(6) by (simp_all add: age_def)
  obtain e where e: "Math_exp (of_ms (- age) / Fin 80) = Fin e" "1 / 65536 \<le> e" "e \<le> 1"
    using weight_bounds[OF age] by blast
  have "1 / 65536 \<le> W + e" "W + e \<le> real (Suc n)"
    using assms(3,4) e(2,3) by simp_all
  then have "\<exists>W'. fl (W + e) = Fin W' \<and> 1 / 65536 \<le> W' \<and> W' \<le> real (Suc n)"
    using assms(5) by (intro fl_between dyadic53_weight dyadic53_int) simp_all
  then obtain W' where W': "Fin W + Fin e = Fin W'" "1 / 65536 \<le> W'" "W' \<le> real (Suc n)"
    by (auto simp: plus_jsnum_def)
  have "addWeighted timestamp (Fin W, Fin 0, Fin 0) s = (Fin W', Fin 0, Fin 0)"
    using assms(1,2) by (simp add: addWeighted_def Let_def age_def[symmetric] e(1) W'(1))
  then show ?thesis using W'(2,3) by blast
qed

lemma foldl_addWeighted_origin:
  "\<forall>s \<in> set w. sx s = Fin 0 \<and> sy s = Fin 0 \<and> timestamp - stime s \<le> 800 \<Longrightarrow>
   0 \<le> W \<Longrightarrow> W \<le> real n \<Longrightarrow> n + length w < 1000000 \<Longrightarrow>
   \<exists>W'. foldl (addWeighted timestamp) (Fin W, Fin 0, Fin 0) w = (Fin W', Fin 0, Fin 0)
        \<and> 0 \<le> W' \<and> (w \<noteq> [] \<longrightarrow> 1 / 65536 \<le> W')"
proof (induction w arbitrary: W n)
  case Nil
  then show ?case by simp
next
  case (Cons s w)
  have s: "sx s = Fin 0" "sy s = Fin 0" "timestamp - stime s \<le> 800"
    using Cons.prems(1) by simp_all
  have rest: "\<forall>s \<in> set w. sx s = Fin 0 \<and> sy s = Fin 0 \<and> timestamp - stime s \<le> 800"
    using Cons.prems(1) by simp
  have n: "n < 1000000" "Suc n + length w < 1000000"
    using Cons.prems(4) by simp_all
  obtain W1 where W1: "addWeighted timestamp (Fin W, Fin 0, Fin 0) s = (Fin W1, Fin 0, Fin 0)"
      "1 / 65536 \<le> W1" "W1 \<le> real (Suc n)"
    using addWeighted_origin[OF s(1,2) Cons.prems(2,3) n(1) s(3)] by blast
  have W1p: "0 \<le> W1" using W1(2) by simp
  obtain W' where W': "foldl (addWeighted timestamp) (Fin W1, Fin 0, Fin 0) w = (Fin W', Fin 0, Fin 0)"
      "0 \<le> W'" "w \<noteq> [] \<longrightarrow> 1 / 65536 \<le> W'"
    using Cons.IH[OF rest W1p W1(3) n(2)] by blast
  have "foldl (addWeighted timestamp) (Fin W, Fin 0, Fin 0) (s # w) = (Fin W', Fin 0, Fin 0)"
    by (simp add: W1(1) W'(1))
  moreover have "1 / 65536 \<le> W'"
  proof (cases "w = []")
    case True
    then have "W' = W1" using W'(1) by simp
    then show ?thesis using W1(2) by simp
  next
    case False
    then show ?thesis using W'(3) by simp
  qed
  ultimately show ?case using W'(2) by (intro exI[of _ W']) simp
qed

lemma centroidOf_origin:
  assumes "\<forall>s \<in> set w. sx s = Fin 0 \<and> sy s = Fin 0 \<and> timestamp - stime s \<le> 800"
    and "w \<noteq> []" and "length w \<le> 1000"
  shows "centroidOf timestamp w = Some (Fin 0, Fin 0)"
proof -
  have len: "0 + length w < 1000000"
    using assms(3) by simp
  obtain W' where W': "foldl (addWeighted timestamp) (Fin 0, Fin 0, Fin 0) w = (Fin W', Fin 0, Fin 0)"
      "1 / 65536 \<le> W'"
    using foldl_addWeighted_origin[OF assms(1), of 0 0] len assms(2) by auto
  have "Fin 0 < Fin W'" using W'(2) by simp
  moreover have "Fin 0 / Fin W' = Fin 0"
    using W'(2) by (intro zero_div) simp
  ultimately show ?thesis
    by (simp add: centroidOf_def W'(1))
qed

lemma addDispersion_origin:
  "sx a = Fin 0 \<Longrightarrow> sy a = Fin 0 \<Longrightarrow> addDispersion (Fin 0) (Fin 0) (Fin 0) a = Fin 0"
  by (simp add: addDispersion_def Let_def js_ops fl_int)

lemma foldl_addDispersion_origin:
  "\<forall>s \<in> set w. sx s = Fin 0 \<and> sy s = Fin 0 \<Longrightarrow>
   foldl (addDispersion (Fin 0) (Fin 0)) (Fin 0) w = Fin 0"
proof (induction w)
  case Nil
  show ?case by simp
next
  case (Cons a w)
  have a: "addDispersion (Fin 0) (Fin 0) (Fin 0) a = Fin 0"
    using Cons.prems by (intro addDispersion_origin) simp_all
  have "foldl (addDispersion (Fin 0) (Fin 0)) (Fin 0) w = Fin 0"
    using Cons.prems by (intro Cons.IH) simp
  then show ?case by (simp add: a)
qed

lemma rmsDispersionOf_origin:
  assumes "\<forall>s \<in> set w. sx s = Fin 0 \<and> sy s = Fin 0" and "w \<noteq> []"
  shows "rmsDispersionOf (Fin 0, Fin 0) w = Fin 0"
proof -
  have "Fin 0 / Fin (real (length w)) = Fin 0"
    using assms(2) by (intro zero_div) simp
  then show ?thesis
    by (simp add: rmsDispersionOf_def foldl_addDispersion_origin[OF assms(1)])
qed

lemma fixating_window:
  "windowPointsOf 280 (acceptedHistory (Fin 0) (Fin 0) 280 (gazeHistory fixating)) = fixatingWindow"
  by (simp add: fixating_def fixatingWindow_def acceptedHistory_keep MAX_HISTORY_POINTS_def
      GAZE_HISTORY_MS_def windowPointsOf_def FIXATION_WINDOW_MS_def)

lemma fixating_centroid: "centroidOf 280 fixatingWindow = Some (Fin 0, Fin 0)"
  by (rule centroidOf_origin) (auto simp: fixatingWindow_def)

lemma fixating_rms: "rmsDispersionOf (Fin 0, Fin 0) fixatingWindow = Fin 0"
  by (rule rmsDispersionOf_origin) (auto simp: fixatingWindow_def)

lemma fixating_not_outlier: "\<not> isOutlier (Fin 0) (Fin 0) (gazeHistory fixating)"
  by (simp add: isOutlier_def fixating_def distanceFrom_def OUTLIER_THRESHOLD_PX_def js_ops fl_int)

lemma fixating_declared: "fixationCentroid 280 fixatingWindow = Some (Fin 0, Fin 0)"
  by (simp add: fixationCentroid_def fixating_centroid fixating_rms FIXATION_MAX_RADIUS_PX_def
      js_ops)
     (simp add: fixatingWindow_def MIN_FIXATION_SAMPLES_def FIXATION_MIN_DURATION_MS_def)

text \<open>The stability factor is the binary64 value nearest to 0.15, a little below it;
  the blend of 10 towards 0 still comes out as 8.5.\<close>

lemma round64_15_100: "round64 (15 / 100) = 5404319552844595 / 2 ^ 55"
  by (subst round64_fine[of _ 55]) (simp_all add: roundHalfEven_def)

lemma fl_15_100: "fl (15 / 100) = Fin (5404319552844595 / 2 ^ 55)"
proof -
  have "fl (15 / 100) = Fin (round64 (15 / 100))"
    by (rule fl_Fin) simp
  then show ?thesis
    unfolding round64_15_100 .
qed

lemma blend_product: "Fin (5404319552844595 / 2 ^ 55) * Fin (- 10) = Fin (- (3 / 2))"
proof -
  have "round64 (5404319552844595 / 2 ^ 55 * (- 10)) = - (3 / 2)"
    by (subst round64_fine[of _ 52]) (simp_all add: roundHalfEven_def)
  moreover have "fl (5404319552844595 / 2 ^ 55 * (- 10))
      = Fin (round64 (5404319552844595 / 2 ^ 55 * (- 10)))"
    by (rule fl_Fin) simp
  ultimately show ?thesis
    unfolding times_jsnum_def js_mul.simps by (simp only:)
qed

lemma blend_example:
  "Fin 10 + fl (15 / 100) * (Fin 0 - Fin 10) = Fin (85 / 10)"
  "Fin 0 + fl (15 / 100) * (Fin 0 - Fin 0) = Fin 0"
proof -
  have d: "Fin 0 - Fin 10 = Fin (- 10)"
    by (simp add: minus_jsnum_def fl_int)
  have "Fin 10 + Fin (- (3 / 2)) = fl (17 / 2)"
    by (simp add: plus_jsnum_def)
  also have "\<dots> = Fin (17 / 2)"
    by (rule fl_exact) (rule dyadic53_scale[of _ 1], simp_all)
  finally show "Fin 10 + fl (15 / 100) * (Fin 0 - Fin 10) = Fin (85 / 10)"
    unfolding fl_15_100 d blend_product by simp
  show "Fin 0 + fl (15 / 100) * (Fin 0 - Fin 0) = Fin 0"
    unfolding fl_15_100 by simp
qed

text \<open>
  Claim C3, as the code has it. When a finite sample passes the outlier test, the
  previous smoothed point exists and is not stale, and a fixation is declared on the
  window (enough samples, enough duration, a centroid, RMS dispersion within the radius),
  the emitted point is the previous smoothed point moved by the stability factor 0.15
  towards the age-weighted centroid, on each coordinate: weight 0.85 stays on the
  previous point and 0.15 goes to the centroid. It becomes the smoothed point.
\<close>

theorem fixation_blend:
  assumes "isFinite rawX" and "isFinite rawY"
    and "\<not> isOutlier rawX rawY (gazeHistory st)"
    and "smoothedPoint st = Some p"
    and "timestamp - stime p \<le> GAZE_HISTORY_MS"
    and "w = windowPointsOf timestamp (acceptedHistory rawX rawY timestamp (gazeHistory st))"
    and "MIN_FIXATION_SAMPLES \<le> length w"
    and "FIXATION_MIN_DURATION_MS \<le> stime (last w) - stime (hd w)"
    and "centroidOf timestamp w = Some c"
    and "rmsDispersionOf c w \<le> FIXATION_MAX_RADIUS_PX"
  shows "computeFilteredGazePoint rawX rawY timestamp st =
     ((sx p + fl (15 / 100) * (fst c - sx p), sy p + fl (15 / 100) * (snd c - sy p)),
      \<lparr>gazeHistory = acceptedHistory rawX rawY timestamp (gazeHistory st),
       smoothedPoint = Some \<lparr>sx = sx p + fl (15 / 100) * (fst c - sx p),
                              sy = sy p + fl (15 / 100) * (snd c - sy p),
                              stime = timestamp\<rparr>\<rparr>)"
proof -
  have declared: "fixationCentroid timestamp w = Some c"
    using assms(7-10) by (simp add: fixationCentroid_def)
  have stale: "\<not> isStale timestamp (smoothedPoint st)"
    using assms(4,5) by (simp add: isStale_def)
  show ?thesis
    using assms(1-4) stale declared[unfolded assms(6)]
    by (simp add: computeFilteredGazePoint_def Let_def filteredFixationPoint_def stabilityFactor_def)
qed

theorem fixation_blend_witness:
  "computeFilteredGazePoint (Fin 0) (Fin 0) 280 fixating =
     ((Fin (85 / 10), Fin 0),
      \<lparr>gazeHistory = acceptedHistory (Fin 0) (Fin 0) 280 (gazeHistory fixating),
       smoothedPoint = Some \<lparr>sx = Fin (85 / 10), sy = Fin 0, stime = 280\<rparr>\<rparr>)"
  using fixation_blend[of "Fin 0" "Fin 0" fixating "\<lparr>sx = Fin 10, sy = Fin 0, stime = 240\<rparr>"
      280 fixatingWindow "(Fin 0, Fin 0)"]
    fixating_not_outlier fixating_window fixating_centroid fixating_rms blend_example
  by (simp add: FIXATION_MAX_RADIUS_PX_def GAZE_HISTORY_MS_def)
     (simp add: fixating_def fixatingWindow_def MIN_FIXATION_SAMPLES_def FIXATION_MIN_DURATION_MS_def)

text \<open>With the previous smoothed point at \<open>(10, 0)\<close> and a fixation whose centroid is
  the origin, the emitted point is \<open>(8.5, 0)\<close>: nearer to the previous point than to
  the new centroid.\<close>

theorem fixation_blend_counterexample:
  "smoothedPoint fixating = Some \<lparr>sx = Fin 10, sy = Fin 0, stime = 240\<rparr>
   \<and> fixationCentroid 280
       (windowPointsOf 280 (acceptedHistory (Fin 0) (Fin 0) 280 (gazeHistory fixating)))
       = Some (Fin 0, Fin 0)
   \<and> fst (computeFilteredGazePoint (Fin 0) (Fin 0) 280 fixating) = (Fin (85 / 10), Fin 0)"
proof -
  have "\<not> isStale 280 (smoothedPoint fixating)"
    by (simp add: isStale_def fixating_def GAZE_HISTORY_MS_def)
  then have "fst (computeFilteredGazePoint (Fin 0) (Fin 0) 280 fixating) =
      filteredFixationPoint (Fin 0, Fin 0) (smoothedPoint fixating)"
    using fixating_not_outlier
    by (simp add: computeFilteredGazePoint_def Let_def fixating_window fixating_declared)
  also have "\<dots> = (Fin (85 / 10), Fin 0)"
    using blend_example
    by (simp add: filteredFixationPoint_def fixating_def stabilityFactor_def)
  finally show ?thesis
    by (simp add: fixating_window fixating_declared) (simp add: fixating_def)
qed

section \<open>The tracker callback guards the filter\<close>

lemma handleGazeData_publish:
  assumes "\<not> isManuallyStopped tr" and "isFinite predX" and "isFinite predY"
  shows "smoothing (handleGazeData (Some (predX, predY)) elapsedTime timestamp now tr)
           = snd (computeFilteredGazePoint predX predY timestamp (smoothing tr))"
    and "isManuallyStopped (handleGazeData (Some (predX, predY)) elapsedTime timestamp now tr)
           = isManuallyStopped tr"
    and "map_option docX (gazeData (handleGazeData (Some (predX, predY)) elapsedTime timestamp now tr))
           = Some (fst (fst (computeFilteredGazePoint predX predY timestamp (smoothing tr))))"
    and "map_option docY (gazeData (handleGazeData (Some (predX, predY)) elapsedTime timestamp now tr))
           = Some (snd (fst (computeFilteredGazePoint predX predY timestamp (smoothing tr))))"
  using assms by (simp_all add: handleGazeData_def split: prod.split)

text \<open>
  The guard of the callback. \<open>handleGazeData\<close> discards a prediction with a
  non-finite coordinate before it calls the filter: nothing is published and no state
  changes. Whenever it does publish, the prediction was finite, so the pass-through
  branch of \<open>computeFilteredGazePoint\<close> is not taken on the tracker path, and the
  published coordinates are the filter's output for that finite sample.
\<close>

lemma tracker_guard:
  "(\<not> isFinite predX \<or> \<not> isFinite predY \<longrightarrow>
      handleGazeData (Some (predX, predY)) elapsedTime timestamp now tr = tr)
   \<and> (handleGazeData prediction elapsedTime timestamp now tr = tr
      \<or> (\<exists>x y g. prediction = Some (x, y) \<and> isFinite x \<and> isFinite y
            \<and> smoothing (handleGazeData prediction elapsedTime timestamp now tr)
                = snd (computeFilteredGazePoint x y timestamp (smoothing tr))
            \<and> gazeData (handleGazeData prediction elapsedTime timestamp now tr) = Some g
            \<and> (docX g, docY g) = fst (computeFilteredGazePoint x y timestamp (smoothing tr))
            \<and> (GazeX g, GazeY g) = fst (computeFilteredGazePoint x y timestamp (smoothing tr))))"
proof (intro conjI impI)
  assume "\<not> isFinite predX \<or> \<not> isFinite predY"
  then show "handleGazeData (Some (predX, predY)) elapsedTime timestamp now tr = tr"
    by (auto simp: handleGazeData_def)
next
  show "handleGazeData prediction elapsedTime timestamp now tr = tr
      \<or> (\<exists>x y g. prediction = Some (x, y) \<and> isFinite x \<and> isFinite y
            \<and> smoothing (handleGazeData prediction elapsedTime timestamp now tr)
                = snd (computeFilteredGazePoint x y timestamp (smoothing tr))
            \<and> gazeData (handleGazeData prediction elapsedTime timestamp now tr) = Some g
            \<and> (docX g, docY g) = fst (computeFilteredGazePoint x y timestamp (smoothing tr))
            \<and> (GazeX g, GazeY g) = fst (computeFilteredGazePoint x y timestamp (smoothing tr)))"
  proof (cases prediction)
    case None
    then show ?thesis by (simp add: handleGazeData_def)
  next
    case (Some xy)
    obtain x y where xy: "xy = (x, y)" by (cases xy) auto
    show ?thesis
    proof (cases "isManuallyStopped tr \<or> \<not> isFinite x \<or> \<not> isFinite y")
      case True
      then show ?thesis by (auto simp: Some xy handleGazeData_def)
    next
      case False
      then show ?thesis
        by (intro disjI2 exI[of _ x] exI[of _ y])
           (simp add: Some xy handleGazeData_def split: prod.split)
    qed
  qed
qed

lemma tracker_guard_example:
  "handleGazeData (Some (NaN, Fin 3)) (Fin 0) 5 5 tracking = tracking
   \<and> map_option docX (gazeData (handleGazeData (Some (Fin 3, Fin 4)) (Fin 0) 5 5 tracking))
       = Some (Fin 3)"
  using tracker_guard[of NaN "Fin 3" "Fin 0" 5 5 tracking "Some (Fin 3, Fin 4)"]
  by (auto simp: cfgp_seed tracking_def handleGazeData_def)

text \<open>Where the moving average overflows. \<open>hugeX\<close> and its quarter are numbers of
  the format, and so is their sum; adding a sixth of \<open>hugeX\<close> goes past the range.\<close>

lemma far_sel:
  "sx far1 = Fin hugeX" "sy far1 = Fin 0" "stime far1 = 0"
  "sx far2 = Fin hugeX" "sy far2 = Fin 100" "stime far2 = 16"
  "sx far3 = Fin hugeX" "sy far3 = Fin 200" "stime far3 = 32"
  by (simp_all add: far1_def far2_def far3_def)

lemma hugeX_fl: "fl hugeX = Fin hugeX"
  by (rule fl_exact) (rule dyadic53_big[of _ 1022], simp_all add: hugeX_def)

lemma hugeX_same: "Fin hugeX - Fin hugeX = Fin 0" "Fin hugeX + Fin 0 = Fin hugeX"
  by (simp_all add: minus_jsnum_def plus_jsnum_def hugeX_fl)

lemma quarter: "Fin (1 / 2) / Fin 2 = Fin (1 / 4)"
proof -
  have "fl (1 / 4) = Fin (1 / 4)"
    by (rule fl_exact) (rule dyadic53_scale[of _ 2], simp_all)
  then show ?thesis
    by (simp add: divide_jsnum_def)
qed

lemma hugeX_quarter:
  "Fin hugeX * Fin (1 / 4) = Fin (hugeX / 4)"
  "\<exists>s. Fin hugeX + Fin (hugeX / 4) = Fin s \<and> s = 15 * 2 ^ 1020"
proof -
  have "fl (hugeX / 4) = Fin (hugeX / 4)"
    by (rule fl_exact) (rule dyadic53_big[of _ 1020], simp_all add: hugeX_def)
  then show "Fin hugeX * Fin (1 / 4) = Fin (hugeX / 4)"
    by (simp add: times_jsnum_def)
  have "fl (15 * 2 ^ 1020) = Fin (15 * 2 ^ 1020)"
    by (rule fl_exact) (rule dyadic53_big[of _ 1020], simp_all)
  moreover have "hugeX + hugeX / 4 = 15 * 2 ^ 1020"
    by (simp add: hugeX_def)
  ultimately have "Fin hugeX + Fin (hugeX / 4) = Fin (15 * 2 ^ 1020)"
    by (simp only: plus_jsnum_def js_add.simps)
  then show "\<exists>s. Fin hugeX + Fin (hugeX / 4) = Fin s \<and> s = 15 * 2 ^ 1020"
    by blast
qed

lemma hugeX_overflow:
  assumes "s = 15 * 2 ^ 1020" and "1 / 8 \<le> w" and "w \<le> 1 / 4"
  shows "Fin s + Fin hugeX * Fin w = PInf"
proof -
  have b: "hugeX / 8 \<le> hugeX * w" "hugeX * w \<le> hugeX / 4"
    using assms(2,3) by (simp_all add: hugeX_def)
  have d8: "dyadic53 (hugeX / 8)"
    by (rule dyadic53_big[of _ 1019]) (simp_all add: hugeX_def)
  have d4: "dyadic53 (hugeX / 4)"
    by (rule dyadic53_big[of _ 1020]) (simp_all add: hugeX_def)
  have "\<exists>q. fl (hugeX * w) = Fin q \<and> hugeX / 8 \<le> q \<and> q \<le> hugeX / 4"
    using b d8 d4 by (intro fl_between) (simp_all add: hugeX_def)
  then obtain q where q: "Fin hugeX * Fin w = Fin q" "hugeX / 8 \<le> q"
    by (auto simp: times_jsnum_def)
  have "2 ^ 1024 \<le> s + q"
    using q(2) assms(1) by (simp add: hugeX_def)
  then have "fl (s + q) = PInf"
    by (rule fl_overflow)
  then show ?thesis
    by (simp only: q(1) plus_jsnum_def js_add.simps)
qed

lemma far_step2:
  "\<exists>y. computeFilteredGazePoint (Fin hugeX) (Fin 100) 16
      \<lparr>gazeHistory = [far1], smoothedPoint = Some far1\<rparr> =
     ((Fin hugeX, Fin y),
      \<lparr>gazeHistory = [far1, far2],
       smoothedPoint = Some \<lparr>sx = Fin hugeX, sy = Fin y, stime = 16\<rparr>\<rparr>)
     \<and> 1048575 / 131072 \<le> y \<and> y \<le> 7864325 / 131072"
proof -
  have dY: "Fin 100 - Fin 0 = Fin 100"
    by (simp add: minus_jsnum_def fl_int)
  have dist: "Math_hypot (Fin 0) (Fin 100) = Fin 100"
    by (simp add: fl_int)
  have "fl (25 / 4) = Fin (25 / 4)"
    by (rule fl_exact) (rule dyadic53_scale[of _ 2], simp_all)
  then have v: "Fin 100 / Fin 16 * Fin 1000 = Fin 6250"
    by (simp add: divide_jsnum_def times_jsnum_def fl_int)
  have cv: "clamp (Fin 6250) (Fin 0) MAX_VELOCITY_PX_PER_S = Fin 1500"
    unfolding MAX_VELOCITY_PX_PER_S_def by (intro clamp_top) simp_all
  have x: "Fin 1500 / MAX_VELOCITY_PX_PER_S = Fin 1"
    by (simp add: MAX_VELOCITY_PX_PER_S_def divide_jsnum_def fl_int)
  have nv: "Math_pow (Fin 1) (3 / 2) = Fin 1"
    by (simp add: fl_int)
  have d100: "Fin 100 / Fin 100 = Fin 1"
    by (simp add: divide_jsnum_def fl_int)
  have cd: "clamp (Fin 1) (Fin 0) (Fin 1) = Fin 1"
    by (intro clamp_mid) simp_all
  have "\<exists>z. fl (3 / 10) = Fin z
      \<and> 78643 / 262144 \<le> z \<and> z \<le> 314573 / 1048576"
    by (rule fl_grid) (simp_all add: grid_def)
  then obtain c03 where c03: "fl (3 / 10) = Fin c03"
      "78643 / 262144 \<le> c03" "c03 \<le> 314573 / 1048576"
    by blast
  have "\<exists>z. fl (7 / 10) = Fin z
      \<and> 734003 / 1048576 \<le> z \<and> z \<le> 183501 / 262144"
    by (rule fl_grid) (simp_all add: grid_def)
  then obtain c07 where c07: "fl (7 / 10) = Fin c07"
      "734003 / 1048576 \<le> c07" "c07 \<le> 183501 / 262144"
    by blast
  have "\<exists>z. SMOOTH_MIN_ALPHA = Fin z
      \<and> 41943 / 524288 \<le> z \<and> z \<le> 83887 / 1048576"
    unfolding SMOOTH_MIN_ALPHA_def by (rule fl_grid) (simp_all add: grid_def)
  then obtain cmin where cmin: "SMOOTH_MIN_ALPHA = Fin cmin"
      "41943 / 524288 \<le> cmin" "cmin \<le> 83887 / 1048576"
    by blast
  have "\<exists>z. SMOOTH_MAX_ALPHA = Fin z
      \<and> 629145 / 1048576 \<le> z \<and> z \<le> 314573 / 524288"
    unfolding SMOOTH_MAX_ALPHA_def by (rule fl_grid) (simp_all add: grid_def)
  then obtain cmax where cmax: "SMOOTH_MAX_ALPHA = Fin cmax"
      "629145 / 1048576 \<le> cmax" "cmax \<le> 314573 / 524288"
    by blast
  have "\<exists>z. Fin c03 * Fin 1 = Fin z
      \<and> 78643 / 262144 \<le> z \<and> z \<le> 314573 / 1048576"
    by (rule mul_bounds[OF c03(2) c03(3) order_refl order_refl]) (simp_all add: grid_def)
  then obtain t1 where t1: "Fin c03 * Fin 1 = Fin t1"
      "78643 / 262144 \<le> t1" "t1 \<le> 314573 / 1048576"
    by blast
  have "\<exists>z. Fin c07 * Fin 1 = Fin z
      \<and> 734003 / 1048576 \<le> z \<and> z \<le> 183501 / 262144"
    by (rule mul_bounds[OF c07(2) c07(3) order_refl order_refl]) (simp_all add: grid_def)
  then obtain t2 where t2: "Fin c07 * Fin 1 = Fin t2"
      "734003 / 1048576 \<le> t2" "t2 \<le> 183501 / 262144"
    by blast
  have "\<exists>z. Fin t1 + Fin t2 = Fin z
      \<and> 1048575 / 1048576 \<le> z \<and> z \<le> 1048577 / 1048576"
    by (rule add_bounds[OF t1(2) t1(3) t2(2) t2(3)]) (simp_all add: grid_def)
  then obtain t3 where t3: "Fin t1 + Fin t2 = Fin t3"
      "1048575 / 1048576 \<le> t3" "t3 \<le> 1048577 / 1048576"
    by blast
  have "\<exists>z. Fin cmax - Fin cmin = Fin z
      \<and> 272629 / 524288 \<le> z \<and> z \<le> 136315 / 262144"
    by (rule sub_bounds[OF cmax(2) cmax(3) cmin(2) cmin(3)]) (simp_all add: grid_def)
  then obtain rng where rng: "Fin cmax - Fin cmin = Fin rng"
      "272629 / 524288 \<le> rng" "rng \<le> 136315 / 262144"
    by blast
  have "\<exists>z. Fin rng * Fin t3 = Fin z
      \<and> 545257 / 1048576 \<le> z \<and> z \<le> 545261 / 1048576"
    by (rule mul_bounds[OF rng(2) rng(3) t3(2) t3(3)]) (simp_all add: grid_def)
  then obtain t4 where t4: "Fin rng * Fin t3 = Fin t4"
      "545257 / 1048576 \<le> t4" "t4 \<le> 545261 / 1048576"
    by blast
  have "\<exists>z. Fin cmin + Fin t4 = Fin z
      \<and> 629143 / 1048576 \<le> z \<and> z \<le> 157287 / 262144"
    by (rule add_bounds[OF cmin(2) cmin(3) t4(2) t4(3)]) (simp_all add: grid_def)
  then obtain a0 where a0: "Fin cmin + Fin t4 = Fin a0"
      "629143 / 1048576 \<le> a0" "a0 \<le> 157287 / 262144"
    by blast
  have "\<exists>a. clamp (Fin a0) (Fin cmin) (Fin cmax) = Fin a \<and> cmin \<le> a \<and> a \<le> cmax"
    using cmin(3) cmax(2) by (intro clamp_within) simp
  then obtain a where a: "clamp (Fin a0) (Fin cmin) (Fin cmax) = Fin a"
      "41943 / 524288 \<le> a" "a \<le> 314573 / 524288"
    using cmin(2) cmax(3) by auto
  have "\<exists>z. Fin a * Fin 100 = Fin z
      \<and> 1048575 / 131072 \<le> z \<and> z \<le> 7864325 / 131072"
    by (rule mul_bounds[OF a(2) a(3) order_refl order_refl]) (simp_all add: grid_def)
  then obtain mY where mY: "Fin a * Fin 100 = Fin mY"
      "1048575 / 131072 \<le> mY" "mY \<le> 7864325 / 131072"
    by blast
  have "\<exists>z. Fin 0 + Fin mY = Fin z
      \<and> 1048575 / 131072 \<le> z \<and> z \<le> 7864325 / 131072"
    by (rule add_bounds[OF order_refl order_refl mY(2) mY(3)]) (simp_all add: grid_def)
  then obtain fY where fY: "Fin 0 + Fin mY = Fin fY"
      "1048575 / 131072 \<le> fY" "fY \<le> 7864325 / 131072"
    by blast
  have ex: "\<not> isExtremeSaccade (Fin hugeX) (Fin 100) 16 far1"
    by (simp add: isExtremeSaccade_def distanceFrom_def far_sel hugeX_same dY dist
        snap_distance del: Math_hypot.simps)
  have fast: "MAX_VELOCITY_PX_PER_S * fl (3 / 10) < Fin 6250"
    by (simp add: average_velocity)
  have step: "smoothStep (Fin hugeX) (Fin 100) 16 [far1, far2] far1 = (Fin hugeX, Fin fY)"
    using ex fast
    by (simp add: smoothStep_def Let_def distanceFrom_def velocityFrom_def of_ms_def far_sel
        hugeX_same dY dist v cv x nv d100 cd c03(1) c07(1) cmin(1) cmax(1) t1(1) t2(1) t3(1) rng(1) t4(1) a0(1) a(1) mY(1) fY(1)
        movingAverage_short
        del: Math_hypot.simps Math_pow.simps)
  have acc: "acceptedHistory (Fin hugeX) (Fin 100) 16 [far1] = [far1, far2]"
    by (simp add: acceptedHistory_keep MAX_HISTORY_POINTS_def GAZE_HISTORY_MS_def far_sel far2_def)
  have no: "\<not> isOutlier (Fin hugeX) (Fin 100) [far1]"
    by (simp add: isOutlier_def distanceFrom_def far_sel OUTLIER_THRESHOLD_PX_def hugeX_same
        dY dist del: Math_hypot.simps)
  have nf: "fixationCentroid 16 (windowPointsOf 16 [far1, far2]) = None"
    by (rule no_fixation_short) (simp add: MIN_FIXATION_SAMPLES_def)
  have "computeFilteredGazePoint (Fin hugeX) (Fin 100) 16
      \<lparr>gazeHistory = [far1], smoothedPoint = Some far1\<rparr> =
     ((Fin hugeX, Fin fY),
      \<lparr>gazeHistory = [far1, far2],
       smoothedPoint = Some \<lparr>sx = Fin hugeX, sy = Fin fY, stime = 16\<rparr>\<rparr>)"
    using cfgp_smooth[of "Fin hugeX" "Fin 100" "\<lparr>gazeHistory = [far1], smoothedPoint = Some far1\<rparr>"
        far1 16 "(Fin hugeX, Fin fY)"] no nf step
    by (simp add: acc far_sel GAZE_HISTORY_MS_def)
  then show ?thesis
    using fY(2,3) by blast
qed

lemma far_step3:
  assumes y0: "1048575 / 131072 \<le> y0" "y0 \<le> 7864325 / 131072"
  shows "fst (fst (computeFilteredGazePoint (Fin hugeX) (Fin 200) 32
      \<lparr>gazeHistory = [far1, far2],
       smoothedPoint = Some \<lparr>sx = Fin hugeX, sy = Fin y0, stime = 16\<rparr>\<rparr>)) = PInf"
proof -
  let ?p = "\<lparr>sx = Fin hugeX, sy = Fin y0, stime = 16\<rparr>"
  have "\<exists>z. Fin 200 - Fin y0 = Fin z
      \<and> 18350075 / 131072 \<le> z \<and> z \<le> 25165825 / 131072"
    by (rule sub_bounds[OF order_refl order_refl y0(1) y0(2)]) (simp_all add: grid_def)
  then obtain dY where dY: "Fin 200 - Fin y0 = Fin dY"
      "18350075 / 131072 \<le> dY" "dY \<le> 25165825 / 131072"
    by blast
  have "\<exists>z. Math_hypot (Fin 0) (Fin dY) = Fin z
      \<and> 18350075 / 131072 \<le> z \<and> z \<le> 25165825 / 131072"
    by (rule hypot0_bounds'[OF dY(2) dY(3)]) (simp_all add: grid_def)
  then obtain dist where dist: "Math_hypot (Fin 0) (Fin dY) = Fin dist"
      "18350075 / 131072 \<le> dist" "dist \<le> 25165825 / 131072"
    by blast
  have "\<exists>z. Fin dist / Fin 16 = Fin z
      \<and> 9175037 / 1048576 \<le> z \<and> z \<le> 12582913 / 1048576"
    by (rule div_bounds[OF dist(2) dist(3) order_refl order_refl]) (simp_all add: grid_def)
  then obtain q where q: "Fin dist / Fin 16 = Fin q"
      "9175037 / 1048576 \<le> q" "q \<le> 12582913 / 1048576"
    by blast
  have "\<exists>z. Fin q * Fin 1000 = Fin z
      \<and> 1146879625 / 131072 \<le> z \<and> z \<le> 1572864125 / 131072"
    by (rule mul_bounds[OF q(2) q(3) order_refl order_refl]) (simp_all add: grid_def)
  then obtain v where v: "Fin q * Fin 1000 = Fin v"
      "1146879625 / 131072 \<le> v" "v \<le> 1572864125 / 131072"
    by blast
  have "\<exists>z. Fin dist / Fin 100 = Fin z
      \<and> 734003 / 524288 \<le> z \<and> z \<le> 1006633 / 524288"
    by (rule div_bounds[OF dist(2) dist(3) order_refl order_refl]) (simp_all add: grid_def)
  then obtain d100 where d100: "Fin dist / Fin 100 = Fin d100"
      "734003 / 524288 \<le> d100" "d100 \<le> 1006633 / 524288"
    by blast
  have "\<exists>z. fl (3 / 10) = Fin z
      \<and> 78643 / 262144 \<le> z \<and> z \<le> 314573 / 1048576"
    by (rule fl_grid) (simp_all add: grid_def)
  then obtain c03 where c03: "fl (3 / 10) = Fin c03"
      "78643 / 262144 \<le> c03" "c03 \<le> 314573 / 1048576"
    by blast
  have "\<exists>z. fl (7 / 10) = Fin z
      \<and> 734003 / 1048576 \<le> z \<and> z \<le> 183501 / 262144"
    by (rule fl_grid) (simp_all add: grid_def)
  then obtain c07 where c07: "fl (7 / 10) = Fin c07"
      "734003 / 1048576 \<le> c07" "c07 \<le> 183501 / 262144"
    by blast
  have "\<exists>z. SMOOTH_MIN_ALPHA = Fin z
      \<and> 41943 / 524288 \<le> z \<and> z \<le> 83887 / 1048576"
    unfolding SMOOTH_MIN_ALPHA_def by (rule fl_grid) (simp_all add: grid_def)
  then obtain cmin where cmin: "SMOOTH_MIN_ALPHA = Fin cmin"
      "41943 / 524288 \<le> cmin" "cmin \<le> 83887 / 1048576"
    by blast
  have "\<exists>z. SMOOTH_MAX_ALPHA = Fin z
      \<and> 629145 / 1048576 \<le> z \<and> z \<le> 314573 / 524288"
    unfolding SMOOTH_MAX_ALPHA_def by (rule fl_grid) (simp_all add: grid_def)
  then obtain cmax where cmax: "SMOOTH_MAX_ALPHA = Fin cmax"
      "629145 / 1048576 \<le> cmax" "cmax \<le> 314573 / 524288"
    by blast
  have "\<exists>z. Fin c03 * Fin 1 = Fin z
      \<and> 78643 / 262144 \<le> z \<and> z \<le> 314573 / 1048576"
    by (rule mul_bounds[OF c03(2) c03(3) order_refl order_refl]) (simp_all add: grid_def)
  then obtain t1 where t1: "Fin c03 * Fin 1 = Fin t1"
      "78643 / 262144 \<le> t1" "t1 \<le> 314573 / 1048576"
    by blast
  have "\<exists>z. Fin c07 * Fin 1 = Fin z
      \<and> 734003 / 1048576 \<le> z \<and> z \<le> 183501 / 262144"
    by (rule mul_bounds[OF c07(2) c07(3) order_refl order_refl]) (simp_all add: grid_def)
  then obtain t2 where t2: "Fin c07 * Fin 1 = Fin t2"
      "734003 / 1048576 \<le> t2" "t2 \<le> 183501 / 262144"
    by blast
  have "\<exists>z. Fin t1 + Fin t2 = Fin z
      \<and> 1048575 / 1048576 \<le> z \<and> z \<le> 1048577 / 1048576"
    by (rule add_bounds[OF t1(2) t1(3) t2(2) t2(3)]) (simp_all add: grid_def)
  then obtain t3 where t3: "Fin t1 + Fin t2 = Fin t3"
      "1048575 / 1048576 \<le> t3" "t3 \<le> 1048577 / 1048576"
    by blast
  have "\<exists>z. Fin cmax - Fin cmin = Fin z
      \<and> 272629 / 524288 \<le> z \<and> z \<le> 136315 / 262144"
    by (rule sub_bounds[OF cmax(2) cmax(3) cmin(2) cmin(3)]) (simp_all add: grid_def)
  then obtain rng where rng: "Fin cmax - Fin cmin = Fin rng"
      "272629 / 524288 \<le> rng" "rng \<le> 136315 / 262144"
    by blast
  have "\<exists>z. Fin rng * Fin t3 = Fin z
      \<and> 545257 / 1048576 \<le> z \<and> z \<le> 545261 / 1048576"
    by (rule mul_bounds[OF rng(2) rng(3) t3(2) t3(3)]) (simp_all add: grid_def)
  then obtain t4 where t4: "Fin rng * Fin t3 = Fin t4"
      "545257 / 1048576 \<le> t4" "t4 \<le> 545261 / 1048576"
    by blast
  have "\<exists>z. Fin cmin + Fin t4 = Fin z
      \<and> 629143 / 1048576 \<le> z \<and> z \<le> 157287 / 262144"
    by (rule add_bounds[OF cmin(2) cmin(3) t4(2) t4(3)]) (simp_all add: grid_def)
  then obtain a0 where a0: "Fin cmin + Fin t4 = Fin a0"
      "629143 / 1048576 \<le> a0" "a0 \<le> 157287 / 262144"
    by blast
  have "\<exists>a. clamp (Fin a0) (Fin cmin) (Fin cmax) = Fin a \<and> cmin \<le> a \<and> a \<le> cmax"
    using cmin(3) cmax(2) by (intro clamp_within) simp
  then obtain a where a: "clamp (Fin a0) (Fin cmin) (Fin cmax) = Fin a"
      "41943 / 524288 \<le> a" "a \<le> 314573 / 524288"
    using cmin(2) cmax(3) by auto
  have "\<exists>z. Fin (1 / 2) / Fin 3 = Fin z
      \<and> 87381 / 524288 \<le> z \<and> z \<le> 174763 / 1048576"
    by (rule div_bounds[OF order_refl order_refl order_refl order_refl]) (simp_all add: grid_def)
  then obtain w1 where w1: "Fin (1 / 2) / Fin 3 = Fin w1"
      "87381 / 524288 \<le> w1" "w1 \<le> 174763 / 1048576"
    by blast
  have cv: "clamp (Fin v) (Fin 0) MAX_VELOCITY_PX_PER_S = Fin 1500"
    unfolding MAX_VELOCITY_PX_PER_S_def using v(2) by (intro clamp_top) simp_all
  have x: "Fin 1500 / MAX_VELOCITY_PX_PER_S = Fin 1"
    by (simp add: MAX_VELOCITY_PX_PER_S_def divide_jsnum_def fl_int)
  have nv: "Math_pow (Fin 1) (3 / 2) = Fin 1"
    by (simp add: fl_int)
  have cd: "clamp (Fin d100) (Fin 0) (Fin 1) = Fin 1"
    using d100(2) by (intro clamp_top) simp_all
  have ex: "\<not> isExtremeSaccade (Fin hugeX) (Fin 200) 32 ?p"
    using dist(3)
    by (simp add: isExtremeSaccade_def distanceFrom_def hugeX_same dY(1) dist(1)
        snap_distance del: Math_hypot.simps)
  have fast: "MAX_VELOCITY_PX_PER_S * fl (3 / 10) < Fin v"
    using v(2) by (simp add: average_velocity)
  obtain hs where hs: "Fin hugeX + Fin (hugeX / 4) = Fin hs" "hs = 15 * 2 ^ 1020"
    using hugeX_quarter(2) by blast
  have over: "Fin hs + Fin hugeX * Fin w1 = PInf"
    using hs(2) w1(2,3) by (intro hugeX_overflow) simp_all
  have "\<exists>z. Fin (5 / 4) + Fin w1 = Fin z \<and> 1 \<le> z \<and> z \<le> 2"
    by (rule add_bounds[OF order_refl order_refl w1(2) w1(3)]) (simp_all add: grid_def)
  then obtain cnt where cnt: "Fin (5 / 4) + Fin w1 = Fin cnt" "1 \<le> cnt"
    by blast
  have c0: "Fin 1 + Fin (1 / 4) = Fin (5 / 4)"
  proof -
    have "fl (5 / 4) = Fin (5 / 4)"
      by (rule fl_exact) (rule dyadic53_scale[of _ 2], simp_all)
    then show ?thesis by (simp add: plus_jsnum_def)
  qed
  have inf: "PInf / Fin cnt = PInf"
    using cnt(2) by (simp add: divide_jsnum_def)
  have step: "fst (smoothStep (Fin hugeX) (Fin 200) 32 [far1, far2, far3] ?p) = PInf"
    using ex fast cnt(2)
    by (simp add: smoothStep_def Let_def distanceFrom_def velocityFrom_def of_ms_def far_sel
        hugeX_same dY(1) dist(1) q(1) v(1) d100(1) c03(1) c07(1) cmin(1) cmax(1) t1(1) t2(1) t3(1) rng(1) t4(1) a0(1) a(1) w1(1) cv x nv cd
        movingAverage_def addRecent_def recent_indices quarter hugeX_quarter(1) hs(1) over c0 cnt(1) inf
        del: Math_hypot.simps Math_pow.simps)
  have acc: "acceptedHistory (Fin hugeX) (Fin 200) 32 [far1, far2] = [far1, far2, far3]"
    by (simp add: acceptedHistory_keep MAX_HISTORY_POINTS_def GAZE_HISTORY_MS_def far_sel far3_def)
  have "Fin 200 - Fin 100 = Fin 100" "Math_hypot (Fin 0) (Fin 100) = Fin 100"
    by (simp_all add: minus_jsnum_def fl_int)
  then have no: "\<not> isOutlier (Fin hugeX) (Fin 200) [far1, far2]"
    by (simp add: isOutlier_def distanceFrom_def far_sel OUTLIER_THRESHOLD_PX_def hugeX_same
        del: Math_hypot.simps)
  have nf: "fixationCentroid 32 (windowPointsOf 32 [far1, far2, far3]) = None"
    by (rule no_fixation_short) (simp add: MIN_FIXATION_SAMPLES_def)
  show ?thesis
    using cfgp_smooth[of "Fin hugeX" "Fin 200"
        "\<lparr>gazeHistory = [far1, far2], smoothedPoint = Some ?p\<rparr>" ?p 32
        "smoothStep (Fin hugeX) (Fin 200) 32 [far1, far2, far3] ?p"] no nf step
    by (simp add: acc GAZE_HISTORY_MS_def)
qed

text \<open>
  Claim C9. The published point is not always finite. With the tracker started, three
  finite predictions with \<open>x = 1.5 * 2 ^ 1023\<close> and \<open>y = 0, 100, 200\<close>, 16 ms
  apart, pass the guard of the callback and the outlier test; on the third the
  moving-average pass, which runs after the finite fallback of the smoothing step, sums
  \<open>x + x / 4 + x / 6\<close>, and \<open>docX = Infinity\<close> is published.
\<close>

theorem published_point_overflow:
  "map_option docX (gazeData
      (handleGazeData (Some (Fin hugeX, Fin 200)) (Fin 0) 32 32
        (handleGazeData (Some (Fin hugeX, Fin 100)) (Fin 0) 16 16
          (handleGazeData (Some (Fin hugeX, Fin 0)) (Fin 0) 0 0 tracking)))) = Some PInf"
proof -
  define tr1 where "tr1 = handleGazeData (Some (Fin hugeX, Fin 0)) (Fin 0) 0 0 tracking"
  define tr2 where "tr2 = handleGazeData (Some (Fin hugeX, Fin 100)) (Fin 0) 16 16 tr1"
  have t0: "\<not> isManuallyStopped tracking"
    "smoothing tracking = \<lparr>gazeHistory = [], smoothedPoint = None\<rparr>"
    by (simp_all add: tracking_def)
  have s1: "smoothing tr1 = \<lparr>gazeHistory = [far1], smoothedPoint = Some far1\<rparr>"
    and m1: "\<not> isManuallyStopped tr1"
    unfolding tr1_def using t0
    by (simp_all add: handleGazeData_publish cfgp_seed far1_def)
  obtain y where y: "computeFilteredGazePoint (Fin hugeX) (Fin 100) 16
      \<lparr>gazeHistory = [far1], smoothedPoint = Some far1\<rparr> =
     ((Fin hugeX, Fin y),
      \<lparr>gazeHistory = [far1, far2],
       smoothedPoint = Some \<lparr>sx = Fin hugeX, sy = Fin y, stime = 16\<rparr>\<rparr>)"
     "1048575 / 131072 \<le> y" "y \<le> 7864325 / 131072"
    using far_step2 by blast
  have s2: "smoothing tr2 = \<lparr>gazeHistory = [far1, far2],
       smoothedPoint = Some \<lparr>sx = Fin hugeX, sy = Fin y, stime = 16\<rparr>\<rparr>"
    and m2: "\<not> isManuallyStopped tr2"
    unfolding tr2_def using m1
    by (simp_all add: handleGazeData_publish s1 y(1))
  have "map_option docX (gazeData (handleGazeData (Some (Fin hugeX, Fin 200)) (Fin 0) 32 32 tr2))
      = Some PInf"
    using m2 by (simp add: handleGazeData_publish s2 far_step3[OF y(2,3)])
  then show ?thesis by (simp add: tr2_def tr1_def)
qed

text \<open>The gaze data published after the third prediction carries a \<open>docX\<close> that is
  not finite.\<close>

theorem published_point_overflow_witness:
  "\<exists>g. gazeData
      (handleGazeData (Some (Fin hugeX, Fin 200)) (Fin 0) 32 32
        (handleGazeData (Some (Fin hugeX, Fin 100)) (Fin 0) 16 16
          (handleGazeData (Some (Fin hugeX, Fin 0)) (Fin 0) 0 0 tracking))) = Some g
     \<and> docX g = PInf \<and> isFinite (docX g) = False"
  using published_point_overflow by (auto simp: map_option_eq_Some)

section \<open>Letter assignments and level transitions\<close>

text \<open>The map built by the \<open>forEach\<close> loop is the map of the zipped lists: the zone
  order has no repeated zone.\<close>

lemma foldl_assign:
  "i + length vs \<le> length ks \<Longrightarrow>
   foldl (\<lambda>mapping (index, letter). mapping(ks ! index \<mapsto> letter)) m0
     (zip [i ..< i + length vs] vs)
   = m0 ++ map_of (rev (zip (drop i ks) vs))"
proof (induction vs arbitrary: i m0)
  case Nil
  show ?case by simp
next
  case (Cons v vs)
  let ?f = "\<lambda>mapping (index, letter). mapping(ks ! index \<mapsto> letter)"
  have "i < Suc i + length vs" by simp
  then have "[i ..< Suc i + length vs] = i # [Suc i ..< Suc i + length vs]"
    by (rule upt_conv_Cons)
  moreover have "i + length (v # vs) = Suc i + length vs" by simp
  ultimately have upt: "[i ..< i + length (v # vs)] = i # [Suc i ..< Suc i + length vs]"
    by (simp only:)
  have dr: "drop i ks = ks ! i # drop (Suc i) ks"
    using Cons.prems by (simp add: Cons_nth_drop_Suc)
  have "foldl ?f m0 (zip [i ..< i + length (v # vs)] (v # vs))
      = foldl ?f (m0(ks ! i \<mapsto> v)) (zip [Suc i ..< Suc i + length vs] vs)"
    unfolding upt by simp
  also have "\<dots> = m0(ks ! i \<mapsto> v) ++ map_of (rev (zip (drop (Suc i) ks) vs))"
    using Cons.prems by (intro Cons.IH) simp
  also have "\<dots> = m0 ++ map_of (rev (zip (drop i ks) (v # vs)))"
    unfolding dr by (rule ext) (simp add: map_add_def split: option.split)
  finally show ?case .
qed

lemma map_of_rev_distinct:
  "distinct (map fst xs) \<Longrightarrow> map_of (rev xs) = map_of xs"
proof (induction xs)
  case Nil
  show ?case by simp
next
  case (Cons a xs)
  have notin: "fst a \<notin> dom (map_of xs)"
    using Cons.prems by (auto simp: dom_map_of_conv_image_fst)
  have "map_of (rev (a # xs)) = map_of [a] ++ map_of xs"
    using Cons by simp
  also have "\<dots> = map_of (a # xs)"
    using notin by (cases a) (auto simp: map_add_def fun_eq_iff split: option.split)
  finally show ?case .
qed

lemma zip_take_right: "zip xs (take (length xs) ys) = zip xs ys"
proof (induction xs arbitrary: ys)
  case Nil
  show ?case by simp
next
  case (Cons x xs)
  show ?case by (cases ys) (simp_all add: Cons.IH)
qed

lemma assignLetters_map_of:
  "assignLetters active = map_of (zip LETTER_ZONE_ORDER active)"
proof -
  define sliced where "sliced = take (length LETTER_ZONE_ORDER) active"
  have len: "0 + length sliced \<le> length LETTER_ZONE_ORDER"
    by (simp add: sliced_def)
  have "distinct (map fst (zip LETTER_ZONE_ORDER sliced))"
    by (simp add: map_fst_zip_take LETTER_ZONE_ORDER_def)
  then have "map_of (rev (zip LETTER_ZONE_ORDER sliced)) = map_of (zip LETTER_ZONE_ORDER sliced)"
    by (rule map_of_rev_distinct)
  moreover have "zip LETTER_ZONE_ORDER sliced = zip LETTER_ZONE_ORDER active"
    unfolding sliced_def by (rule zip_take_right)
  ultimately show ?thesis
    using foldl_assign[OF len, of Map.empty]
    by (simp add: assignLetters_def Let_def sliced_def[symmetric])
qed

lemma commit_fields:
  "cooldownUntil (commit now st) = now + COOLDOWN_TIME"
  "hoveredZone (commit now st) = None"
  "dwellStartTime (commit now st) = None"
  "selectionLevel (commit now st) = selectionLevel st"
  "selectedZone (commit now st) = selectedZone st"
  by (simp_all add: commit_def)

text \<open>
  Claim C6. At the group level, activating a zone other than Center and South whose
  group has at least one letter moves the wheel to the letter level and remembers that
  zone; the letter assignments then map the first letters of the group, in order, onto
  the zones 7, 0, 1, 2, 3, 5, 6 (as many as there are letters, at most seven). At the
  letter level, activating South goes back to the group level and forgets the group,
  with no callback fired.
\<close>

theorem group_commit_and_back:
  "(selectionLevel st = Group \<and> z \<noteq> CENTER_INDEX \<and> z \<noteq> SOUTH_INDEX
      \<and> z < length (zones alphabet) \<and> letters (zones alphabet ! z) \<noteq> []
    \<longrightarrow> handleZoneActivation alphabet (Some z) now st =
          (Committed [], commit now (st\<lparr>selectedZone := Some z, selectionLevel := Letter\<rparr>))
        \<and> selectionLevel (snd (handleZoneActivation alphabet (Some z) now st)) = Letter
        \<and> selectedZone (snd (handleZoneActivation alphabet (Some z) now st)) = Some z
        \<and> letterAssignments alphabet (snd (handleZoneActivation alphabet (Some z) now st))
            = map_of (zip [7, 0, 1, 2, 3, 5, 6] (letters (zones alphabet ! z))))
   \<and> (selectionLevel st = Letter
    \<longrightarrow> handleZoneActivation alphabet (Some SOUTH_INDEX) now st =
          (Committed [], commit now (resetSelection st))
        \<and> selectionLevel (snd (handleZoneActivation alphabet (Some SOUTH_INDEX) now st)) = Group
        \<and> selectedZone (snd (handleZoneActivation alphabet (Some SOUTH_INDEX) now st)) = None)"
proof (intro conjI impI)
  assume a: "selectionLevel st = Group \<and> z \<noteq> CENTER_INDEX \<and> z \<noteq> SOUTH_INDEX
      \<and> z < length (zones alphabet) \<and> letters (zones alphabet ! z) \<noteq> []"
  then show r: "handleZoneActivation alphabet (Some z) now st =
      (Committed [], commit now (st\<lparr>selectedZone := Some z, selectionLevel := Letter\<rparr>))"
    by (simp add: handleZoneActivation_def)
  show "selectionLevel (snd (handleZoneActivation alphabet (Some z) now st)) = Letter"
    by (simp add: r commit_fields)
  show "selectedZone (snd (handleZoneActivation alphabet (Some z) now st)) = Some z"
    by (simp add: r commit_fields)
  show "letterAssignments alphabet (snd (handleZoneActivation alphabet (Some z) now st))
      = map_of (zip [7, 0, 1, 2, 3, 5, 6] (letters (zones alphabet ! z)))"
    using a by (simp add: r letterAssignments_def activeLetters_def commit_fields
        assignLetters_map_of LETTER_ZONE_ORDER_def)
next
  assume b: "selectionLevel st = Letter"
  then show r: "handleZoneActivation alphabet (Some SOUTH_INDEX) now st =
      (Committed [], commit now (resetSelection st))"
    by (simp add: handleZoneActivation_def CENTER_INDEX_def SOUTH_INDEX_def)
  show "selectionLevel (snd (handleZoneActivation alphabet (Some SOUTH_INDEX) now st)) = Group"
    by (simp add: r commit_fields resetSelection_def)
  show "selectedZone (snd (handleZoneActivation alphabet (Some SOUTH_INDEX) now st)) = None"
    by (simp add: r commit_fields resetSelection_def)
qed

lemma english_zones:
  "length (zones (ALPHABETS English)) = 8"
  "letters (zones (ALPHABETS English) ! 0) = [''A'', ''B'', ''C'', ''D'', ''9'']"
  by (simp_all add: ALPHABETS.simps)

lemma groupChosen_fields:
  "selectionLevel groupChosen = Letter" "selectedZone groupChosen = Some 0"
  by (simp_all add: groupChosen_def handleZoneActivation_def initialWheel_def CENTER_INDEX_def
      SOUTH_INDEX_def commit_def english_zones)

theorem group_commit_and_back_witness:
  "selectionLevel groupChosen = Letter \<and> selectedZone groupChosen = Some 0
   \<and> letterAssignments (ALPHABETS English) groupChosen 7 = Some ''A''
   \<and> letterAssignments (ALPHABETS English) groupChosen 3 = Some ''9''
   \<and> letterAssignments (ALPHABETS English) groupChosen 5 = None
   \<and> handleZoneActivation (ALPHABETS English) (Some SOUTH_INDEX) 2000 groupChosen
       = (Committed [], commit 2000 (resetSelection groupChosen))
   \<and> selectionLevel (snd (handleZoneActivation (ALPHABETS English) (Some SOUTH_INDEX) 2000
        groupChosen)) = Group"
proof -
  have h1: "selectionLevel initialWheel = Group \<and> 0 \<noteq> CENTER_INDEX \<and> 0 \<noteq> SOUTH_INDEX
      \<and> 0 < length (zones (ALPHABETS English))
      \<and> letters (zones (ALPHABETS English) ! 0) \<noteq> []"
    by (simp add: initialWheel_def CENTER_INDEX_def SOUTH_INDEX_def english_zones)
  have h2: "selectionLevel groupChosen = Letter"
    by (rule groupChosen_fields)
  have c1: "letterAssignments (ALPHABETS English) groupChosen
      = map_of (zip [7, 0, 1, 2, 3, 5, 6] (letters (zones (ALPHABETS English) ! 0)))"
    using group_commit_and_back[of initialWheel 0 "ALPHABETS English" 0] h1
    unfolding groupChosen_def by blast
  have c2: "handleZoneActivation (ALPHABETS English) (Some SOUTH_INDEX) 2000 groupChosen
       = (Committed [], commit 2000 (resetSelection groupChosen))
     \<and> selectionLevel (snd (handleZoneActivation (ALPHABETS English) (Some SOUTH_INDEX) 2000
        groupChosen)) = Group"
    using group_commit_and_back[of groupChosen 0 "ALPHABETS English" 2000] h2 by blast
  have c3: "letterAssignments (ALPHABETS English) groupChosen 7 = Some ''A''
      \<and> letterAssignments (ALPHABETS English) groupChosen 3 = Some ''9''
      \<and> letterAssignments (ALPHABETS English) groupChosen 5 = None"
    by (simp add: c1 english_zones)
  show ?thesis
    using c2 c3 groupChosen_fields by blast
qed

section \<open>The letter-level invariant\<close>

lemma hza_cases:
  "handleZoneActivation alphabet zoneIndex now st = (NoAction, st)
   \<or> (\<exists>cbs. handleZoneActivation alphabet zoneIndex now st
         = (Committed cbs, commit now (resetSelection st)))
   \<or> (\<exists>cbs. handleZoneActivation alphabet zoneIndex now st = (Committed cbs, commit now st)
        \<and> selectionLevel st = Group)
   \<or> (\<exists>z. handleZoneActivation alphabet zoneIndex now st
         = (Committed [], commit now (st\<lparr>selectedZone := Some z, selectionLevel := Letter\<rparr>))
        \<and> z < length (zones alphabet) \<and> letters (zones alphabet ! z) \<noteq> [])"
  by (cases zoneIndex) (auto simp: handleZoneActivation_def split: option.split)

lemma hza_committed:
  assumes "handleZoneActivation alphabet zoneIndex now st = (Committed cbs, st')"
  shows "cooldownUntil st' = now + COOLDOWN_TIME \<and> hoveredZone st' = None
       \<and> dwellStartTime st' = None"
  using hza_cases[of alphabet zoneIndex now st] assms by (auto simp: commit_fields)

lemma hza_levelInv:
  assumes "levelInv alphabet st"
  shows "levelInv alphabet (snd (handleZoneActivation alphabet zoneIndex now st))"
  using hza_cases[of alphabet zoneIndex now st] assms
  by (auto simp: levelInv_def commit_fields resetSelection_def)

lemma gazeEffect_keeps:
  "selectionLevel (gazeEffect alphabet isTracking container zoneRefs gazeX gazeY now st)
     = selectionLevel st"
  "selectedZone (gazeEffect alphabet isTracking container zoneRefs gazeX gazeY now st)
     = selectedZone st"
  "cooldownUntil (gazeEffect alphabet isTracking container zoneRefs gazeX gazeY now st)
     = cooldownUntil st"
  by (simp_all add: gazeEffect_def clearHover_def Let_def split: option.split prod.split)

lemma gazeEffect_cooldown:
  "now < cooldownUntil st \<Longrightarrow>
   gazeEffect alphabet isTracking container zoneRefs gazeX gazeY now st = clearHover st"
  by (simp add: gazeEffect_def split: option.split)

lemma dwellTick_idle:
  "hoveredZone st = None \<or> dwellStartTime st = None \<Longrightarrow>
   dwellTick alphabet now st = ((NoAction, False), st\<lparr>dwellProgress := Fin 0\<rparr>)"
  by (auto simp: dwellTick_def split: option.split)

lemma dwellTick_levelInv:
  assumes "levelInv alphabet st"
  shows "levelInv alphabet (snd (dwellTick alphabet now st))"
proof -
  have p: "levelInv alphabet (st\<lparr>dwellProgress := d\<rparr>)" for d
    using assms by (simp add: levelInv_def)
  show ?thesis
    using hza_levelInv[OF assms, of "hoveredZone st" now] p
    by (auto simp: dwellTick_def Let_def split: option.split prod.split)
qed

lemma wheelStep_Frame:
  "wheelStep alphabet (Frame now) st
     = (fst (fst (dwellTick alphabet now st)), snd (dwellTick alphabet now st))"
  by (simp add: wheelStep_def split: prod.split)

lemma wheelRun_Cons:
  "wheelRun alphabet (i # rest) st
     = (fst (wheelStep alphabet i st) # fst (wheelRun alphabet rest (snd (wheelStep alphabet i st))),
        snd (wheelRun alphabet rest (snd (wheelStep alphabet i st))))"
  by (simp split: prod.split)

lemma wheelStep_levelInv:
  assumes "levelInv alphabet st"
  shows "levelInv alphabet (snd (wheelStep alphabet i st))"
proof (cases i)
  case (GazeUpdate isTracking container zoneRefs gazeX gazeY now)
  then show ?thesis
    using assms by (simp add: wheelStep_def levelInv_def gazeEffect_keeps)
next
  case (Frame now)
  then show ?thesis
    using dwellTick_levelInv[OF assms, of now]
    by (simp add: wheelStep_Frame)
next
  case (Click index now)
  then show ?thesis
    using hza_levelInv[OF assms, of "Some index" now] assms
    by (simp add: wheelStep_def)
qed

lemma wheelRun_levelInv:
  "levelInv alphabet st \<Longrightarrow> levelInv alphabet (snd (wheelRun alphabet inputs st))"
proof (induction inputs arbitrary: st)
  case Nil
  then show ?case by simp
next
  case (Cons i inputs)
  have "levelInv alphabet (snd (wheelStep alphabet i st))"
    using Cons.prems by (rule wheelStep_levelInv)
  then have "levelInv alphabet (snd (wheelRun alphabet inputs (snd (wheelStep alphabet i st))))"
    by (rule Cons.IH)
  then show ?case by (simp only: wheelRun_Cons snd_conv)
qed

lemma assigned_letter_in_group:
  "assignLetters active index = Some l \<Longrightarrow> l \<in> set active"
  unfolding assignLetters_map_of by (auto dest!: map_of_SomeD set_zip_rightD)

text \<open>
  Claim C10. Whenever the selection level is Letter, a selected zone is remembered
  and it is a group of the alphabet with at least one letter (\<open>levelInv\<close>); this
  holds at the start, every activation keeps it (group commit, letter commit, back,
  submit, space), and so does any run of gaze updates, frames and clicks. Under it,
  a zone that is interactive at the letter level is Center, South, or a zone that
  carries a letter of the remembered group.
\<close>

theorem letter_level_invariant:
  "levelInv alphabet initialWheel
   \<and> (levelInv alphabet st \<longrightarrow>
        levelInv alphabet (snd (handleZoneActivation alphabet zoneIndex now st)))
   \<and> levelInv alphabet (snd (wheelRun alphabet inputs initialWheel))
   \<and> (levelInv alphabet st \<and> selectionLevel st = Letter \<and> isZoneInteractive alphabet st index
        \<longrightarrow> index = CENTER_INDEX \<or> index = SOUTH_INDEX
            \<or> (\<exists>z l. selectedZone st = Some z \<and> z < length (zones alphabet)
                  \<and> l \<in> set (letters (zones alphabet ! z))
                  \<and> letterAssignments alphabet st index = Some l))"
proof (intro conjI impI)
  show init: "levelInv alphabet initialWheel"
    by (simp add: levelInv_def initialWheel_def)
  show "levelInv alphabet (snd (wheelRun alphabet inputs initialWheel))"
    using init by (rule wheelRun_levelInv)
next
  assume "levelInv alphabet st"
  then show "levelInv alphabet (snd (handleZoneActivation alphabet zoneIndex now st))"
    by (rule hza_levelInv)
next
  assume a: "levelInv alphabet st \<and> selectionLevel st = Letter \<and> isZoneInteractive alphabet st index"
  then obtain z where z: "selectedZone st = Some z" "z < length (zones alphabet)"
    by (auto simp: levelInv_def split: option.splits)
  show "index = CENTER_INDEX \<or> index = SOUTH_INDEX
            \<or> (\<exists>z l. selectedZone st = Some z \<and> z < length (zones alphabet)
                  \<and> l \<in> set (letters (zones alphabet ! z))
                  \<and> letterAssignments alphabet st index = Some l)"
  proof (cases "index = CENTER_INDEX \<or> index = SOUTH_INDEX")
    case True
    then show ?thesis by blast
  next
    case False
    then obtain l where l: "letterAssignments alphabet st index = Some l"
      using a by (auto simp: isZoneInteractive_def)
    then have "l \<in> set (letters (zones alphabet ! z))"
      using z assigned_letter_in_group[of "activeLetters alphabet st" index l]
      by (simp add: letterAssignments_def activeLetters_def)
    then show ?thesis using z l by blast
  qed
qed

theorem letter_level_invariant_witness:
  "levelInv (ALPHABETS English) groupChosen \<and> selectionLevel groupChosen = Letter
   \<and> isZoneInteractive (ALPHABETS English) groupChosen 7
   \<and> (\<exists>z l. selectedZone groupChosen = Some z \<and> z < length (zones (ALPHABETS English))
          \<and> l \<in> set (letters (zones (ALPHABETS English) ! z))
          \<and> letterAssignments (ALPHABETS English) groupChosen 7 = Some l)
   \<and> levelInv (ALPHABETS English)
        (snd (handleZoneActivation (ALPHABETS English) (Some 7) 2000 groupChosen))"
proof -
  have inv: "levelInv (ALPHABETS English) groupChosen"
    by (simp add: levelInv_def groupChosen_fields english_zones)
  have inter: "isZoneInteractive (ALPHABETS English) groupChosen 7"
    by (simp add: isZoneInteractive_def groupChosen_fields letterAssignments_def
        activeLetters_def assignLetters_map_of LETTER_ZONE_ORDER_def CENTER_INDEX_def
        SOUTH_INDEX_def english_zones)
  have ne: "(7::nat) \<noteq> CENTER_INDEX" "(7::nat) \<noteq> SOUTH_INDEX"
    by (simp_all add: CENTER_INDEX_def SOUTH_INDEX_def)
  show ?thesis
    using letter_level_invariant[of "ALPHABETS English" groupChosen "Some 7" 2000 "[]" 7]
      inv inter ne groupChosen_fields(1)
    by blast
qed

section \<open>Cooldown\<close>

lemma clearHover_fields:
  "cooldownUntil (clearHover st) = cooldownUntil st"
  "hoveredZone (clearHover st) = None"
  "dwellStartTime (clearHover st) = None"
  by (simp_all add: clearHover_def)

lemma cooldown_step:
  assumes "cooldownUntil st = T" and "hoveredZone st = None" and "dwellStartTime st = None"
    and "isDwellInput i" and "inputTime i < T"
  shows "fst (wheelStep alphabet i st) = NoAction
       \<and> cooldownUntil (snd (wheelStep alphabet i st)) = T
       \<and> hoveredZone (snd (wheelStep alphabet i st)) = None
       \<and> dwellStartTime (snd (wheelStep alphabet i st)) = None"
proof (cases i)
  case (GazeUpdate isTracking container zoneRefs gazeX gazeY now)
  then have "now < cooldownUntil st"
    using assms(1,5) by (simp add: inputTime_def)
  then show ?thesis
    using assms(1) by (simp add: GazeUpdate wheelStep_def gazeEffect_cooldown clearHover_fields)
next
  case (Frame now)
  then show ?thesis
    using assms(1-3) by (simp add: wheelStep_Frame dwellTick_idle)
next
  case (Click index now)
  then show ?thesis
    using assms(4) by (simp add: isDwellInput_def)
qed

lemma cooldown_run:
  "cooldownUntil st = T \<Longrightarrow> hoveredZone st = None \<Longrightarrow> dwellStartTime st = None \<Longrightarrow>
   \<forall>i \<in> set inputs. isDwellInput i \<and> inputTime i < T \<Longrightarrow>
   (\<forall>act \<in> set (fst (wheelRun alphabet inputs st)). act = NoAction)
   \<and> cooldownUntil (snd (wheelRun alphabet inputs st)) = T
   \<and> hoveredZone (snd (wheelRun alphabet inputs st)) = None
   \<and> dwellStartTime (snd (wheelRun alphabet inputs st)) = None"
proof (induction inputs arbitrary: st)
  case Nil
  then show ?case by simp
next
  case (Cons i inputs)
  have i: "isDwellInput i" "inputTime i < T"
    using Cons.prems(4) by simp_all
  have rest: "\<forall>i \<in> set inputs. isDwellInput i \<and> inputTime i < T"
    using Cons.prems(4) by simp
  note step = cooldown_step[OF Cons.prems(1-3) i, of alphabet]
  have "(\<forall>act \<in> set (fst (wheelRun alphabet inputs (snd (wheelStep alphabet i st)))). act = NoAction)
   \<and> cooldownUntil (snd (wheelRun alphabet inputs (snd (wheelStep alphabet i st)))) = T
   \<and> hoveredZone (snd (wheelRun alphabet inputs (snd (wheelStep alphabet i st)))) = None
   \<and> dwellStartTime (snd (wheelRun alphabet inputs (snd (wheelStep alphabet i st)))) = None"
    using step rest by (intro Cons.IH) simp_all
  then show ?case
    using step by (simp only: wheelRun_Cons fst_conv snd_conv) simp
qed

lemma dwellTick_committed:
  assumes "dwellTick alphabet t st = ((Committed cbs, again), st1)"
  shows "cooldownUntil st1 = t + COOLDOWN_TIME \<and> hoveredZone st1 = None
       \<and> dwellStartTime st1 = None"
proof -
  obtain z start where zs: "hoveredZone st = Some z" "dwellStartTime st = Some start"
    using assms by (cases "hoveredZone st"; cases "dwellStartTime st") (auto simp: dwellTick_def)
  have "handleZoneActivation alphabet (Some z) t st = (Committed cbs, st1)"
    using assms zs
    by (auto simp: dwellTick_def Let_def split: if_splits prod.splits)
  then show ?thesis by (rule hza_committed)
qed

text \<open>
  Claim C2. After a commit by the dwell path at time \<open>t\<close>, the cooldown ends at
  \<open>t + COOLDOWN_TIME\<close>, and no gaze update or animation frame at an earlier time
  commits anything, wherever the pointer is: each leaves the hovered zone and the
  dwell start cleared.
\<close>

theorem cooldown_exclusive:
  assumes "dwellTick alphabet t st = ((Committed cbs, again), st1)"
    and "\<forall>i \<in> set inputs. isDwellInput i \<and> inputTime i < t + COOLDOWN_TIME"
  shows "cooldownUntil st1 = t + COOLDOWN_TIME
       \<and> (\<forall>act \<in> set (fst (wheelRun alphabet inputs st1)). act = NoAction)
       \<and> hoveredZone (snd (wheelRun alphabet inputs st1)) = None
       \<and> dwellStartTime (snd (wheelRun alphabet inputs st1)) = None"
  using dwellTick_committed[OF assms(1)] cooldown_run[of st1 "t + COOLDOWN_TIME" inputs alphabet]
    assms(2)
  by simp

lemma hovering_fields:
  "hoveredZone hovering = Some CENTER_INDEX" "dwellStartTime hovering = Some 0"
  "cooldownUntil hovering = 0" "selectionLevel hovering = Group"
  by (simp_all add: hovering_def initialWheel_def)

lemma hovering_commit:
  "dwellTick (ALPHABETS English) 1500 hovering =
     ((Committed [OnSubmit], False), commit 1500 (resetSelection hovering))"
  by (simp add: dwellTick_def hovering_fields DWELL_TIME_def handleZoneActivation_def)

theorem cooldown_exclusive_witness:
  "fst (wheelRun (ALPHABETS English)
      [GazeUpdate True (Some gridRect) (\<lambda>i. if i = CENTER_INDEX then Some centerRect else None)
         (Fin 150) (Fin 150) 1600,
       Frame 2499]
      (snd (dwellTick (ALPHABETS English) 1500 hovering))) = [NoAction, NoAction]"
  using cooldown_exclusive[of "ALPHABETS English" 1500 hovering "[OnSubmit]" False
      "commit 1500 (resetSelection hovering)"
      "[GazeUpdate True (Some gridRect) (\<lambda>i. if i = CENTER_INDEX then Some centerRect else None)
         (Fin 150) (Fin 150) 1600,
       Frame 2499]"]
  by (simp add: hovering_commit isDwellInput_def inputTime_def COOLDOWN_TIME_def wheelRun_Cons
      del: wheelRun.simps(2))

section \<open>Dwell timing\<close>

lemma ALPHABETS_letters_nonempty:
  "zone \<in> set (zones (ALPHABETS language)) \<Longrightarrow> l \<in> set (letters zone) \<Longrightarrow> l \<noteq> []"
  by (cases language) (auto simp: ALPHABETS.simps)

lemma activeLetters_nonempty:
  assumes "l \<in> set (activeLetters (ALPHABETS language) st)"
  shows "l \<noteq> []"
proof -
  obtain z where "z < length (zones (ALPHABETS language))"
      "l \<in> set (letters (zones (ALPHABETS language) ! z))"
    using assms by (auto simp: activeLetters_def split: option.splits if_splits)
  then show ?thesis
    using ALPHABETS_letters_nonempty[of "zones (ALPHABETS language) ! z" language l]
    by simp
qed

lemma interactive_commits:
  assumes "isZoneInteractive (ALPHABETS language) st z"
  shows "\<exists>cbs. fst (handleZoneActivation (ALPHABETS language) (Some z) now st) = Committed cbs"
proof (cases "z = CENTER_INDEX \<or> z = SOUTH_INDEX")
  case True
  then show ?thesis
    by (auto simp: handleZoneActivation_def)
next
  case False
  show ?thesis
  proof (cases "selectionLevel st")
    case Group
    then show ?thesis
      using assms False by (simp add: handleZoneActivation_def isZoneInteractive_def)
  next
    case Letter
    then obtain l where l: "letterAssignments (ALPHABETS language) st z = Some l"
      using assms False by (auto simp: isZoneInteractive_def)
    then have "l \<in> set (activeLetters (ALPHABETS language) st)"
      by (simp add: letterAssignments_def assigned_letter_in_group)
    then have "l \<noteq> []" by (rule activeLetters_nonempty)
    then show ?thesis
      using Letter False l by (simp add: handleZoneActivation_def)
  qed
qed

lemma hza_fst_cong:
  "selectionLevel st' = selectionLevel st \<Longrightarrow> selectedZone st' = selectedZone st \<Longrightarrow>
   fst (handleZoneActivation alphabet zoneIndex now st')
     = fst (handleZoneActivation alphabet zoneIndex now st)"
  by (cases zoneIndex)
     (auto simp: handleZoneActivation_def letterAssignments_def activeLetters_def
        split: option.split)

lemma isZoneInteractive_cong:
  "selectionLevel st' = selectionLevel st \<Longrightarrow> selectedZone st' = selectedZone st \<Longrightarrow>
   isZoneInteractive alphabet st' index = isZoneInteractive alphabet st index"
  by (simp add: isZoneInteractive_def letterAssignments_def activeLetters_def)

lemma dwellTick_early:
  assumes "hoveredZone st = Some z" and "dwellStartTime st = Some start"
    and "cooldownUntil st \<le> now" and "now < start + DWELL_TIME"
  shows "dwellTick alphabet now st =
     ((NoAction, True),
      st\<lparr>dwellProgress := Math_min (Fin 1) (of_ms (now - start) / of_ms DWELL_TIME)\<rparr>)"
  using assms by (simp add: dwellTick_def Let_def)

lemma dwellTick_due:
  assumes "hoveredZone st = Some z" and "dwellStartTime st = Some start"
    and "cooldownUntil st \<le> now" and "start + DWELL_TIME \<le> now"
  shows "dwellTick alphabet now st =
     ((fst (handleZoneActivation alphabet (Some z) now st), False),
      snd (handleZoneActivation alphabet (Some z) now st))"
  using assms by (simp add: dwellTick_def Let_def split: prod.split)

lemma dwellFrames_Cons:
  "dwellFrames alphabet (now # later) st =
     (if snd (fst (dwellTick alphabet now st)) then
        (fst (fst (dwellTick alphabet now st))
           # fst (dwellFrames alphabet later (snd (dwellTick alphabet now st))),
         snd (dwellFrames alphabet later (snd (dwellTick alphabet now st))))
      else ([fst (fst (dwellTick alphabet now st))], snd (dwellTick alphabet now st)))"
  by (simp split: prod.split)

lemma dwell_run:
  "hoveredZone st = Some z \<Longrightarrow> dwellStartTime st = Some start \<Longrightarrow>
   isZoneInteractive (ALPHABETS language) st z \<Longrightarrow>
   \<forall>now \<in> set frames. cooldownUntil st \<le> now \<Longrightarrow>
   \<exists>now \<in> set frames. start + DWELL_TIME \<le> now \<Longrightarrow>
   \<exists>early t late cbs.
      frames = early @ t # late \<and> (\<forall>u \<in> set early. u < start + DWELL_TIME)
      \<and> start + DWELL_TIME \<le> t
      \<and> fst (dwellFrames (ALPHABETS language) frames st)
          = replicate (length early) NoAction @ [Committed cbs]
      \<and> fst (handleZoneActivation (ALPHABETS language) (Some z) t st) = Committed cbs
      \<and> cooldownUntil (snd (dwellFrames (ALPHABETS language) frames st)) = t + COOLDOWN_TIME
      \<and> hoveredZone (snd (dwellFrames (ALPHABETS language) frames st)) = None
      \<and> dwellStartTime (snd (dwellFrames (ALPHABETS language) frames st)) = None"
proof (induction frames arbitrary: st)
  case Nil
  then show ?case by simp
next
  case (Cons now frames)
  let ?A = "ALPHABETS language"
  have cool: "cooldownUntil st \<le> now"
    using Cons.prems(4) by simp
  show ?case
  proof (cases "start + DWELL_TIME \<le> now")
    case True
    obtain cbs where cbs: "fst (handleZoneActivation ?A (Some z) now st) = Committed cbs"
      using interactive_commits[OF Cons.prems(3)] by blast
    have tick: "dwellTick ?A now st =
        ((Committed cbs, False), snd (handleZoneActivation ?A (Some z) now st))"
      using dwellTick_due[OF Cons.prems(1,2) cool True, of ?A] cbs by simp
    have "handleZoneActivation ?A (Some z) now st =
        (Committed cbs, snd (handleZoneActivation ?A (Some z) now st))"
      using cbs by (metis prod.collapse)
    then have after: "cooldownUntil (snd (handleZoneActivation ?A (Some z) now st)) = now + COOLDOWN_TIME
        \<and> hoveredZone (snd (handleZoneActivation ?A (Some z) now st)) = None
        \<and> dwellStartTime (snd (handleZoneActivation ?A (Some z) now st)) = None"
      by (rule hza_committed)
    have "now # frames = [] @ now # frames \<and> (\<forall>u \<in> set []. u < start + DWELL_TIME)
      \<and> start + DWELL_TIME \<le> now
      \<and> fst (dwellFrames ?A (now # frames) st) = replicate (length []) NoAction @ [Committed cbs]
      \<and> fst (handleZoneActivation ?A (Some z) now st) = Committed cbs
      \<and> cooldownUntil (snd (dwellFrames ?A (now # frames) st)) = now + COOLDOWN_TIME
      \<and> hoveredZone (snd (dwellFrames ?A (now # frames) st)) = None
      \<and> dwellStartTime (snd (dwellFrames ?A (now # frames) st)) = None"
      using True cbs after by (simp add: dwellFrames_Cons tick del: dwellFrames.simps)
    then show ?thesis by blast
  next
    case False
    then have early: "now < start + DWELL_TIME" by simp
    define st2 where
      "st2 = st\<lparr>dwellProgress := Math_min (Fin 1) (of_ms (now - start) / of_ms DWELL_TIME)\<rparr>"
    have tick: "dwellTick ?A now st = ((NoAction, True), st2)"
      unfolding st2_def using Cons.prems(1,2) cool early by (rule dwellTick_early)
    have f2: "hoveredZone st2 = Some z" "dwellStartTime st2 = Some start"
      "cooldownUntil st2 = cooldownUntil st" "selectionLevel st2 = selectionLevel st"
      "selectedZone st2 = selectedZone st"
      using Cons.prems(1,2) by (simp_all add: st2_def)
    have i2: "isZoneInteractive ?A st2 z"
      using Cons.prems(3) isZoneInteractive_cong[OF f2(4,5), of ?A z] by simp
    have c2: "\<forall>u \<in> set frames. cooldownUntil st2 \<le> u"
      using Cons.prems(4) f2(3) by simp
    have r2: "\<exists>u \<in> set frames. start + DWELL_TIME \<le> u"
      using Cons.prems(5) False by auto
    obtain early' t late cbs where ih:
      "frames = early' @ t # late" "\<forall>u \<in> set early'. u < start + DWELL_TIME"
      "start + DWELL_TIME \<le> t"
      "fst (dwellFrames ?A frames st2) = replicate (length early') NoAction @ [Committed cbs]"
      "fst (handleZoneActivation ?A (Some z) t st2) = Committed cbs"
      "cooldownUntil (snd (dwellFrames ?A frames st2)) = t + COOLDOWN_TIME"
      "hoveredZone (snd (dwellFrames ?A frames st2)) = None"
      "dwellStartTime (snd (dwellFrames ?A frames st2)) = None"
      using Cons.IH[OF f2(1,2) i2 c2 r2] by blast
    have same: "fst (handleZoneActivation ?A (Some z) t st) = Committed cbs"
      using ih(5) hza_fst_cong[OF f2(4,5), of ?A "Some z" t] by simp
    have "now # frames = (now # early') @ t # late
      \<and> (\<forall>u \<in> set (now # early'). u < start + DWELL_TIME)
      \<and> start + DWELL_TIME \<le> t
      \<and> fst (dwellFrames ?A (now # frames) st)
          = replicate (length (now # early')) NoAction @ [Committed cbs]
      \<and> fst (handleZoneActivation ?A (Some z) t st) = Committed cbs
      \<and> cooldownUntil (snd (dwellFrames ?A (now # frames) st)) = t + COOLDOWN_TIME
      \<and> hoveredZone (snd (dwellFrames ?A (now # frames) st)) = None
      \<and> dwellStartTime (snd (dwellFrames ?A (now # frames) st)) = None"
      using ih(1-4,6-8) same early
      by (simp add: dwellFrames_Cons tick del: dwellFrames.simps)
    then show ?thesis by blast
  qed
qed

lemma interactive_callbacks:
  assumes "isZoneInteractive (ALPHABETS language) st z"
  shows "fst (handleZoneActivation (ALPHABETS language) (Some z) now st) =
     Committed
       (if selectionLevel st = Group then
          (if z = CENTER_INDEX then [OnSubmit]
           else if z = SOUTH_INDEX then [OnSelection ''DELETE'']
           else [])
        else if z = CENTER_INDEX then [OnSelection '' '']
        else if z = SOUTH_INDEX then []
        else (case letterAssignments (ALPHABETS language) st z of
                Some letter \<Rightarrow> [OnSelection letter]
              | None \<Rightarrow> []))"
proof (cases "z = CENTER_INDEX \<or> z = SOUTH_INDEX")
  case True
  then show ?thesis
    by (auto simp: handleZoneActivation_def CENTER_INDEX_def SOUTH_INDEX_def)
next
  case False
  show ?thesis
  proof (cases "selectionLevel st")
    case Group
    then show ?thesis
      using assms False by (simp add: handleZoneActivation_def isZoneInteractive_def)
  next
    case Letter
    then obtain l where l: "letterAssignments (ALPHABETS language) st z = Some l"
      using assms False by (auto simp: isZoneInteractive_def)
    then have "l \<in> set (activeLetters (ALPHABETS language) st)"
      by (simp add: letterAssignments_def assigned_letter_in_group)
    then have "l \<noteq> []" by (rule activeLetters_nonempty)
    then show ?thesis
      using Letter False l by (simp add: handleZoneActivation_def)
  qed
qed

lemma firedCallbacks_run:
  "firedCallbacks (replicate n NoAction @ [Committed cbs]) = cbs"
  by (induction n) (simp_all add: firedCallbacks_def callbacksOf_def)

lemma hoveringNorth_fields:
  "hoveredZone hoveringNorth = Some 0" "dwellStartTime hoveringNorth = Some 0"
  "cooldownUntil hoveringNorth = 0" "selectionLevel hoveringNorth = Group"
  by (simp_all add: hoveringNorth_def initialWheel_def)

lemma hoveringNorth_interactive: "isZoneInteractive (ALPHABETS English) hoveringNorth 0"
  by (simp add: isZoneInteractive_def hoveringNorth_fields english_zones CENTER_INDEX_def
      SOUTH_INDEX_def)

text \<open>
  Claim C7. While one interactive zone stays hovered, with no cooldown in effect at
  any frame, and some frame of the chain comes at or after the dwell start plus
  \<open>DWELL_TIME\<close>: the frames before that time commit nothing, the first frame at or
  after it commits that zone, and the chain of frames stops there, so there is exactly
  one commit, and after it no frame can commit again on that dwell. The commit emits
  exactly one selection event (one call of \<open>onSubmit\<close> or \<open>onSelection\<close>) when the
  zone is Center, South at the group level, or a letter zone at the letter level. It
  emits none when the zone is a letter group at the group level (the wheel only opens
  the group) or South at the letter level (the wheel only goes back).
\<close>

theorem dwell_commits_once:
  assumes "hoveredZone st = Some z" and "dwellStartTime st = Some start"
    and "isZoneInteractive (ALPHABETS language) st z"
    and "\<forall>now \<in> set frames. cooldownUntil st \<le> now"
    and "\<exists>now \<in> set frames. start + DWELL_TIME \<le> now"
  shows "length (filter isCommitted (fst (dwellFrames (ALPHABETS language) frames st))) = 1
    \<and> (\<exists>early t late cbs.
          frames = early @ t # late \<and> (\<forall>u \<in> set early. u < start + DWELL_TIME)
          \<and> start + DWELL_TIME \<le> t
          \<and> fst (dwellFrames (ALPHABETS language) frames st)
              = replicate (length early) NoAction @ [Committed cbs]
          \<and> fst (handleZoneActivation (ALPHABETS language) (Some z) t st) = Committed cbs
          \<and> cooldownUntil (snd (dwellFrames (ALPHABETS language) frames st)) = t + COOLDOWN_TIME)
    \<and> firedCallbacks (fst (dwellFrames (ALPHABETS language) frames st)) =
        (if selectionLevel st = Group then
           (if z = CENTER_INDEX then [OnSubmit]
            else if z = SOUTH_INDEX then [OnSelection ''DELETE'']
            else [])
         else if z = CENTER_INDEX then [OnSelection '' '']
         else if z = SOUTH_INDEX then []
         else (case letterAssignments (ALPHABETS language) st z of
                 Some letter \<Rightarrow> [OnSelection letter]
               | None \<Rightarrow> []))
    \<and> length (firedCallbacks (fst (dwellFrames (ALPHABETS language) frames st))) =
        (if selectionLevel st = Group \<and> z \<noteq> CENTER_INDEX \<and> z \<noteq> SOUTH_INDEX
            \<or> selectionLevel st = Letter \<and> z = SOUTH_INDEX
         then 0 else 1)
    \<and> (\<forall>now. dwellTick (ALPHABETS language) now (snd (dwellFrames (ALPHABETS language) frames st))
          = ((NoAction, False),
             (snd (dwellFrames (ALPHABETS language) frames st))\<lparr>dwellProgress := Fin 0\<rparr>))"
proof -
  let ?A = "ALPHABETS language"
  obtain early t late cbs where r:
    "frames = early @ t # late" "\<forall>u \<in> set early. u < start + DWELL_TIME"
    "start + DWELL_TIME \<le> t"
    "fst (dwellFrames ?A frames st) = replicate (length early) NoAction @ [Committed cbs]"
    "fst (handleZoneActivation ?A (Some z) t st) = Committed cbs"
    "cooldownUntil (snd (dwellFrames ?A frames st)) = t + COOLDOWN_TIME"
    "hoveredZone (snd (dwellFrames ?A frames st)) = None"
    "dwellStartTime (snd (dwellFrames ?A frames st)) = None"
    using dwell_run[OF assms] by blast
  have count: "length (filter isCommitted (fst (dwellFrames ?A frames st))) = 1"
    by (simp add: r(4) isCommitted_def)
  have idle: "dwellTick ?A now (snd (dwellFrames ?A frames st))
          = ((NoAction, False), (snd (dwellFrames ?A frames st))\<lparr>dwellProgress := Fin 0\<rparr>)" for now
    using r(7) by (intro dwellTick_idle) simp
  have fired: "firedCallbacks (fst (dwellFrames ?A frames st)) = cbs"
    by (simp only: r(4) firedCallbacks_run)
  have cbs: "cbs =
        (if selectionLevel st = Group then
           (if z = CENTER_INDEX then [OnSubmit]
            else if z = SOUTH_INDEX then [OnSelection ''DELETE'']
            else [])
         else if z = CENTER_INDEX then [OnSelection '' '']
         else if z = SOUTH_INDEX then []
         else (case letterAssignments ?A st z of
                 Some letter \<Rightarrow> [OnSelection letter]
               | None \<Rightarrow> []))"
    using interactive_callbacks[OF assms(3), of t] r(5) by simp
  have some: "selectionLevel st = Letter \<Longrightarrow> z \<noteq> CENTER_INDEX \<Longrightarrow> z \<noteq> SOUTH_INDEX \<Longrightarrow>
      \<exists>l. letterAssignments ?A st z = Some l"
    using assms(3) by (auto simp: isZoneInteractive_def)
  have len: "length cbs =
        (if selectionLevel st = Group \<and> z \<noteq> CENTER_INDEX \<and> z \<noteq> SOUTH_INDEX
            \<or> selectionLevel st = Letter \<and> z = SOUTH_INDEX
         then 0 else 1)"
    using some by (cases "selectionLevel st") (auto simp: cbs CENTER_INDEX_def SOUTH_INDEX_def)
  have run: "\<exists>early t late cbs.
          frames = early @ t # late \<and> (\<forall>u \<in> set early. u < start + DWELL_TIME)
          \<and> start + DWELL_TIME \<le> t
          \<and> fst (dwellFrames ?A frames st) = replicate (length early) NoAction @ [Committed cbs]
          \<and> fst (handleZoneActivation ?A (Some z) t st) = Committed cbs
          \<and> cooldownUntil (snd (dwellFrames ?A frames st)) = t + COOLDOWN_TIME"
    using r(1-6) by blast
  show ?thesis
    using count run idle fired cbs len by (simp only: simp_thms)
qed

theorem dwell_commits_once_witness:
  "length (filter isCommitted
      (fst (dwellFrames (ALPHABETS English) [500, 1000, 1500, 1600] hovering))) = 1
   \<and> firedCallbacks (fst (dwellFrames (ALPHABETS English) [500, 1000, 1500, 1600] hovering))
       = [OnSubmit]"
  using dwell_commits_once[of hovering CENTER_INDEX 0 English "[500, 1000, 1500, 1600]"]
  by (simp add: hovering_fields isZoneInteractive_def DWELL_TIME_def)

text \<open>A dwell on the North zone at the group level, with frames at 500, 1000 and
  1500 ms: the third frame commits and the wheel opens the letter group, but no
  selection event is emitted.\<close>

theorem dwell_commits_once_counterexample:
  "hoveredZone hoveringNorth = Some 0 \<and> dwellStartTime hoveringNorth = Some 0
   \<and> cooldownUntil hoveringNorth = 0
   \<and> isZoneInteractive (ALPHABETS English) hoveringNorth 0
   \<and> fst (dwellFrames (ALPHABETS English) [500, 1000, 1500] hoveringNorth)
       = [NoAction, NoAction, Committed []]
   \<and> firedCallbacks (fst (dwellFrames (ALPHABETS English) [500, 1000, 1500] hoveringNorth)) = []
   \<and> selectionLevel (snd (dwellFrames (ALPHABETS English) [500, 1000, 1500] hoveringNorth))
       = Letter"
  by (simp add: hoveringNorth_fields hoveringNorth_interactive dwellFrames_Cons dwellTick_def
      DWELL_TIME_def handleZoneActivation_def english_zones CENTER_INDEX_def SOUTH_INDEX_def
      commit_def firedCallbacks_def callbacksOf_def del: dwellFrames.simps(2))

end
